(* ===== verification/Prelude.thy ===== *)
theory Prelude
  imports Main "HOL-Library.Sublist" "HOL-Library.Finite_Map"
begin

text \<open>
  What every component of the development shares: the theorem collections, Go error values
  with their \<open>%v\<close> and \<open>%w\<close> wrapping, and generic lemmas on lists and finite maps.
  Go strings are byte sequences and Isabelle's \<open>string\<close> is a list of 8-bit
  characters, so a Go string is a \<open>string\<close> byte for byte.
\<close>

section \<open>Theorem collections\<close>

named_theorems go_defs \<open>definitions of the small Go library functions\<close>
named_theorems byte_simps \<open>facts about byte classes\<close>
named_theorems effect_simps \<open>execution of effects on a concrete state\<close>
named_theorems effect_rules \<open>introduction rules for relations every step of an operation keeps\<close>

section \<open>Go error values\<close>

text \<open>
  The errors of the program, as values. \<open>PathError\<close> is \<open>os.PathError\<close> (and
  \<open>os.LinkError\<close>): the operation, the path and the system's error number. \<open>Errorf\<close>
  is \<open>fmt.Errorf\<close> with \<open>%v\<close>, which keeps the text of the inner error and drops the
  chain; \<open>Wrapf\<close> is \<open>fmt.Errorf\<close> with \<open>%w\<close>, which keeps the chain.
  \<open>ErrorString\<close> is an error with no inner error, \<open>Sentinel\<close> an exported error
  variable, \<open>Ext\<close> an error value of a third-party package.
\<close>

datatype errno = ENOENT | EEXIST | ENOTDIR | EISDIR | EACCES | EIO | ENOSPC | EROFS

datatype go_error =
    PathError string string errno
  | ErrorString string
  | Errorf string go_error
  | Wrapf string go_error
  | Sentinel string
  | Ext string

text \<open>
  \<open>errors.Is(err, target)\<close> follows the chain of \<open>%w\<close> wrappers; a path error
  unwraps to its error number, and the number \<open>ENOENT\<close> is \<open>fs.ErrNotExist\<close>.
\<close>

definition ErrNotExist :: go_error where
  "ErrNotExist = Sentinel ''file does not exist''"

fun errors_Is :: "go_error \<Rightarrow> go_error \<Rightarrow> bool" where
  "errors_Is (PathError op p n) t = (PathError op p n = t \<or> n = ENOENT \<and> t = ErrNotExist)"
| "errors_Is (Wrapf s e) t = (Wrapf s e = t \<or> errors_Is e t)"
| "errors_Is e t = (e = t)"

text \<open>\<open>os.IsNotExist\<close> is older: it looks at the error itself and never unwraps \<open>%w\<close>.\<close>

fun os_IsNotExist :: "go_error \<Rightarrow> bool" where
  "os_IsNotExist (PathError _ _ n) = (n = ENOENT)"
| "os_IsNotExist e = (e = ErrNotExist)"

lemma errors_Is_Errorf [simp]: "errors_Is (Errorf s e) ErrNotExist = False"
  by (simp add: ErrNotExist_def)

lemma os_IsNotExist_errors_Is: "os_IsNotExist e \<Longrightarrow> errors_Is e ErrNotExist"
  by (cases e) (auto simp: ErrNotExist_def)

section \<open>Lists\<close>

lemma prefix_append_iff: "prefix (a @ b) (a @ c) \<longleftrightarrow> prefix b c"
  by (simp add: same_prefix_prefix)

lemma not_prefix_longer: "length q < length p \<Longrightarrow> \<not> prefix p q"
  by (auto dest: prefix_length_le)

lemma prefix_snoc_cases: "prefix p (q @ [x]) \<longleftrightarrow> prefix p q \<or> p = q @ [x]"
  by auto

lemma list_all_concat_map: "list_all P (concat (map f xs)) \<longleftrightarrow> list_all (\<lambda>x. list_all P (f x)) xs"
  by (induction xs) auto

lemma find_append:
  "find P (xs @ ys) = (case find P xs of None \<Rightarrow> find P ys | Some x \<Rightarrow> Some x)"
  by (induction xs) auto

lemma find_list_all2:
  assumes "list_all2 R xs ys" "\<And>x y. R x y \<Longrightarrow> P x = Q y"
  shows "rel_option R (find P xs) (find Q ys)"
  using assms(1) by induction (auto simp: assms(2))

lemma find_filter: "find P (filter Q xs) = find (\<lambda>x. Q x \<and> P x) xs"
  by (induction xs) auto

lemma takeWhile_until: "x \<notin> set v \<Longrightarrow> takeWhile (\<lambda>c. c \<noteq> x) (v @ x # w) = v"
  by (induction v) auto

lemma dropWhile_until: "x \<notin> set v \<Longrightarrow> dropWhile (\<lambda>c. c \<noteq> x) (v @ x # w) = x # w"
  by (induction v) auto

lemma butlast_last_snoc: "xs \<noteq> [] \<Longrightarrow> xs = butlast xs @ [last xs]"
  by simp

section \<open>Loops that may fail\<close>

text \<open>A loop of fallible steps that collects what they return and stops at the first error.\<close>

fun traverse :: "('a \<Rightarrow> 'e + 'b) \<Rightarrow> 'a list \<Rightarrow> 'e + 'b list" where
  "traverse f [] = Inr []"
| "traverse f (x # xs) = (case f x of Inl e \<Rightarrow> Inl e | Inr y \<Rightarrow> map_sum id ((#) y) (traverse f xs))"

section \<open>Finite maps\<close>

text \<open>The library's congruence rule keeps the simplifier from rewriting the filtered map.\<close>

declare fmfilter_cong [cong del]

text \<open>A Go map filled by a loop of assignments: the last assignment of a key wins.\<close>

lemma fmlookup_fold_upd:
  "fmlookup (fold (\<lambda>x. fmupd (k x) (v x)) xs m) a =
    (case find (\<lambda>x. k x = a) (rev xs) of None \<Rightarrow> fmlookup m a | Some x \<Rightarrow> Some (v x))"
  by (induction xs arbitrary: m) (auto simp: find_append split: option.splits)

lemma fmdom_fold_upd:
  "fmdom' (fold (\<lambda>x. fmupd (k x) (v x)) xs m) = k ` set xs \<union> fmdom' m"
  by (induction xs arbitrary: m) auto

lemma fmlookup_fold_upd_in:
  assumes "x \<in> set xs" "k x = a"
  shows "\<exists>y \<in> set xs. k y = a \<and> fmlookup (fold (\<lambda>x. fmupd (k x) (v x)) xs m) a = Some (v y)"
proof -
  from assms have "find (\<lambda>x. k x = a) (rev xs) \<noteq> None"
    by (auto simp: find_None_iff)
  then obtain y where y: "find (\<lambda>x. k x = a) (rev xs) = Some y"
    by blast
  then have "y \<in> set xs" "k y = a"
    by (auto simp: find_Some_iff) (metis nth_mem set_rev length_rev)
  with y show ?thesis
    by (auto simp: fmlookup_fold_upd)
qed

lemma fmlookup_fold_upd_distinct:
  assumes "x \<in> set xs" "distinct (map k xs)"
  shows "fmlookup (fold (\<lambda>x. fmupd (k x) (v x)) xs m) (k x) = Some (v x)"
proof -
  from fmlookup_fold_upd_in [OF assms(1) refl, of k v m] obtain y where
    "y \<in> set xs" "k y = k x" and look: "fmlookup (fold (\<lambda>x. fmupd (k x) (v x)) xs m) (k x) = Some (v y)"
    by blast
  with assms have "y = x"
    by (auto simp: distinct_map dest: inj_onD)
  with look show ?thesis by simp
qed

end
