(* ===== verification/Go_Strings.thy ===== *)
theory Go_Strings
  imports Prelude
begin

text \<open>
  The parts of the Go standard library on strings that the source calls: \<open>strings\<close>
  (HasPrefix, TrimPrefix, Split, Join, ToUpper, ReplaceAll), \<open>strconv.Itoa\<close>, the
  decoding of a string into runes that a \<open>range\<close> loop does (\<open>unicode/utf8\<close>) and
  the one regular expression of the program. The lemmas are the round trips between
  splitting and joining, the injectivity of decimal notation, and that a test of ASCII
  classes on runes is the same test on bytes.
\<close>

section \<open>Bytes\<close>

abbreviation byte :: "char \<Rightarrow> nat" where
  "byte c \<equiv> of_char c"

lemma byte_less [simp]: "byte c < 256"
  by (metis of_char_of nat_of_char_less_256)

definition is_lower :: "char \<Rightarrow> bool" where
  "is_lower c \<longleftrightarrow> 97 \<le> byte c \<and> byte c \<le> 122"

definition is_upper :: "char \<Rightarrow> bool" where
  "is_upper c \<longleftrightarrow> 65 \<le> byte c \<and> byte c \<le> 90"

definition is_digit :: "char \<Rightarrow> bool" where
  "is_digit c \<longleftrightarrow> 48 \<le> byte c \<and> byte c \<le> 57"

definition is_alnum :: "char \<Rightarrow> bool" where
  "is_alnum c \<longleftrightarrow> is_lower c \<or> is_upper c \<or> is_digit c"

lemmas byte_class_defs = is_lower_def is_upper_def is_digit_def is_alnum_def


section \<open>Prefixes, splitting and joining\<close>

definition HasPrefix :: "string \<Rightarrow> string \<Rightarrow> bool" where
  "HasPrefix s p = prefix p s"

definition TrimPrefix :: "string \<Rightarrow> string \<Rightarrow> string" where
  "TrimPrefix s p = (if HasPrefix s p then drop (length p) s else s)"

text \<open>\<open>strings.Split\<close> with a separator of one byte: it never returns an empty list.\<close>

fun Split :: "char \<Rightarrow> string \<Rightarrow> string list" where
  "Split c [] = [[]]"
| "Split c (x # xs) =
    (if x = c then [] # Split c xs
     else (case Split c xs of [] \<Rightarrow> [[x]] | p # ps \<Rightarrow> (x # p) # ps))"

fun Join :: "string list \<Rightarrow> string \<Rightarrow> string" where
  "Join [] sep = []"
| "Join [x] sep = x"
| "Join (x # y # r) sep = x @ sep @ Join (y # r) sep"

lemma HasPrefix_append [simp]: "HasPrefix (p @ s) p"
  by (simp add: HasPrefix_def)

lemma TrimPrefix_append [simp]: "TrimPrefix (p @ s) p = s"
  by (simp add: TrimPrefix_def)

lemma TrimPrefix_other: "\<not> HasPrefix s p \<Longrightarrow> TrimPrefix s p = s"
  by (simp add: TrimPrefix_def)

lemma Split_not_Nil [simp]: "Split c s \<noteq> []"
  by (induction s) (auto split: list.splits)

lemma Split_parts: "p \<in> set (Split c s) \<Longrightarrow> c \<notin> set p"
  by (induction s arbitrary: p) (auto split: list.splits if_splits)

lemma Split_none: "c \<notin> set s \<Longrightarrow> Split c s = [s]"
  by (induction s) auto

lemma Split_append_sep: "Split c (a @ c # b) = Split c a @ Split c b"
  by (induction a) (auto split: list.splits)

lemma Join_Cons: "ps \<noteq> [] \<Longrightarrow> Join (p # ps) sep = p @ sep @ Join ps sep"
  by (cases ps) auto

lemma Join_Cons_char [simp]: "Join ((x # p) # ps) sep = x # Join (p # ps) sep"
  by (cases ps) auto

lemma Join_append:
  "ps \<noteq> [] \<Longrightarrow> qs \<noteq> [] \<Longrightarrow> Join (ps @ qs) sep = Join ps sep @ sep @ Join qs sep"
proof (induction ps)
  case (Cons p ps)
  then show ?case by (cases ps) (auto simp: Join_Cons)
qed simp

text \<open>Joining undoes splitting, and splitting undoes joining where no part holds the separator.\<close>

lemma Join_Split [simp]: "Join (Split c s) [c] = s"
proof (induction s)
  case (Cons x s)
  then show ?case
    by (cases "Split c s") (auto simp: Join_Cons split: list.splits)
qed simp

lemma Split_Join:
  "ps \<noteq> [] \<Longrightarrow> (\<And>p. p \<in> set ps \<Longrightarrow> c \<notin> set p) \<Longrightarrow> Split c (Join ps [c]) = ps"
proof (induction ps)
  case (Cons p ps)
  show ?case
  proof (cases "ps = []")
    case True
    with Cons.prems show ?thesis by (simp add: Split_none)
  next
    case False
    with Cons have "Split c (Join ps [c]) = ps" by simp
    with False Cons.prems show ?thesis
      by (simp add: Join_Cons Split_append_sep [where b = "Join ps [c]"] Split_none)
  qed
qed simp

lemma Split_inject: "Split c s = Split c t \<Longrightarrow> s = t"
  by (metis Join_Split)

lemma Join_inject:
  assumes "Join ps [c] = Join qs [c]" "ps \<noteq> []" "qs \<noteq> []"
    and "\<And>p. p \<in> set ps \<Longrightarrow> c \<notin> set p" "\<And>q. q \<in> set qs \<Longrightarrow> c \<notin> set q"
  shows "ps = qs"
  by (metis Split_Join assms)

lemma length_Split_count: "length (Split c s) = Suc (count_list s c)"
  by (induction s) (auto split: list.splits)

section \<open>Case mapping and replacement\<close>

text \<open>
  \<open>strings.ToUpper\<close> on the strings the program gives it, which are ASCII: a lower case
  letter moves down by 32.
\<close>

definition upper_byte :: "char \<Rightarrow> char" where
  "upper_byte c = (if is_lower c then char_of (byte c - 32) else c)"

definition ToUpper :: "string \<Rightarrow> string" where
  "ToUpper s = map upper_byte s"

definition ReplaceAll_char :: "string \<Rightarrow> char \<Rightarrow> char \<Rightarrow> string" where
  "ReplaceAll_char s old new = map (\<lambda>c. if c = old then new else c) s"

lemma length_ToUpper [simp]: "length (ToUpper s) = length s"
  by (simp add: ToUpper_def)

lemma ToUpper_append [simp]: "ToUpper (a @ b) = ToUpper a @ ToUpper b"
  by (simp add: ToUpper_def)

lemma byte_upper_byte: "byte (upper_byte c) = (if is_lower c then byte c - 32 else byte c)"
  by (auto simp: upper_byte_def is_lower_def)

lemma upper_byte_digit [simp]: "is_digit c \<Longrightarrow> upper_byte c = c"
  by (simp add: upper_byte_def byte_class_defs)

lemma ToUpper_digits: "list_all is_digit s \<Longrightarrow> ToUpper s = s"
  by (induction s) (auto simp: ToUpper_def)

section \<open>Decimal notation\<close>

definition digit_char :: "nat \<Rightarrow> char" where
  "digit_char d = char_of (48 + d)"

text \<open>\<open>strconv.Itoa\<close> and the verb \<open>%d\<close> on a number that is not negative.\<close>

fun Itoa :: "nat \<Rightarrow> string" where
  "Itoa n = (if n < 10 then [digit_char n] else Itoa (n div 10) @ [digit_char (n mod 10)])"

declare Itoa.simps [simp del]

lemma byte_digit_char: "d < 10 \<Longrightarrow> byte (digit_char d) = 48 + d"
  by (simp add: digit_char_def)

lemma digit_char_inject: "d < 10 \<Longrightarrow> e < 10 \<Longrightarrow> digit_char d = digit_char e \<Longrightarrow> d = e"
  by (metis add_left_cancel byte_digit_char)

lemma is_digit_digit_char: "d < 10 \<Longrightarrow> is_digit (digit_char d)"
  by (simp add: is_digit_def byte_digit_char)

lemma Itoa_not_Nil [simp]: "Itoa n \<noteq> []"
  by (subst Itoa.simps) simp

lemma Itoa_digits: "list_all is_digit (Itoa n)"
proof (induction n rule: Itoa.induct)
  case (1 n)
  then show ?case
    by (subst Itoa.simps) (auto intro: is_digit_digit_char)
qed

text \<open>Reading a numeral back, which makes decimal notation injective.\<close>

definition Atoi :: "string \<Rightarrow> nat" where
  "Atoi s = foldl (\<lambda>n c. 10 * n + (byte c - 48)) 0 s"

lemma Atoi_Itoa [simp]: "Atoi (Itoa n) = n"
proof (induction n rule: Itoa.induct)
  case (1 n)
  show ?case
  proof (cases "n < 10")
    case True
    then show ?thesis by (subst Itoa.simps) (simp add: Atoi_def byte_digit_char)
  next
    case False
    with 1 have "Atoi (Itoa (n div 10)) = n div 10" by simp
    with False show ?thesis
      by (subst Itoa.simps) (simp add: Atoi_def byte_digit_char)
  qed
qed

lemma Itoa_inject [simp]: "Itoa m = Itoa n \<longleftrightarrow> m = n"
  by (metis Atoi_Itoa)


section \<open>Runes\<close>

text \<open>
  A \<open>range\<close> loop over a string decodes UTF-8. \<open>decode_rune\<close> is
  \<open>utf8.DecodeRuneInString\<close> on a string that is not empty: the rune and its width in
  bytes, and \<open>RuneError\<close> with width 1 where the bytes are not valid UTF-8 (an
  overlong form, a surrogate, a value past \<open>U+10FFFF\<close>, a missing continuation byte).
\<close>

definition RuneError :: nat where
  "RuneError = 65533"

definition cont :: "nat \<Rightarrow> bool" where
  "cont b \<longleftrightarrow> 128 \<le> b \<and> b \<le> 191"

fun nth_byte :: "string \<Rightarrow> nat \<Rightarrow> nat" where
  "nth_byte [] n = 0"
| "nth_byte (c # s) 0 = byte c"
| "nth_byte (c # s) (Suc n) = nth_byte s n"

definition decode_rune :: "string \<Rightarrow> nat \<times> nat" where
  "decode_rune s =
    (let b0 = nth_byte s 0; b1 = nth_byte s 1; b2 = nth_byte s 2; b3 = nth_byte s 3 in
     if b0 < 128 then (b0, 1)
     else if 194 \<le> b0 \<and> b0 \<le> 223 \<and> cont b1
       then ((b0 - 192) * 64 + (b1 - 128), 2)
     else if 224 \<le> b0 \<and> b0 \<le> 239 \<and> cont b1 \<and> cont b2
         \<and> (b0 = 224 \<longrightarrow> 160 \<le> b1) \<and> (b0 = 237 \<longrightarrow> b1 \<le> 159)
       then ((b0 - 224) * 4096 + (b1 - 128) * 64 + (b2 - 128), 3)
     else if 240 \<le> b0 \<and> b0 \<le> 244 \<and> cont b1 \<and> cont b2 \<and> cont b3
         \<and> (b0 = 240 \<longrightarrow> 144 \<le> b1) \<and> (b0 = 244 \<longrightarrow> b1 \<le> 143)
       then ((b0 - 240) * 262144 + (b1 - 128) * 4096 + (b2 - 128) * 64 + (b3 - 128), 4)
     else (RuneError, 1))"

lemma decode_rune_width: "1 \<le> snd (decode_rune s) \<and> snd (decode_rune s) \<le> 4"
  by (auto simp: decode_rune_def Let_def)

function runes :: "string \<Rightarrow> nat list" where
  "runes [] = []"
| "runes (c # s) =
    (let (r, n) = decode_rune (c # s) in r # runes (drop (n - 1) s))"
  by pat_completeness auto
termination
  by (relation "measure length") auto

lemma decode_rune_ascii: "byte c < 128 \<Longrightarrow> decode_rune (c # s) = (byte c, 1)"
  by (simp add: decode_rune_def)

lemma decode_rune_multibyte:
  assumes "128 \<le> byte c"
  shows "128 \<le> fst (decode_rune (c # s))"
  using assms
  by (auto simp: decode_rune_def Let_def RuneError_def cont_def nth_byte.simps)

lemma runes_ascii: "list_all (\<lambda>c. byte c < 128) s \<Longrightarrow> runes s = map byte s"
  by (induction s) (auto simp: decode_rune_ascii)

text \<open>
  A class of ASCII characters is decided byte by byte: every byte of a rune that is not
  ASCII is at least 128, and so is the rune.
\<close>

lemma list_all_runes_ascii:
  assumes ascii: "\<And>r. P r \<Longrightarrow> r < 128"
  shows "list_all P (runes s) \<longleftrightarrow> list_all (\<lambda>c. P (byte c)) s"
proof (induction s rule: runes.induct)
  case (2 c s)
  show ?case
  proof (cases "byte c < 128")
    case True
    with 2 show ?thesis by (simp add: decode_rune_ascii)
  next
    case False
    then have "\<not> P (byte c)" "\<not> P (fst (decode_rune (c # s)))"
      using ascii decode_rune_multibyte [of c s] by (auto dest!: ascii)
    then show ?thesis by (simp add: split_beta Let_def)
  qed
qed simp

section \<open>The regular expression of the program\<close>

text \<open>
  \<open>nonWord.ReplaceAllString(s, "_")\<close> with \<open>[^a-zA-Z0-9]+\<close>: every maximal run of
  characters outside the class becomes one underscore. The bytes of a rune that is not
  ASCII are all outside the class, so runs of bytes are runs of runes.
\<close>

function nonWord_replace :: "string \<Rightarrow> string" where
  "nonWord_replace [] = []"
| "nonWord_replace (c # s) =
    (if is_alnum c then c # nonWord_replace s
     else CHR ''_'' # nonWord_replace (dropWhile (\<lambda>x. \<not> is_alnum x) s))"
  by pat_completeness auto
termination
  by (relation "measure length") (auto simp: le_imp_less_Suc length_dropWhile_le)

lemma nonWord_replace_alnum: "list_all is_alnum s \<Longrightarrow> nonWord_replace s = s"
  by (induction s) auto

lemma nonWord_replace_alnum_append:
  "list_all is_alnum s \<Longrightarrow> nonWord_replace (s @ t) = s @ nonWord_replace t"
  by (induction s) auto

lemma nonWord_replace_chars:
  "c \<in> set (nonWord_replace s) \<Longrightarrow> is_alnum c \<or> c = CHR ''_''"
  by (induction s rule: nonWord_replace.induct) (auto split: if_splits)

end
