(* ===== verification/Go_Paths.thy ===== *)
theory Go_Paths
  imports Go_Strings
begin

text \<open>
  The package \<open>path/filepath\<close> on Unix (and \<open>path\<close>, which agrees with it there):
  \<open>Clean\<close>, \<open>Join\<close> and \<open>Dir\<close>, and the list of directory names \<open>elems\<close> that
  the operating system walks for an absolute path. The lemmas say when a joined path stays
  below its base: when every joined element is a plain name.
\<close>

section \<open>Lexical paths\<close>

type_synonym path = "string list"

text \<open>
  \<open>Clean\<close> drops empty elements and \<open>.\<close>, and lets \<open>..\<close> cancel the element
  before it; at the root of an absolute path \<open>..\<close> is dropped. The accumulator holds
  the elements kept so far, last one first.
\<close>

fun clean_elems :: "bool \<Rightarrow> path \<Rightarrow> string list \<Rightarrow> path" where
  "clean_elems rooted acc [] = rev acc"
| "clean_elems rooted acc (e # es) =
    (if e = [] \<or> e = ''.'' then clean_elems rooted acc es
     else if e = ''..'' then
       (case acc of
          [] \<Rightarrow> clean_elems rooted (if rooted then [] else [''..'']) es
        | a # as \<Rightarrow> clean_elems rooted (if a = ''..'' then ''..'' # acc else as) es)
     else clean_elems rooted (e # acc) es)"

definition is_abs :: "string \<Rightarrow> bool" where
  "is_abs s \<longleftrightarrow> s \<noteq> [] \<and> hd s = CHR ''/''"

definition Clean :: "string \<Rightarrow> string" where
  "Clean s =
    (if s = [] then ''.''
     else (let es = clean_elems (is_abs s) [] (Split (CHR ''/'') s) in
       if is_abs s then CHR ''/'' # Join es ''/''
       else if es = [] then ''.'' else Join es ''/''))"

definition filepath_Join :: "string list \<Rightarrow> string" where
  "filepath_Join es =
    (case dropWhile (\<lambda>e. e = []) es of [] \<Rightarrow> [] | e # r \<Rightarrow> Clean (Join (e # r) ''/''))"

definition filepath_Dir :: "string \<Rightarrow> string" where
  "filepath_Dir s = Clean (rev (dropWhile (\<lambda>c. c \<noteq> CHR ''/'') (rev s)))"

text \<open>The names the system walks, from the root, for an absolute path.\<close>

definition elems :: "string \<Rightarrow> path" where
  "elems s = clean_elems True [] (Split (CHR ''/'') s)"

text \<open>A plain name: one directory entry, as a DNS label is.\<close>

definition plain :: "string \<Rightarrow> bool" where
  "plain e \<longleftrightarrow> e \<noteq> [] \<and> e \<noteq> ''.'' \<and> e \<noteq> ''..'' \<and> CHR ''/'' \<notin> set e"

section \<open>Cleaned paths\<close>

lemma clean_elems_plain:
  "list_all plain es \<Longrightarrow> clean_elems r acc es = rev acc @ es"
  by (induction es arbitrary: acc) (auto simp: plain_def)

lemma clean_elems_append_plain:
  "list_all plain es \<Longrightarrow> clean_elems True acc (xs @ es) = clean_elems True acc xs @ es"
proof (induction xs arbitrary: acc)
  case Nil
  then show ?case by (simp add: clean_elems_plain)
next
  case (Cons x xs)
  then show ?case by (auto split: list.splits)
qed

lemma clean_elems_append_singleton:
  assumes "plain e"
  shows "clean_elems True acc (xs @ [e]) = clean_elems True acc xs @ [e]"
  using assms by (intro clean_elems_append_plain) simp

lemma clean_elems_result_plain:
  assumes "list_all plain acc" "\<And>e. e \<in> set es \<Longrightarrow> CHR ''/'' \<notin> set e"
  shows "list_all plain (clean_elems True acc es)"
  using assms
proof (induction es arbitrary: acc)
  case Nil
  then show ?case by (simp add: list_all_iff)
next
  case (Cons e es)
  then show ?case by (auto simp: plain_def split: list.splits)
qed

lemma elems_plain: "list_all plain (elems s)"
  unfolding elems_def
  by (rule clean_elems_result_plain) (auto dest: Split_parts)

lemma Split_slash_Join:
  assumes "list_all plain es" "es \<noteq> []"
  shows "Split (CHR ''/'') (Join es ''/'') = es"
  by (rule Split_Join) (use assms in \<open>auto simp: list_all_iff plain_def\<close>)

lemma elems_Join_plain:
  assumes "list_all plain es"
  shows "elems (CHR ''/'' # Join es ''/'') = es"
proof (cases "es = []")
  case True
  then show ?thesis by (simp add: elems_def)
next
  case False
  with assms show ?thesis
    by (simp add: elems_def Split_slash_Join clean_elems_plain)
qed

lemma elems_Clean:
  assumes "is_abs s"
  shows "elems (Clean s) = elems s"
proof -
  from assms have "Clean s = CHR ''/'' # Join (elems s) ''/''"
    by (auto simp: Clean_def elems_def is_abs_def)
  then show ?thesis by (simp add: elems_Join_plain elems_plain)
qed

lemma is_abs_Clean [simp]: "is_abs s \<Longrightarrow> is_abs (Clean s)"
  by (auto simp: Clean_def is_abs_def Let_def)

section \<open>Joining\<close>

lemma Split_slash_Join_concat:
  "xs \<noteq> [] \<Longrightarrow> Split (CHR ''/'') (Join xs ''/'') = concat (map (Split (CHR ''/'')) xs)"
proof (induction xs)
  case (Cons x xs)
  then show ?case
    by (cases xs) (auto simp: Split_append_sep)
qed simp

lemma is_abs_Join: "is_abs b \<Longrightarrow> is_abs (Join (b # xs) s)"
  by (cases xs; cases b) (auto simp: is_abs_def)

lemma elems_filepath_Join:
  assumes "is_abs b"
  shows "elems (filepath_Join (b # xs)) = clean_elems True [] (concat (map (Split (CHR ''/'')) (b # xs)))"
proof -
  from assms have "b \<noteq> []" by (simp add: is_abs_def)
  then have "filepath_Join (b # xs) = Clean (Join (b # xs) ''/'')"
    by (simp add: filepath_Join_def)
  moreover have "is_abs (Join (b # xs) ''/'')"
    using assms by (rule is_abs_Join)
  ultimately have "elems (filepath_Join (b # xs)) = elems (Join (b # xs) ''/'')"
    by (simp add: elems_Clean)
  then show ?thesis
    unfolding elems_def by (simp add: Split_slash_Join_concat del: concat.simps list.map)
qed

lemma is_abs_filepath_Join [simp]: "is_abs b \<Longrightarrow> is_abs (filepath_Join (b # xs))"
  by (auto simp: filepath_Join_def is_abs_def [of b] intro!: is_abs_Clean is_abs_Join)

lemma concat_Split_plain: "list_all plain xs \<Longrightarrow> concat (map (Split (CHR ''/'')) xs) = xs"
  by (induction xs) (auto simp: plain_def Split_none)

text \<open>Plain names joined to an absolute base are appended to the base's names.\<close>

lemma elems_filepath_Join_plain:
  assumes "is_abs b" "list_all plain xs"
  shows "elems (filepath_Join (b # xs)) = elems b @ xs"
  using assms
  by (simp add: elems_filepath_Join concat_Split_plain clean_elems_append_plain elems_def [of b])

section \<open>The last name of a path\<close>

lemma elems_append_name:
  assumes "plain x"
  shows "elems (s @ CHR ''/'' # x) = elems s @ [x]"
proof -
  from assms have "Split (CHR ''/'') (s @ CHR ''/'' # x) = Split (CHR ''/'') s @ [x]"
    by (simp add: Split_append_sep plain_def Split_none)
  then show ?thesis
    using assms by (simp add: elems_def clean_elems_append_singleton)
qed

lemma clean_elems_append_Nil: "clean_elems r acc (xs @ [[]]) = clean_elems r acc xs"
  by (induction r acc xs rule: clean_elems.induct) (auto split: list.splits)

lemma elems_trailing_slash: "elems (s @ ''/'') = elems s"
  by (simp add: elems_def Split_append_sep clean_elems_append_Nil)

lemma elems_filepath_Dir:
  assumes "plain x" "p = [] \<or> is_abs p"
  shows "elems (filepath_Dir (p @ CHR ''/'' # x)) = elems p"
proof -
  have "dropWhile (\<lambda>c. c \<noteq> CHR ''/'') (rev x @ CHR ''/'' # rev p) = CHR ''/'' # rev p"
    using assms(1) by (subst dropWhile_append2) (auto simp: plain_def)
  then have "filepath_Dir (p @ CHR ''/'' # x) = Clean (p @ ''/'')"
    by (simp add: filepath_Dir_def)
  moreover have "is_abs (p @ ''/'')"
    using assms(2) by (auto simp: is_abs_def)
  ultimately show ?thesis
    by (simp add: elems_Clean elems_trailing_slash)
qed

lemma Clean_abs: "is_abs s \<Longrightarrow> Clean s = CHR ''/'' # Join (elems s) ''/''"
  by (auto simp: Clean_def elems_def is_abs_def)

lemma filepath_Join_name:
  assumes "is_abs b" "plain x"
  obtains p where "filepath_Join [b, x] = p @ CHR ''/'' # x" "p = [] \<or> is_abs p" "elems p = elems b"
proof -
  have "filepath_Join [b, x] = Clean (Join [b, x] ''/'')"
    using assms(1) by (auto simp: filepath_Join_def is_abs_def)
  also have "\<dots> = CHR ''/'' # Join (elems (Join [b, x] ''/'')) ''/''"
    using assms(1) by (intro Clean_abs is_abs_Join)
  also have "elems (Join [b, x] ''/'') = elems (filepath_Join [b, x])"
    using assms(1) is_abs_Join [OF assms(1), of "[x]" "''/''"] calculation
    by (simp add: elems_Clean elems_Join_plain elems_plain)
  also have "\<dots> = elems b @ [x]"
    using assms by (simp add: elems_filepath_Join_plain)
  finally have eq: "filepath_Join [b, x] = CHR ''/'' # Join (elems b @ [x]) ''/''" .
  show thesis
  proof (cases "elems b = []")
    case True
    then show thesis
      using eq by (intro that [of "[]"]) (simp_all add: elems_def)
  next
    case False
    then show thesis
      using eq by (intro that [of "CHR ''/'' # Join (elems b) ''/''"])
        (simp_all add: Join_append is_abs_def elems_Join_plain elems_plain)
  qed
qed

lemma elems_Dir_Join:
  assumes "is_abs b" "plain x"
  shows "elems (filepath_Dir (filepath_Join [b, x])) = elems b"
proof -
  obtain p where "filepath_Join [b, x] = p @ CHR ''/'' # x" "p = [] \<or> is_abs p" "elems p = elems b"
    using assms by (rule filepath_Join_name)
  then show ?thesis
    using elems_filepath_Dir [OF assms(2)] by simp
qed
end
