(* ===== verification/Go_Effects.thy ===== *)
theory Go_Effects
  imports Go_Paths "HOL-Library.Word"
begin

text \<open>
  Effects. An operation of the driver is a function from the state of the world to an outcome
  and the next state: \<open>Ok\<close> for a return without error, \<open>Err\<close> for a returned error,
  \<open>Abort\<close> where the goroutine does not return (a nil dereference, the process killed, a
  lock that is never released, a panic with an error, a wait for an event that has not come). The combinators are Go's ways to go on after a call:
  \<open>call m k\<close> is \<open>x, err := m; if err != nil { return err }; k(x)\<close>, \<open>wrap\<close> puts a
  message before the error, \<open>on_err\<close> handles it.

  The world holds the files, the mutex, the state \<open>ext\<close> of the third-party code (the CDI
  cache, the API server, SELinux labels), and an environment that decides everything the
  program cannot know: which system call fails or is the one the process is killed in, how much
  of a disturbed write got out, the suffix of a temporary file, the order of a map iteration.
  Theorems hold for every environment unless they say otherwise.
\<close>

section \<open>The world\<close>

type_synonym file_mode = "32 word"

record attrs =
  owner_uid :: int
  owner_gid :: int
  mode :: file_mode

datatype node = Dir attrs | File attrs string

text \<open>
  How a system call can be disturbed. A disturbance never pretends that a file is missing:
  \<open>ENOENT\<close> is answered from the state of the files.
\<close>

datatype fault = Denied | IoError | NoSpace | ReadOnly | Kill

fun fault_errno :: "fault \<Rightarrow> errno" where
  "fault_errno Denied = EACCES"
| "fault_errno NoSpace = ENOSPC"
| "fault_errno ReadOnly = EROFS"
| "fault_errno f = EIO"

record sysenv =
  fault_at :: "nat \<Rightarrow> fault option"
  short_write :: "nat \<Rightarrow> nat"
  spared :: "nat \<Rightarrow> path \<Rightarrow> bool"
  tmp_number :: "nat \<Rightarrow> nat"
  range_order :: "nat \<Rightarrow> nat \<Rightarrow> nat list"
  getenv :: "string \<Rightarrow> string"
  umask :: file_mode

record 'x world =
  env :: sysenv
  ticks :: nat
  files :: "(path, node) fmap"
  mutex :: bool
  ext :: 'x

datatype abort_reason = NilDeref | Killed | Deadlock | Panicked | Waiting

datatype 'a outcome = Ok 'a | Err go_error | Abort abort_reason

type_synonym ('x, 'a) io = "'x world \<Rightarrow> 'a outcome \<times> 'x world"

section \<open>Combinators\<close>

definition ok :: "'a \<Rightarrow> ('x, 'a) io" where
  "ok x = (\<lambda>w. (Ok x, w))"

definition fail :: "go_error \<Rightarrow> ('x, 'a) io" where
  "fail e = (\<lambda>w. (Err e, w))"

definition abort :: "abort_reason \<Rightarrow> ('x, 'a) io" where
  "abort a = (\<lambda>w. (Abort a, w))"

definition call :: "('x, 'a) io \<Rightarrow> ('a \<Rightarrow> ('x, 'b) io) \<Rightarrow> ('x, 'b) io" where
  "call m k = (\<lambda>w. case m w of (r, w') \<Rightarrow>
    (case r of Ok x \<Rightarrow> k x w' | Err e \<Rightarrow> (Err e, w') | Abort a \<Rightarrow> (Abort a, w')))"

definition on_err :: "('x, 'a) io \<Rightarrow> (go_error \<Rightarrow> ('x, 'a) io) \<Rightarrow> ('x, 'a) io" where
  "on_err m h = (\<lambda>w. case m w of (r, w') \<Rightarrow>
    (case r of Err e \<Rightarrow> h e w' | _ \<Rightarrow> (r, w')))"

definition wrap :: "(go_error \<Rightarrow> go_error) \<Rightarrow> ('x, 'a) io \<Rightarrow> ('x, 'a) io" where
  "wrap f m = on_err m (\<lambda>e. fail (f e))"

definition lift_result :: "go_error + 'a \<Rightarrow> ('x, 'a) io" where
  "lift_result r = (case r of Inl e \<Rightarrow> fail e | Inr x \<Rightarrow> ok x)"

fun for_each :: "('a \<Rightarrow> ('x, unit) io) \<Rightarrow> 'a list \<Rightarrow> ('x, unit) io" where
  "for_each body [] = ok ()"
| "for_each body (x # xs) = call (body x) (\<lambda>_. for_each body xs)"

lemma ok_run [effect_simps]: "ok x w = (Ok x, w)"
  by (simp add: ok_def)

lemma fail_run [effect_simps]: "fail e w = (Err e, w)"
  by (simp add: fail_def)

lemma abort_run [effect_simps]: "abort a w = (Abort a, w)"
  by (simp add: abort_def)

lemma call_Ok: "m w = (Ok x, w') \<Longrightarrow> call m k w = k x w'"
  by (simp add: call_def)

lemma call_Err: "m w = (Err e, w') \<Longrightarrow> call m k w = (Err e, w')"
  by (simp add: call_def)

lemma call_Abort: "m w = (Abort a, w') \<Longrightarrow> call m k w = (Abort a, w')"
  by (simp add: call_def)

lemma call_run [effect_simps]:
  "call m k w = (case m w of (Ok x, w') \<Rightarrow> k x w' | (Err e, w') \<Rightarrow> (Err e, w')
    | (Abort a, w') \<Rightarrow> (Abort a, w'))"
  by (simp add: call_def split: prod.splits outcome.splits)

lemma on_err_run [effect_simps]:
  "on_err m h w = (case m w of (Ok x, w') \<Rightarrow> (Ok x, w') | (Err e, w') \<Rightarrow> h e w'
    | (Abort a, w') \<Rightarrow> (Abort a, w'))"
  by (simp add: on_err_def split: prod.splits outcome.splits)

lemma wrap_run [effect_simps]:
  "wrap f m w = (case m w of (Ok x, w') \<Rightarrow> (Ok x, w') | (Err e, w') \<Rightarrow> (Err (f e), w')
    | (Abort a, w') \<Rightarrow> (Abort a, w'))"
  by (simp add: wrap_def effect_simps split: prod.splits outcome.splits)

lemma lift_result_simps [simp]:
  "lift_result (Inl e) = fail e" "lift_result (Inr x) = ok x"
  by (simp_all add: lift_result_def)

lemma call_ok [simp]: "call (ok x) k = k x"
  by (simp add: fun_eq_iff effect_simps)

lemma call_assoc: "call (call m k) l = call m (\<lambda>x. call (k x) l)"
  by (simp add: fun_eq_iff effect_simps split: prod.splits outcome.splits)

lemma call_OkE:
  assumes "call m k w = (Ok y, w'')"
  obtains x w' where "m w = (Ok x, w')" "k x w' = (Ok y, w'')"
  using assms by (auto simp: effect_simps split: prod.splits outcome.splits)

lemma wrap_Ok_iff [simp]: "wrap f m w = (Ok x, w') \<longleftrightarrow> m w = (Ok x, w')"
  by (auto simp: effect_simps split: prod.splits outcome.splits)

lemma ok_Ok_iff [simp]: "ok x w = (Ok y, w') \<longleftrightarrow> y = x \<and> w' = w"
  by (auto simp: ok_def)

lemma fail_not_Ok [simp]: "fail e w \<noteq> (Ok y, w')"
  by (simp add: fail_def)

lemma for_each_append:
  "for_each f (xs @ ys) = call (for_each f xs) (\<lambda>_. for_each f ys)"
  by (induction xs) (auto simp: call_assoc)

lemma for_each_filter:
  "for_each (\<lambda>x. if P x then ok () else f x) xs = for_each f (filter (\<lambda>x. \<not> P x) xs)"
  by (induction xs) auto

section \<open>Relations that every step keeps\<close>

text \<open>
  A reflexive and transitive relation between states that the primitive operations are in
  holds between the first and the last state of every composed operation, whatever its outcome
  and wherever the process is killed. The locale proves this once for all such relations.
\<close>

definition steps_in :: "('x world \<Rightarrow> 'x world \<Rightarrow> bool) \<Rightarrow> ('x, 'a) io \<Rightarrow> bool" where
  "steps_in R m \<longleftrightarrow> (\<forall>w. R w (snd (m w)))"

lemma steps_inI: "(\<And>w. R w (snd (m w))) \<Longrightarrow> steps_in R m"
  by (simp add: steps_in_def)

lemma steps_inD: "steps_in R m \<Longrightarrow> m w = (r, w') \<Longrightarrow> R w w'"
  by (metis snd_conv steps_in_def)

lemma steps_in_mono: "steps_in R m \<Longrightarrow> (\<And>v w. R v w \<Longrightarrow> S v w) \<Longrightarrow> steps_in S m"
  by (simp add: steps_in_def)

locale step_relation =
  fixes R :: "'x world \<Rightarrow> 'x world \<Rightarrow> bool"
  assumes step_refl: "R w w"
    and step_trans: "R u v \<Longrightarrow> R v w \<Longrightarrow> R u w"
begin

lemma in_ok: "steps_in R (ok x)"
  by (simp add: steps_in_def ok_def step_refl)

lemma in_fail: "steps_in R (fail e)"
  by (simp add: steps_in_def fail_def step_refl)

lemma in_abort: "steps_in R (abort a)"
  by (simp add: steps_in_def abort_def step_refl)

lemma in_call:
  assumes "steps_in R m" "\<And>x. steps_in R (k x)"
  shows "steps_in R (call m k)"
proof (rule steps_inI)
  fix w
  obtain r w' where m: "m w = (r, w')" by fastforce
  then have "R w w'" using assms(1) by (rule steps_inD [rotated])
  moreover have "R w' (snd (k x w'))" for x
    using assms(2) by (simp add: steps_in_def)
  ultimately show "R w (snd (call m k w))"
    by (cases r) (auto simp: call_def m intro: step_trans)
qed

lemma in_on_err:
  assumes "steps_in R m" "\<And>e. steps_in R (h e)"
  shows "steps_in R (on_err m h)"
proof (rule steps_inI)
  fix w
  obtain r w' where m: "m w = (r, w')" by fastforce
  then have "R w w'" using assms(1) by (rule steps_inD [rotated])
  moreover have "R w' (snd (h e w'))" for e
    using assms(2) by (simp add: steps_in_def)
  ultimately show "R w (snd (on_err m h w))"
    by (cases r) (auto simp: on_err_def m intro: step_trans)
qed

lemma in_wrap: "steps_in R m \<Longrightarrow> steps_in R (wrap f m)"
  unfolding wrap_def by (intro in_on_err in_fail)

lemma in_lift_result: "steps_in R (lift_result r)"
  by (cases r) (auto intro: in_ok in_fail)

lemma in_for_each: "(\<And>x. x \<in> set xs \<Longrightarrow> steps_in R (f x)) \<Longrightarrow> steps_in R (for_each f xs)"
  by (induction xs) (auto intro: in_ok in_call)

lemmas in_rules = in_ok in_fail in_abort in_call in_on_err in_wrap in_lift_result in_for_each

end

text \<open>
  \<open>touches P\<close>: the environment and the mutex stay, time goes on, and only paths in
  \<open>P\<close> can change. \<open>keeps_ext\<close>: no third-party code runs.
\<close>

definition touches :: "(path \<Rightarrow> bool) \<Rightarrow> 'x world \<Rightarrow> 'x world \<Rightarrow> bool" where
  "touches P w w' \<longleftrightarrow> env w' = env w \<and> mutex w' = mutex w \<and> ticks w \<le> ticks w'
    \<and> (\<forall>p. \<not> P p \<longrightarrow> fmlookup (files w') p = fmlookup (files w) p)"

definition keeps_ext :: "'x world \<Rightarrow> 'x world \<Rightarrow> bool" where
  "keeps_ext w w' \<longleftrightarrow> ext w' = ext w"

interpretation touch: step_relation "touches P" for P
  by unfold_locales (auto simp: touches_def)

interpretation kext: step_relation keeps_ext
  by unfold_locales (auto simp: keeps_ext_def)

lemma touches_mono: "touches P w w' \<Longrightarrow> (\<And>p. P p \<Longrightarrow> Q p) \<Longrightarrow> touches Q w w'"
  by (auto simp: touches_def)

lemma steps_touches_mono:
  "steps_in (touches P) m \<Longrightarrow> (\<And>p. P p \<Longrightarrow> Q p) \<Longrightarrow> steps_in (touches Q) m"
  by (erule steps_in_mono) (erule touches_mono)

lemma touches_lookup: "touches P w w' \<Longrightarrow> \<not> P p \<Longrightarrow> fmlookup (files w') p = fmlookup (files w) p"
  by (simp add: touches_def)

lemma touches_env: "touches P w w' \<Longrightarrow> env w' = env w \<and> mutex w' = mutex w \<and> ticks w \<le> ticks w'"
  by (simp add: touches_def)

lemma touches_nothing: "touches (\<lambda>_. False) w w' \<Longrightarrow> files w' = files w"
  by (simp add: touches_def fmap_ext)

text \<open>A calm world: no system call from now on is disturbed.\<close>

definition calm :: "'x world \<Rightarrow> bool" where
  "calm w \<longleftrightarrow> (\<forall>n. ticks w \<le> n \<longrightarrow> fault_at (env w) n = None)"

lemma calm_now: "calm w \<Longrightarrow> fault_at (env w) (ticks w) = None"
  by (simp add: calm_def)

lemma touches_calm: "touches P w w' \<Longrightarrow> calm w \<Longrightarrow> calm w'"
  by (auto simp: touches_def calm_def)

end
