(* ===== verification/Go_OS.thy ===== *)
theory Go_OS
  imports Go_Effects
begin

text \<open>
  The package \<open>os\<close> as the program uses it, over the files of the world: directories and
  plain files with an owner and a mode, named by the list of names from the root. Symbolic
  links, hard links and other processes are left out. Each system call is a tick of the
  environment's clock and can be disturbed there; a disturbed write leaves a part of its data, a
  disturbed removal leaves some of the entries.

  For every operation: what it does on each branch, and which paths it can touch whatever
  happens to it.
\<close>

unbundle bit_operations_syntax

section \<open>System calls\<close>

definition tick :: "'x world \<Rightarrow> 'x world" where
  "tick w = w\<lparr>ticks := Suc (ticks w)\<rparr>"

definition syscall :: "(errno \<Rightarrow> go_error) \<Rightarrow> ('x world \<Rightarrow> 'x world) \<Rightarrow> ('x, 'a) io \<Rightarrow> ('x, 'a) io" where
  "syscall err disturbed m = (\<lambda>w.
    (case fault_at (env w) (ticks w) of
       None \<Rightarrow> m (tick w)
     | Some f \<Rightarrow> ((if f = Kill then Abort Killed else Err (err (fault_errno f))), tick (disturbed w))))"

definition set_files :: "(path, node) fmap \<Rightarrow> 'x world \<Rightarrow> 'x world" where
  "set_files m w = w\<lparr>files := m\<rparr>"

text \<open>A call into third-party code: it changes its own state, and the process can be killed in it.\<close>

definition extern :: "('x \<Rightarrow> 'a \<times> 'x) \<Rightarrow> ('x, 'a) io" where
  "extern f = (\<lambda>w.
    (if fault_at (env w) (ticks w) = Some Kill then (Abort Killed, tick w)
     else (case f (ext w) of (r, x) \<Rightarrow> (Ok r, tick (w\<lparr>ext := x\<rparr>)))))"

text \<open>
  The order in which a \<open>range\<close> over a map of \<open>n\<close> entries visits them: some
  permutation, the environment's choice where that is one.
\<close>

definition range_perm :: "nat \<Rightarrow> ('x, nat list) io" where
  "range_perm n = (\<lambda>w.
    (let order = range_order (env w) (ticks w) n in
     (Ok (if sort order = [0..<n] then order else [0..<n]), tick w)))"

definition new_attrs :: "'x world \<Rightarrow> file_mode \<Rightarrow> attrs" where
  "new_attrs w perm = \<lparr>owner_uid = 0, owner_gid = 0, mode = perm AND NOT (umask (env w))\<rparr>"

fun node_attrs :: "node \<Rightarrow> attrs" where
  "node_attrs (Dir a) = a"
| "node_attrs (File a c) = a"

fun with_attrs :: "(attrs \<Rightarrow> attrs) \<Rightarrow> node \<Rightarrow> node" where
  "with_attrs f (Dir a) = Dir (f a)"
| "with_attrs f (File a c) = File (f a) c"

text \<open>The root is always a directory.\<close>

definition is_dir :: "(path, node) fmap \<Rightarrow> path \<Rightarrow> bool" where
  "is_dir m p \<longleftrightarrow> p = [] \<or> (case fmlookup m p of Some (Dir a) \<Rightarrow> True | _ \<Rightarrow> False)"

definition is_file :: "(path, node) fmap \<Rightarrow> path \<Rightarrow> bool" where
  "is_file m p \<longleftrightarrow> (case fmlookup m p of Some (File a c) \<Rightarrow> True | _ \<Rightarrow> False)"

definition file_content :: "(path, node) fmap \<Rightarrow> path \<Rightarrow> string option" where
  "file_content m p = (case fmlookup m p of Some (File a c) \<Rightarrow> Some c | _ \<Rightarrow> None)"

section \<open>The operations\<close>

text \<open>A path below a plain file counts as missing: \<open>ENOENT\<close> where the system says \<open>ENOTDIR\<close>.\<close>

definition os_ReadFile :: "string \<Rightarrow> ('x, string) io" where
  "os_ReadFile s = syscall (PathError ''open'' s) id (\<lambda>w.
    (case fmlookup (files w) (elems s) of
       None \<Rightarrow> ((if elems s = [] then Err (PathError ''read'' s EISDIR) else Err (PathError ''open'' s ENOENT)), w)
     | Some (Dir a) \<Rightarrow> (Err (PathError ''read'' s EISDIR), w)
     | Some (File a c) \<Rightarrow> (Ok c, w)))"

text \<open>\<open>os.Stat\<close>, of which the program asks only whether it is a directory.\<close>

definition os_Stat :: "string \<Rightarrow> ('x, bool) io" where
  "os_Stat s = syscall (PathError ''stat'' s) id (\<lambda>w.
    (if is_dir (files w) (elems s) then (Ok True, w)
     else if is_file (files w) (elems s) then (Ok False, w)
     else (Err (PathError ''stat'' s ENOENT), w)))"

definition os_mkdir :: "string \<Rightarrow> path \<Rightarrow> file_mode \<Rightarrow> ('x, unit) io" where
  "os_mkdir s p perm = syscall (PathError ''mkdir'' s) id (\<lambda>w.
    (if is_dir (files w) (butlast p)
     then (Ok (), set_files (fmupd p (Dir (new_attrs w perm)) (files w)) w)
     else (Err (PathError ''mkdir'' s ENOENT), w)))"

text \<open>
  \<open>os.MkdirAll\<close>: the names from the root down; a directory that exists is passed, a file
  in the way is an error, what is missing is made.
\<close>

fun mkdir_from :: "string \<Rightarrow> path \<Rightarrow> string list \<Rightarrow> file_mode \<Rightarrow> ('x, unit) io" where
  "mkdir_from s p [] perm = ok ()"
| "mkdir_from s p (c # cs) perm = (\<lambda>w.
    (if is_dir (files w) (p @ [c]) then mkdir_from s (p @ [c]) cs perm w
     else if is_file (files w) (p @ [c]) then (Err (PathError ''mkdir'' s ENOTDIR), w)
     else call (os_mkdir s (p @ [c]) perm) (\<lambda>_. mkdir_from s (p @ [c]) cs perm) w))"

definition os_MkdirAll :: "string \<Rightarrow> file_mode \<Rightarrow> ('x, unit) io" where
  "os_MkdirAll s perm = mkdir_from s [] (elems s) perm"

definition change_attrs :: "string \<Rightarrow> string \<Rightarrow> (attrs \<Rightarrow> attrs) \<Rightarrow> ('x, unit) io" where
  "change_attrs oper s f = syscall (PathError oper s) id (\<lambda>w.
    (case fmlookup (files w) (elems s) of
       None \<Rightarrow> (Err (PathError oper s ENOENT), w)
     | Some n \<Rightarrow> (Ok (), set_files (fmupd (elems s) (with_attrs f n) (files w)) w)))"

definition os_Chown :: "string \<Rightarrow> int \<Rightarrow> int \<Rightarrow> ('x, unit) io" where
  "os_Chown s u g = change_attrs ''chown'' s (\<lambda>a. a\<lparr>owner_uid := u, owner_gid := g\<rparr>)"

definition os_Chmod :: "string \<Rightarrow> file_mode \<Rightarrow> ('x, unit) io" where
  "os_Chmod s perm = change_attrs ''chmod'' s (\<lambda>a. a\<lparr>mode := perm\<rparr>)"

text \<open>Opening for writing: an existing file is cut to nothing and keeps its owner and mode.\<close>

definition open_trunc :: "string \<Rightarrow> file_mode \<Rightarrow> ('x, unit) io" where
  "open_trunc s perm = syscall (PathError ''open'' s) id (\<lambda>w.
    (if is_dir (files w) (elems s) then (Err (PathError ''open'' s EISDIR), w)
     else (case fmlookup (files w) (elems s) of
       Some n \<Rightarrow> (Ok (), set_files (fmupd (elems s) (File (node_attrs n) []) (files w)) w)
     | None \<Rightarrow>
        (if is_dir (files w) (butlast (elems s))
         then (Ok (), set_files (fmupd (elems s) (File (new_attrs w perm) []) (files w)) w)
         else (Err (PathError ''open'' s ENOENT), w)))))"

definition append_file :: "path \<Rightarrow> string \<Rightarrow> 'x world \<Rightarrow> 'x world" where
  "append_file p d w =
    (case fmlookup (files w) p of
       Some (File a c) \<Rightarrow> set_files (fmupd p (File a (c @ d)) (files w)) w
     | _ \<Rightarrow> w)"

text \<open>Writing to an open file; a disturbed write gets some of the bytes out.\<close>

definition file_write :: "string \<Rightarrow> string \<Rightarrow> ('x, unit) io" where
  "file_write s d = syscall (PathError ''write'' s)
    (\<lambda>w. append_file (elems s) (take (short_write (env w) (ticks w)) d) w)
    (\<lambda>w. (Ok (), append_file (elems s) d w))"

definition os_WriteFile :: "string \<Rightarrow> string \<Rightarrow> file_mode \<Rightarrow> ('x, unit) io" where
  "os_WriteFile s d perm = call (open_trunc s perm) (\<lambda>_. file_write s d)"

text \<open>
  \<open>os.RemoveAll\<close>: everything at the path and below; nothing there is no error. When it is
  disturbed it may have removed some entries, never one that still holds another.
\<close>

definition remove_part :: "path \<Rightarrow> (path \<Rightarrow> bool) \<Rightarrow> (path, node) fmap \<Rightarrow> (path, node) fmap" where
  "remove_part p keep m =
    fmfilter (\<lambda>q. prefix p q \<longrightarrow> (\<exists>r |\<in>| fmdom m. prefix q r \<and> keep r)) m"

definition os_RemoveAll :: "string \<Rightarrow> ('x, unit) io" where
  "os_RemoveAll s = syscall (PathError ''unlinkat'' s)
    (\<lambda>w. set_files (remove_part (elems s) (spared (env w) (ticks w)) (files w)) w)
    (\<lambda>w. (Ok (), set_files (fmfilter (\<lambda>q. \<not> prefix (elems s) q) (files w)) w))"

text \<open>
  \<open>os.CreateTemp\<close> with a pattern that ends in \<open>*\<close>: a new file, readable by its owner
  only, whose name ends in the environment's number. The number is the one the loop over
  candidate names ends with; if that name is taken as well, the call gives up.
\<close>

definition tmp_file_name :: "string \<Rightarrow> string \<Rightarrow> nat \<Rightarrow> string" where
  "tmp_file_name dir pre n =
    (if dir \<noteq> [] \<and> last dir = CHR ''/'' then dir @ pre @ Itoa n else dir @ ''/'' @ pre @ Itoa n)"

definition os_CreateTemp :: "string \<Rightarrow> string \<Rightarrow> ('x, string) io" where
  "os_CreateTemp dir pre = (\<lambda>w.
    (let s = tmp_file_name dir pre (tmp_number (env w) (ticks w)) in
     syscall (PathError ''open'' s) id (\<lambda>w.
       (if fmlookup (files w) (elems s) \<noteq> None then (Err (PathError ''open'' s EEXIST), w)
        else if is_dir (files w) (butlast (elems s))
        then (Ok s, set_files (fmupd (elems s) (File (new_attrs w 384) []) (files w)) w)
        else (Err (PathError ''open'' s ENOENT), w))) w))"

definition file_sync :: "string \<Rightarrow> ('x, unit) io" where
  "file_sync s = syscall (PathError ''sync'' s) id (ok ())"

definition file_close :: "string \<Rightarrow> ('x, unit) io" where
  "file_close s = syscall (PathError ''close'' s) id (ok ())"

text \<open>\<open>os.Rename\<close> of a plain file: one step, the target has the old or the new content.\<close>

definition os_Rename :: "string \<Rightarrow> string \<Rightarrow> ('x, unit) io" where
  "os_Rename s t = syscall (PathError ''rename'' s) id (\<lambda>w.
    (case fmlookup (files w) (elems s) of
       None \<Rightarrow> (Err (PathError ''rename'' s ENOENT), w)
     | Some n \<Rightarrow>
        (if is_dir (files w) (elems t) then (Err (PathError ''rename'' s EEXIST), w)
         else if \<not> is_dir (files w) (butlast (elems t)) then (Err (PathError ''rename'' s ENOENT), w)
         else (Ok (), set_files (fmupd (elems t) n (fmdrop (elems s) (files w))) w))))"

section \<open>Time and undisturbed calls\<close>

lemma tick_simps [simp]:
  "env (tick w) = env w" "ticks (tick w) = Suc (ticks w)" "files (tick w) = files w"
  "mutex (tick w) = mutex w" "ext (tick w) = ext w"
  by (simp_all add: tick_def)

lemma set_files_simps [simp]:
  "env (set_files m w) = env w" "ticks (set_files m w) = ticks w" "files (set_files m w) = m"
  "mutex (set_files m w) = mutex w" "ext (set_files m w) = ext w"
  by (simp_all add: set_files_def)

lemma append_file_simps [simp]:
  "env (append_file p d w) = env w" "ticks (append_file p d w) = ticks w"
  "mutex (append_file p d w) = mutex w" "ext (append_file p d w) = ext w"
  by (simp_all add: append_file_def split: option.splits node.splits)

lemma new_attrs_tick [simp]: "new_attrs (tick w) perm = new_attrs w perm"
  by (simp add: new_attrs_def)

lemma calm_tick [simp]: "calm w \<Longrightarrow> calm (tick w)"
  by (simp add: calm_def)

lemma calm_set_files [simp]: "calm (set_files m w) = calm w"
  by (simp add: calm_def)

lemma calm_ext [simp]: "calm (w\<lparr>ext := x\<rparr>) = calm w"
  by (simp add: calm_def)

lemma calm_append_file [simp]: "calm (append_file p d w) = calm w"
  by (simp add: calm_def)

lemma syscall_calm [simp]: "calm w \<Longrightarrow> syscall err d m w = m (tick w)"
  by (simp add: syscall_def calm_now)

lemma extern_calm [simp]:
  "calm w \<Longrightarrow> extern f w = (Ok (fst (f (ext w))), tick (w\<lparr>ext := snd (f (ext w))\<rparr>))"
  by (simp add: extern_def calm_now split: prod.splits)

lemma is_dir_Nil [simp]: "is_dir m []"
  by (simp add: is_dir_def)

lemma is_dir_iff: "is_dir m p \<longleftrightarrow> p = [] \<or> (\<exists>a. fmlookup m p = Some (Dir a))"
  by (auto simp: is_dir_def split: option.splits node.splits)

lemma is_file_iff: "is_file m p \<longleftrightarrow> (\<exists>a c. fmlookup m p = Some (File a c))"
  by (auto simp: is_file_def split: option.splits node.splits)

lemma file_content_iff: "file_content m p = Some c \<longleftrightarrow> (\<exists>a. fmlookup m p = Some (File a c))"
  by (auto simp: file_content_def split: option.splits node.splits)

lemma is_dir_fmupd_File:
  "q \<noteq> [] \<Longrightarrow> is_dir (fmupd q (File a c) m) p \<longleftrightarrow> p \<noteq> q \<and> is_dir m p"
  by (auto simp: is_dir_iff)

lemma is_dir_fmupd_Dir: "is_dir (fmupd q (Dir a) m) p \<longleftrightarrow> p = q \<or> is_dir m p"
  by (auto simp: is_dir_iff)

section \<open>Which paths an operation touches\<close>

lemma touches_syscall [effect_rules]:
  assumes "\<And>w. touches P w (d w)" "\<And>w. touches P w (snd (m w))"
  shows "steps_in (touches P) (syscall err d m)"
proof (rule steps_inI)
  fix w
  have tick: "touches P w (tick w)" for w :: "'a world"
    by (simp add: touches_def)
  have "touches P w (tick (d w))"
    by (rule touch.step_trans [OF assms(1) tick])
  moreover have "touches P w (snd (m (tick w)))"
    by (rule touch.step_trans [OF tick assms(2)])
  ultimately show "touches P w (snd (syscall err d m w))"
    by (simp add: syscall_def split: option.splits)
qed

lemma keeps_ext_syscall [effect_rules]:
  assumes "\<And>w. ext (d w) = ext w" "\<And>w. ext (snd (m w)) = ext w"
  shows "steps_in keeps_ext (syscall err d m)"
  using assms by (auto simp: steps_in_def keeps_ext_def syscall_def split: option.splits)

lemma touches_extern [effect_rules]: "steps_in (touches P) (extern f)"
  by (auto simp: steps_in_def touches_def extern_def split: prod.splits)

lemma touches_range_perm [effect_rules]: "steps_in (touches P) (range_perm n)"
  by (simp add: steps_in_def touches_def range_perm_def Let_def)

lemma keeps_ext_range_perm [effect_rules]: "steps_in keeps_ext (range_perm n)"
  by (simp add: steps_in_def keeps_ext_def range_perm_def Let_def)

lemma touches_same [simp]: "touches P w w"
  by (rule touch.step_refl)

lemma touches_set_files:
  "touches P w (set_files m w) \<longleftrightarrow> (\<forall>p. \<not> P p \<longrightarrow> fmlookup m p = fmlookup (files w) p)"
  by (simp add: touches_def)

lemma touches_append_file: "P p \<Longrightarrow> touches P w (append_file p d w)"
  by (auto simp: append_file_def touches_set_files split: option.splits node.splits)

lemma touches_os_ReadFile [effect_rules]: "steps_in (touches P) (os_ReadFile s)"
  unfolding os_ReadFile_def
  by (rule touches_syscall) (auto split: option.splits node.splits)

lemma touches_os_Stat [effect_rules]: "steps_in (touches P) (os_Stat s)"
  unfolding os_Stat_def by (rule touches_syscall) auto

lemma touches_os_mkdir [effect_rules]: "P p \<Longrightarrow> steps_in (touches P) (os_mkdir s p perm)"
  unfolding os_mkdir_def by (rule touches_syscall) (auto simp: touches_set_files)

lemma touches_mkdir_from:
  "steps_in (touches (\<lambda>q. q \<noteq> p \<and> prefix p q \<and> prefix q (p @ cs)))
    (mkdir_from s p cs perm :: ('x, unit) io)"
proof (induction cs arbitrary: p)
  case Nil
  show ?case by (simp add: touch.in_ok)
next
  case (Cons c cs)
  let ?P = "\<lambda>q. q \<noteq> p \<and> prefix p q \<and> prefix q (p @ c # cs)"
  have rest: "steps_in (touches ?P) (mkdir_from s (p @ [c]) cs perm :: ('x, unit) io)"
    using Cons.IH [of "p @ [c]"]
    by (rule steps_touches_mono) (auto dest: append_prefixD)
  moreover have "steps_in (touches ?P) (os_mkdir s (p @ [c]) perm :: ('x, unit) io)"
    by (rule touches_os_mkdir) simp
  ultimately have "steps_in (touches ?P) (call (os_mkdir s (p @ [c]) perm)
      (\<lambda>_. mkdir_from s (p @ [c]) cs perm) :: ('x, unit) io)"
    by (intro touch.in_call)
  with rest show ?case
    by (simp add: steps_in_def)
qed

lemma touches_os_MkdirAll [effect_rules]:
  "(\<And>q. q \<noteq> [] \<Longrightarrow> prefix q (elems s) \<Longrightarrow> P q) \<Longrightarrow> steps_in (touches P) (os_MkdirAll s perm)"
  unfolding os_MkdirAll_def
  by (rule steps_touches_mono [OF touches_mkdir_from]) auto

lemma touches_change_attrs [effect_rules]:
  "P (elems s) \<Longrightarrow> steps_in (touches P) (change_attrs oper s f)"
  unfolding change_attrs_def
  by (rule touches_syscall) (auto simp: touches_set_files split: option.splits)

lemma touches_os_WriteFile [effect_rules]:
  "P (elems s) \<Longrightarrow> steps_in (touches P) (os_WriteFile s d perm)"
  unfolding os_WriteFile_def open_trunc_def file_write_def
  by (intro touch.in_call touches_syscall)
    (auto simp: touches_set_files touches_append_file split: option.splits)

lemma touches_os_RemoveAll [effect_rules]:
  "(\<And>q. prefix (elems s) q \<Longrightarrow> P q) \<Longrightarrow> steps_in (touches P) (os_RemoveAll s)"
  unfolding os_RemoveAll_def
  by (rule touches_syscall) (auto simp: touches_set_files remove_part_def)

lemma touches_os_CreateTemp [effect_rules]:
  "(\<And>n. P (elems (tmp_file_name dir pre n))) \<Longrightarrow> steps_in (touches P) (os_CreateTemp dir pre)"
  unfolding os_CreateTemp_def Let_def
  by (rule steps_inI, rule steps_inD [OF touches_syscall prod.collapse [symmetric]])
    (auto simp: touches_set_files)

lemma touches_file_write [effect_rules]:
  "P (elems s) \<Longrightarrow> steps_in (touches P) (file_write s d)"
  unfolding file_write_def by (rule touches_syscall) (auto simp: touches_append_file)

lemma touches_file_sync [effect_rules]: "steps_in (touches P) (file_sync s)"
  unfolding file_sync_def by (rule touches_syscall) (auto simp: ok_def)

lemma touches_file_close [effect_rules]: "steps_in (touches P) (file_close s)"
  unfolding file_close_def by (rule touches_syscall) (auto simp: ok_def)

lemma touches_os_Rename [effect_rules]:
  "P (elems s) \<Longrightarrow> P (elems t) \<Longrightarrow> steps_in (touches P) (os_Rename s t)"
  unfolding os_Rename_def
  by (rule touches_syscall) (auto simp: touches_set_files split: option.splits)

section \<open>No system call runs third-party code\<close>

lemma keeps_ext_mkdir_from [effect_rules]: "steps_in keeps_ext (mkdir_from s p cs perm :: ('x, unit) io)"
proof (induction cs arbitrary: p)
  case (Cons c cs)
  have "steps_in keeps_ext (call (os_mkdir s (p @ [c]) perm)
      (\<lambda>_. mkdir_from s (p @ [c]) cs perm) :: ('x, unit) io)"
    unfolding os_mkdir_def by (intro kext.in_call keeps_ext_syscall Cons.IH) auto
  with Cons.IH show ?case
    by (simp add: steps_in_def keeps_ext_def)
qed (simp add: kext.in_ok)

lemma keeps_ext_os [effect_rules]:
  "steps_in keeps_ext (os_ReadFile s)" "steps_in keeps_ext (os_Stat s)"
  "steps_in keeps_ext (os_MkdirAll s perm)" "steps_in keeps_ext (change_attrs oper s f)"
  "steps_in keeps_ext (os_WriteFile s d perm)" "steps_in keeps_ext (os_RemoveAll s)"
  "steps_in keeps_ext (file_write s d)" "steps_in keeps_ext (file_sync s)"
  "steps_in keeps_ext (file_close s)" "steps_in keeps_ext (os_Rename s t)"
  unfolding os_ReadFile_def os_Stat_def os_MkdirAll_def change_attrs_def os_WriteFile_def
    open_trunc_def file_write_def os_RemoveAll_def file_sync_def file_close_def os_Rename_def
  by (intro kext.in_call keeps_ext_syscall keeps_ext_mkdir_from;
      auto simp: ok_def split: option.splits node.splits)+

lemma keeps_ext_os_CreateTemp [effect_rules]: "steps_in keeps_ext (os_CreateTemp dir pre)"
  unfolding os_CreateTemp_def Let_def
  by (rule steps_inI, rule steps_inD [OF keeps_ext_syscall prod.collapse [symmetric]]) auto


section \<open>What a successful call has done\<close>

lemma syscall_Ok: "syscall err d m w = (Ok x, w') \<Longrightarrow> m (tick w) = (Ok x, w')"
  by (auto simp: syscall_def split: option.splits if_splits)

lemma syscall_not_Killed_Err:
  "syscall err d m w = (Err e, w') \<Longrightarrow> m (tick w) = (Err e, w') \<or> w' = tick (d w)"
  by (auto simp: syscall_def split: option.splits if_splits)

lemma os_ReadFile_Ok:
  "os_ReadFile s w = (Ok c, w') \<Longrightarrow> file_content (files w) (elems s) = Some c \<and> w' = tick w"
  by (auto simp: os_ReadFile_def file_content_def dest!: syscall_Ok
      split: option.splits node.splits if_splits)

lemma os_ReadFile_calm:
  "calm w \<Longrightarrow> fmlookup (files w) (elems s) = Some (File a c) \<Longrightarrow> os_ReadFile s w = (Ok c, tick w)"
  by (simp add: os_ReadFile_def)

lemma os_ReadFile_missing:
  "calm w \<Longrightarrow> fmlookup (files w) (elems s) = None \<Longrightarrow> elems s \<noteq> []
    \<Longrightarrow> os_ReadFile s w = (Err (PathError ''open'' s ENOENT), tick w)"
  by (simp add: os_ReadFile_def)

text \<open>A read fails with \<open>ErrNotExist\<close> only when the file is not there.\<close>

lemma os_ReadFile_NotExist:
  assumes "os_ReadFile s w = (Err e, w')" "errors_Is e ErrNotExist"
  shows "fmlookup (files w) (elems s) = None"
proof -
  have "fault_errno f \<noteq> ENOENT" for f
    by (cases f) auto
  with assms show ?thesis
    by (auto simp: os_ReadFile_def syscall_def ErrNotExist_def
        split: option.splits node.splits if_splits)
qed

lemma os_ReadFile_files: "os_ReadFile s w = (r, w') \<Longrightarrow> files w' = files w"
  by (auto simp: os_ReadFile_def syscall_def split: option.splits node.splits if_splits)

lemma os_RemoveAll_Ok:
  "os_RemoveAll s w = (Ok u, w') \<Longrightarrow>
    fmlookup (files w') q = (if prefix (elems s) q then None else fmlookup (files w) q)"
  by (auto simp: os_RemoveAll_def dest!: syscall_Ok)

lemma os_RemoveAll_calm:
  "calm w \<Longrightarrow> os_RemoveAll s w
    = (Ok (), set_files (fmfilter (\<lambda>q. \<not> prefix (elems s) q) (files w)) (tick w))"
  by (simp add: os_RemoveAll_def)

lemma change_attrs_Ok:
  "change_attrs oper s f w = (Ok u, w') \<Longrightarrow>
    \<exists>n. fmlookup (files w) (elems s) = Some n
      \<and> w' = set_files (fmupd (elems s) (with_attrs f n) (files w)) (tick w)"
  by (auto simp: change_attrs_def dest!: syscall_Ok split: option.splits)

lemma change_attrs_calm:
  "calm w \<Longrightarrow> fmlookup (files w) (elems s) = Some n \<Longrightarrow> change_attrs oper s f w
    = (Ok (), set_files (fmupd (elems s) (with_attrs f n) (files w)) (tick w))"
  by (simp add: change_attrs_def)

lemma is_dir_with_attrs: "is_dir (fmupd p (with_attrs f n) m) q \<longleftrightarrow> is_dir m q"
  if "fmlookup m p = Some n"
  using that by (cases n) (auto simp: is_dir_iff)

lemma os_WriteFile_Ok:
  assumes "os_WriteFile s d perm w = (Ok u, w')"
  shows "\<exists>a. fmlookup (files w') (elems s) = Some (File a d)
    \<and> (case fmlookup (files w) (elems s) of Some n \<Rightarrow> a = node_attrs n | None \<Rightarrow> a = new_attrs w perm)"
proof -
  from assms obtain w1 where open_ok: "open_trunc s perm w = (Ok (), w1)"
    and w': "file_write s d w1 = (Ok u, w')"
    unfolding os_WriteFile_def by (auto elim: call_OkE)
  from open_ok have "\<exists>a. fmlookup (files w1) (elems s) = Some (File a [])
    \<and> (case fmlookup (files w) (elems s) of Some n \<Rightarrow> a = node_attrs n | None \<Rightarrow> a = new_attrs w perm)"
    by (auto simp: open_trunc_def dest!: syscall_Ok split: option.splits if_splits)
  moreover have "w' = append_file (elems s) d (tick w1)"
    using w' by (auto simp: file_write_def dest!: syscall_Ok)
  ultimately show ?thesis
    by (auto simp: append_file_def)
qed

lemma os_WriteFile_calm:
  assumes "calm w" "\<not> is_dir (files w) (elems s)" "is_dir (files w) (butlast (elems s))"
  shows "\<exists>w'. os_WriteFile s d perm w = (Ok (), w') \<and> calm w'"
proof -
  have "\<exists>w1. open_trunc s perm w = (Ok (), w1) \<and> calm w1"
    using assms by (auto simp: open_trunc_def split: option.splits)
  then obtain w1 where "open_trunc s perm w = (Ok (), w1)" "calm w1"
    by blast
  then show ?thesis
    by (simp add: os_WriteFile_def call_Ok file_write_def)
qed

section \<open>Making directories\<close>

text \<open>Making directories adds entries and changes none.\<close>

definition grows :: "'x world \<Rightarrow> 'x world \<Rightarrow> bool" where
  "grows w w' \<longleftrightarrow> (\<forall>p n. fmlookup (files w) p = Some n \<longrightarrow> fmlookup (files w') p = Some n)"

interpretation growing: step_relation grows
  by unfold_locales (auto simp: grows_def)

lemma grows_is_dir: "grows w w' \<Longrightarrow> is_dir (files w) p \<Longrightarrow> is_dir (files w') p"
  by (auto simp: grows_def is_dir_iff)

lemma grows_os_mkdir:
  "fmlookup (files w) p = None \<Longrightarrow> grows w (snd (os_mkdir s p perm w))"
  by (auto simp: grows_def os_mkdir_def syscall_def split: option.splits)

lemma not_dir_not_file: "\<not> is_dir m p \<Longrightarrow> \<not> is_file m p \<Longrightarrow> fmlookup m p = None"
  by (cases "fmlookup m p") (auto simp: is_dir_iff is_file_iff, metis node.exhaust)

lemma grows_mkdir_from:
  "steps_in grows (mkdir_from s p cs perm :: ('x, unit) io)"
proof (induction cs arbitrary: p)
  case (Cons c cs)
  show ?case
  proof (rule steps_inI)
    fix w :: "'x world"
    let ?p = "p @ [c]"
    show "grows w (snd (mkdir_from s p (c # cs) perm w))"
    proof (cases "is_dir (files w) ?p \<or> is_file (files w) ?p")
      case True
      with Cons.IH [of ?p] show ?thesis
        by (auto simp: steps_in_def growing.step_refl)
    next
      case False
      then have "grows w (snd (os_mkdir s ?p perm w))"
        by (intro grows_os_mkdir not_dir_not_file) auto
      moreover obtain r w1 where "os_mkdir s ?p perm w = (r, w1)"
        by fastforce
      ultimately show ?thesis
        using Cons.IH [of ?p] False
        by (cases r) (auto simp: call_def steps_in_def intro: growing.step_trans)
    qed
  qed
qed (simp add: growing.in_ok)

lemma grows_os_MkdirAll: "steps_in grows (os_MkdirAll s perm)"
  unfolding os_MkdirAll_def by (rule grows_mkdir_from)

lemma os_mkdir_Ok: "os_mkdir s p perm w = (Ok u, w') \<Longrightarrow> is_dir (files w') p"
  by (auto simp: os_mkdir_def is_dir_iff dest!: syscall_Ok split: if_splits)

lemma mkdir_from_Ok:
  assumes "mkdir_from s p cs perm w = (Ok u, w')" "prefix q (p @ cs)" "length p < length q"
  shows "is_dir (files w') q"
  using assms
proof (induction cs arbitrary: p w)
  case Nil
  then show ?case by (auto dest: prefix_length_le)
next
  case (Cons c cs)
  let ?p = "p @ [c]"
  have "\<exists>w1. mkdir_from s ?p cs perm w1 = (Ok u, w') \<and> is_dir (files w1) ?p"
    using Cons.prems(1) by (auto split: if_splits elim!: call_OkE dest: os_mkdir_Ok)
  then obtain w1 where w1: "mkdir_from s ?p cs perm w1 = (Ok u, w')" "is_dir (files w1) ?p"
    by blast
  show ?case
  proof (cases "length ?p < length q")
    case True
    show ?thesis by (rule Cons.IH [OF w1(1)]) (use Cons.prems True in auto)
  next
    case False
    with Cons.prems(2,3) have "q = ?p"
      by (auto simp: prefix_def append_eq_append_conv2 Cons_eq_append_conv)
    moreover have "grows w1 w'"
      using grows_mkdir_from w1(1) by (rule steps_inD)
    ultimately show ?thesis
      using w1(2) by (auto intro: grows_is_dir)
  qed
qed

lemma os_MkdirAll_Ok:
  assumes "os_MkdirAll s perm w = (Ok u, w')" "prefix q (elems s)"
  shows "is_dir (files w') q"
  using assms mkdir_from_Ok [of s "[]" "elems s" perm w u w' q]
  by (cases q) (auto simp: os_MkdirAll_def)

text \<open>Nothing but directories on the way: then the directories are made, in a calm world.\<close>

lemma mkdir_from_calm:
  assumes "calm w" "is_dir (files w) p"
    and "\<And>q. prefix q (p @ cs) \<Longrightarrow> \<not> is_file (files w) q"
  shows "\<exists>w'. mkdir_from s p cs perm w = (Ok (), w') \<and> calm w'"
  using assms
proof (induction cs arbitrary: p w)
  case Nil
  then show ?case by simp
next
  case (Cons c cs)
  let ?p = "p @ [c]"
  have no_file: "\<not> is_file (files w) ?p"
    by (rule Cons.prems(3)) simp
  show ?case
  proof (cases "is_dir (files w) ?p")
    case True
    have "\<exists>w'. mkdir_from s ?p cs perm w = (Ok (), w') \<and> calm w'"
      by (rule Cons.IH) (use Cons.prems True in auto)
    with True show ?thesis by simp
  next
    case False
    let ?w = "set_files (fmupd ?p (Dir (new_attrs w perm)) (files w)) (tick w)"
    have mk: "os_mkdir s ?p perm w = (Ok (), ?w)"
      using Cons.prems by (simp add: os_mkdir_def)
    have "\<exists>w'. mkdir_from s ?p cs perm ?w = (Ok (), w') \<and> calm w'"
      by (rule Cons.IH) (use Cons.prems in \<open>auto simp: is_dir_iff is_file_iff\<close>)
    with False no_file mk show ?thesis by (simp add: call_Ok)
  qed
qed

lemma os_MkdirAll_calm:
  assumes "calm w" "\<And>q. prefix q (elems s) \<Longrightarrow> \<not> is_file (files w) q"
  shows "\<exists>w'. os_MkdirAll s perm w = (Ok (), w') \<and> calm w'"
  unfolding os_MkdirAll_def using assms by (intro mkdir_from_calm) auto


section \<open>A world for the examples\<close>

definition quiet_env :: sysenv where
  "quiet_env = \<lparr>fault_at = (\<lambda>_. None), short_write = (\<lambda>_. 0), spared = (\<lambda>_ _. False),
    tmp_number = (\<lambda>n. n), range_order = (\<lambda>_ n. [0..<n]), getenv = (\<lambda>_. []), umask = 18\<rparr>"

definition fresh_world :: "'x \<Rightarrow> 'x world" where
  "fresh_world x = \<lparr>env = quiet_env, ticks = 0, files = fmempty, mutex = False, ext = x\<rparr>"

definition root_attrs :: attrs where
  "root_attrs = \<lparr>owner_uid = 0, owner_gid = 0, mode = 493\<rparr>"

text \<open>A world in which the given directories exist.\<close>

definition world_with_dirs :: "path list \<Rightarrow> 'x \<Rightarrow> 'x world" where
  "world_with_dirs ds x = (fresh_world x)\<lparr>files := fmap_of_list (map (\<lambda>d. (d, Dir root_attrs)) ds)\<rparr>"

lemma fresh_world_simps [simp]:
  "env (fresh_world x) = quiet_env" "ticks (fresh_world x) = 0" "files (fresh_world x) = fmempty"
  "mutex (fresh_world x) = False" "ext (fresh_world x) = x"
  by (simp_all add: fresh_world_def)

lemma world_with_dirs_simps [simp]:
  "env (world_with_dirs ds x) = quiet_env" "ticks (world_with_dirs ds x) = 0"
  "files (world_with_dirs ds x) = fmap_of_list (map (\<lambda>d. (d, Dir root_attrs)) ds)"
  "mutex (world_with_dirs ds x) = False" "ext (world_with_dirs ds x) = x"
  by (simp_all add: world_with_dirs_def)

lemma calm_fresh_world [simp]: "calm (fresh_world x)"
  by (simp add: calm_def quiet_env_def)

lemma calm_world_with_dirs [simp]: "calm (world_with_dirs ds x)"
  by (simp add: calm_def quiet_env_def)

end
