(* ===== verification/Checkpoint_API.thy ===== *)
theory Checkpoint_API
  imports Go_Effects
begin

text \<open>
  The checkpoint types (\<open>internal/api/checkpoint\<close>): the internal type the driver
  programs against, the version \<open>v1\<close> that is written to disk, the generated conversions
  between the two, and the decoder and encoder that \<open>checkpointSerializer\<close> builds from
  them. A nil slice or map and an empty one are one value here, as they are in the JSON, where
  every field is marked \<open>omitempty\<close>.
\<close>

section \<open>Types\<close>

type_synonym UID = string

record TypeMeta =
  Kind :: string
  APIVersion :: string

record PreparedClaim =
  UID :: UID
  Name :: string
  Devices :: "string list"
  DeviceRequests :: "(string, string) fmap"

record Checkpoint =
  TypeMeta :: TypeMeta
  PreparedClaims :: "PreparedClaim list"

record v1_PreparedClaim =
  v1_UID :: UID
  v1_Name :: string
  v1_Devices :: "string list"
  v1_DeviceRequests :: "(string, string) fmap"

record v1_Checkpoint =
  v1_TypeMeta :: TypeMeta
  v1_PreparedClaims :: "v1_PreparedClaim list"

text \<open>Go's zero values: \<open>new(checkpointapi.Checkpoint)\<close> and its counterpart in v1.\<close>

definition zero_TypeMeta :: TypeMeta where
  "zero_TypeMeta = \<lparr>Kind = [], APIVersion = []\<rparr>"

definition new_PreparedClaim :: PreparedClaim where
  "new_PreparedClaim = \<lparr>UID = [], Name = [], Devices = [], DeviceRequests = fmempty\<rparr>"

definition new_Checkpoint :: Checkpoint where
  "new_Checkpoint = \<lparr>TypeMeta = zero_TypeMeta, PreparedClaims = []\<rparr>"

definition new_v1_PreparedClaim :: v1_PreparedClaim where
  "new_v1_PreparedClaim = \<lparr>v1_UID = [], v1_Name = [], v1_Devices = [], v1_DeviceRequests = fmempty\<rparr>"

definition new_v1_Checkpoint :: v1_Checkpoint where
  "new_v1_Checkpoint = \<lparr>v1_TypeMeta = zero_TypeMeta, v1_PreparedClaims = []\<rparr>"

section \<open>Conversions\<close>

text \<open>
  The generated code converts a claim field by field, and a whole list by reading its memory
  at the other type (\<open>unsafe.Pointer\<close>), which keeps every field, since the two structs
  have the same layout. Neither conversion copies the type metadata.
\<close>

definition autoConvert_v1_PreparedClaim_To_checkpoint_PreparedClaim ::
  "v1_PreparedClaim \<Rightarrow> PreparedClaim \<Rightarrow> PreparedClaim" where
  "autoConvert_v1_PreparedClaim_To_checkpoint_PreparedClaim src dst =
    dst\<lparr>UID := v1_UID src, Name := v1_Name src, Devices := v1_Devices src,
      DeviceRequests := v1_DeviceRequests src\<rparr>"

definition autoConvert_checkpoint_PreparedClaim_To_v1_PreparedClaim ::
  "PreparedClaim \<Rightarrow> v1_PreparedClaim \<Rightarrow> v1_PreparedClaim" where
  "autoConvert_checkpoint_PreparedClaim_To_v1_PreparedClaim src dst =
    dst\<lparr>v1_UID := UID src, v1_Name := Name src, v1_Devices := Devices src,
      v1_DeviceRequests := DeviceRequests src\<rparr>"

definition cast_v1_PreparedClaim :: "v1_PreparedClaim \<Rightarrow> PreparedClaim" where
  "cast_v1_PreparedClaim p =
    \<lparr>UID = v1_UID p, Name = v1_Name p, Devices = v1_Devices p, DeviceRequests = v1_DeviceRequests p\<rparr>"

definition cast_PreparedClaim :: "PreparedClaim \<Rightarrow> v1_PreparedClaim" where
  "cast_PreparedClaim p =
    \<lparr>v1_UID = UID p, v1_Name = Name p, v1_Devices = Devices p, v1_DeviceRequests = DeviceRequests p\<rparr>"

definition Convert_v1_Checkpoint_To_checkpoint_Checkpoint ::
  "v1_Checkpoint \<Rightarrow> Checkpoint \<Rightarrow> Checkpoint" where
  "Convert_v1_Checkpoint_To_checkpoint_Checkpoint src dst =
    dst\<lparr>PreparedClaims := map cast_v1_PreparedClaim (v1_PreparedClaims src)\<rparr>"

definition Convert_checkpoint_Checkpoint_To_v1_Checkpoint ::
  "Checkpoint \<Rightarrow> v1_Checkpoint \<Rightarrow> v1_Checkpoint" where
  "Convert_checkpoint_Checkpoint_To_v1_Checkpoint src dst =
    dst\<lparr>v1_PreparedClaims := map cast_PreparedClaim (PreparedClaims src)\<rparr>"

lemma cast_casts [simp]:
  "cast_v1_PreparedClaim (cast_PreparedClaim p) = p"
  "cast_PreparedClaim (cast_v1_PreparedClaim q) = q"
  by (simp_all add: cast_v1_PreparedClaim_def cast_PreparedClaim_def)

lemma cast_compositions [simp]:
  "cast_v1_PreparedClaim \<circ> cast_PreparedClaim = id"
  "cast_PreparedClaim \<circ> cast_v1_PreparedClaim = id"
  by (simp_all add: fun_eq_iff)

text \<open>The cast of a list agrees with the conversion of its claims one by one.\<close>

lemma cast_is_conversion:
  "cast_v1_PreparedClaim p = autoConvert_v1_PreparedClaim_To_checkpoint_PreparedClaim p out"
  "cast_PreparedClaim q = autoConvert_checkpoint_PreparedClaim_To_v1_PreparedClaim q out'"
  by (simp_all add: cast_v1_PreparedClaim_def cast_PreparedClaim_def
      autoConvert_v1_PreparedClaim_To_checkpoint_PreparedClaim_def
      autoConvert_checkpoint_PreparedClaim_To_v1_PreparedClaim_def)

section \<open>The serializer\<close>

text \<open>
  The JSON serializer and the codec factory are third-party code: \<open>codec\<close> is what they do
  with the registered v1 type. \<open>checkpointSerializer\<close> combines them with the conversions:
  the encoder converts to v1 and serializes, the decoder reads v1 and converts into the
  object it is given.
\<close>

record codec =
  serialize :: "v1_Checkpoint \<Rightarrow> go_error + string"
  deserialize :: "string \<Rightarrow> go_error + v1_Checkpoint"

type_synonym decoder = "string \<Rightarrow> Checkpoint \<Rightarrow> go_error + Checkpoint"
type_synonym encoder = "Checkpoint \<Rightarrow> go_error + string"

definition checkpointSerializer :: "codec \<Rightarrow> decoder \<times> encoder" where
  "checkpointSerializer c =
    ((\<lambda>data into. case deserialize c data of
        Inl e \<Rightarrow> Inl e
      | Inr v \<Rightarrow> Inr (Convert_v1_Checkpoint_To_checkpoint_Checkpoint v into)),
     (\<lambda>checkpoint. serialize c (Convert_checkpoint_Checkpoint_To_v1_Checkpoint checkpoint new_v1_Checkpoint)))"

text \<open>
  The documented behaviour of the JSON serializer on registered types: it serializes every
  object, and reading the text back gives the object's fields (the type metadata is set by the
  serializer, so it is left open). Strings are those that JSON keeps, which are valid UTF-8, as are
  the names and UIDs that the API server admits.
\<close>

definition codec_ok :: "codec \<Rightarrow> bool" where
  "codec_ok c \<longleftrightarrow> (\<forall>v. \<exists>s v'. serialize c v = Inr s \<and> deserialize c s = Inr v'
    \<and> v1_PreparedClaims v' = v1_PreparedClaims v)"

text \<open>What a pair of a decoder and an encoder must promise the driver.\<close>

definition faithful :: "decoder \<Rightarrow> encoder \<Rightarrow> bool" where
  "faithful dec enc \<longleftrightarrow> (\<forall>cp. \<exists>s. enc cp = Inr s
    \<and> (\<forall>into. dec s into = Inr (into\<lparr>PreparedClaims := PreparedClaims cp\<rparr>)))"

lemma checkpointSerializer_faithful:
  assumes "codec_ok c"
  shows "faithful (fst (checkpointSerializer c)) (snd (checkpointSerializer c))"
  unfolding faithful_def
proof (intro allI)
  fix cp
  let ?v = "Convert_checkpoint_Checkpoint_To_v1_Checkpoint cp new_v1_Checkpoint"
  from assms obtain s v' where sv: "serialize c ?v = Inr s" "deserialize c s = Inr v'"
    "v1_PreparedClaims v' = v1_PreparedClaims ?v"
    unfolding codec_ok_def by blast
  then have "snd (checkpointSerializer c) cp = Inr s"
    by (simp add: checkpointSerializer_def)
  moreover have "fst (checkpointSerializer c) s into = Inr (into\<lparr>PreparedClaims := PreparedClaims cp\<rparr>)" for into
    using sv by (simp add: checkpointSerializer_def Convert_v1_Checkpoint_To_checkpoint_Checkpoint_def
        Convert_checkpoint_Checkpoint_To_v1_Checkpoint_def)
  ultimately show "\<exists>s. snd (checkpointSerializer c) cp = Inr s
      \<and> (\<forall>into. fst (checkpointSerializer c) s into = Inr (into\<lparr>PreparedClaims := PreparedClaims cp\<rparr>))"
    by blast
qed

end
