(* ===== verification/Sample_Codec.thy ===== *)
theory Sample_Codec
  imports Checkpoint_API "HOL-Library.List_Lexorder" "HOL-Library.Char_ord"
begin

text \<open>
  A concrete serializer with the behaviour that the driver relies on, for the examples: the
  JSON serializer of the program is third-party code and a parameter of the model. Every byte
  is written in decimal and every list with a terminator after each element; the request map
  is written in the order of its keys, as the JSON of a Go map is.
\<close>

section \<open>Terminated lists\<close>

definition enc_term :: "char \<Rightarrow> ('a \<Rightarrow> string) \<Rightarrow> 'a list \<Rightarrow> string" where
  "enc_term c f xs = concat (map (\<lambda>x. f x @ [c]) xs)"

definition dec_term :: "char \<Rightarrow> (string \<Rightarrow> 'a) \<Rightarrow> string \<Rightarrow> 'a list" where
  "dec_term c g s = map g (butlast (Split c s))"

lemma Split_enc_term:
  "(\<And>x. x \<in> set xs \<Longrightarrow> c \<notin> set (f x)) \<Longrightarrow> Split c (enc_term c f xs) = map f xs @ [[]]"
  by (induction xs) (auto simp: enc_term_def Split_append_sep Split_none)

lemma dec_enc_term:
  "(\<And>x. x \<in> set xs \<Longrightarrow> c \<notin> set (f x) \<and> g (f x) = x) \<Longrightarrow> dec_term c g (enc_term c f xs) = xs"
  by (simp add: dec_term_def Split_enc_term butlast_append map_idI)

lemma enc_term_avoids:
  "x \<noteq> c \<Longrightarrow> (\<And>y. y \<in> set xs \<Longrightarrow> x \<notin> set (f y)) \<Longrightarrow> x \<notin> set (enc_term c f xs)"
  by (induction xs) (auto simp: enc_term_def)

section \<open>Strings, maps, claims\<close>

definition enc_str :: "string \<Rightarrow> string" where
  "enc_str = enc_term (CHR ''.'') (\<lambda>c. Itoa (byte c))"

definition dec_str :: "string \<Rightarrow> string" where
  "dec_str = dec_term (CHR ''.'') (\<lambda>d. char_of (Atoi d))"

lemma Itoa_avoids: "\<not> is_digit x \<Longrightarrow> x \<notin> set (Itoa n)"
  using Itoa_digits [of n] by (auto simp: list_all_iff)

lemma enc_str_avoids: "x \<noteq> CHR ''.'' \<Longrightarrow> \<not> is_digit x \<Longrightarrow> x \<notin> set (enc_str s)"
  unfolding enc_str_def by (intro enc_term_avoids Itoa_avoids) auto

lemma dec_enc_str [simp]: "dec_str (enc_str s) = s"
  unfolding dec_str_def enc_str_def
  by (intro dec_enc_term) (simp add: Itoa_avoids is_digit_def)

definition enc_pair :: "string \<times> string \<Rightarrow> string" where
  "enc_pair p = enc_term (CHR '':'') enc_str [fst p, snd p]"

definition dec_pair :: "string \<Rightarrow> string \<times> string" where
  "dec_pair s = (case dec_term (CHR '':'') dec_str s of [k, v] \<Rightarrow> (k, v) | _ \<Rightarrow> ([], []))"

lemma enc_pair_avoids:
  "x \<noteq> CHR ''.'' \<Longrightarrow> x \<noteq> CHR '':'' \<Longrightarrow> \<not> is_digit x \<Longrightarrow> x \<notin> set (enc_pair p)"
  unfolding enc_pair_def by (intro enc_term_avoids enc_str_avoids) auto

lemma dec_enc_pair [simp]: "dec_pair (enc_pair p) = p"
proof -
  have "dec_term (CHR '':'') dec_str (enc_term (CHR '':'') enc_str [fst p, snd p]) = [fst p, snd p]"
    by (intro dec_enc_term) (simp add: enc_str_avoids is_digit_def)
  then show ?thesis by (simp add: dec_pair_def enc_pair_def)
qed

definition enc_claim :: "v1_PreparedClaim \<Rightarrow> string" where
  "enc_claim p = enc_term (CHR ''|'') id
    [enc_str (v1_UID p), enc_str (v1_Name p), enc_term (CHR '','') enc_str (v1_Devices p),
     enc_term (CHR '';'') enc_pair (sorted_list_of_fmap (v1_DeviceRequests p))]"

definition dec_claim :: "string \<Rightarrow> v1_PreparedClaim" where
  "dec_claim s = (case dec_term (CHR ''|'') id s of
    [u, n, d, r] \<Rightarrow> \<lparr>v1_UID = dec_str u, v1_Name = dec_str n,
      v1_Devices = dec_term (CHR '','') dec_str d,
      v1_DeviceRequests = fmap_of_list (dec_term (CHR '';'') dec_pair r)\<rparr>
  | _ \<Rightarrow> new_v1_PreparedClaim)"

lemma enc_claim_avoids: "CHR ''#'' \<notin> set (enc_claim p)"
proof -
  have "CHR ''#'' \<notin> set (enc_term (CHR '','') enc_str (v1_Devices p))"
    "CHR ''#'' \<notin> set (enc_term (CHR '';'') enc_pair (sorted_list_of_fmap (v1_DeviceRequests p)))"
    by (intro enc_term_avoids; simp add: enc_str_avoids enc_pair_avoids is_digit_def)+
  then show ?thesis
    unfolding enc_claim_def
    by (intro enc_term_avoids) (auto simp: enc_str_avoids is_digit_def)
qed

lemma fmap_of_sorted_list: "fmap_of_list (sorted_list_of_fmap m) = m"
  by (rule fmap_ext) (simp add: fmlookup_of_list)

lemma dec_enc_claim [simp]: "dec_claim (enc_claim p) = p"
proof -
  let ?d = "enc_term (CHR '','') enc_str (v1_Devices p)"
  let ?r = "enc_term (CHR '';'') enc_pair (sorted_list_of_fmap (v1_DeviceRequests p))"
  have "CHR ''|'' \<notin> set ?d" "CHR ''|'' \<notin> set ?r"
    by (intro enc_term_avoids enc_str_avoids enc_pair_avoids; simp add: is_digit_def)+
  then have "dec_term (CHR ''|'') id (enc_claim p) = [enc_str (v1_UID p), enc_str (v1_Name p), ?d, ?r]"
    unfolding enc_claim_def by (intro dec_enc_term) (auto simp: enc_str_avoids is_digit_def)
  moreover have "dec_term (CHR '','') dec_str ?d = v1_Devices p"
    by (intro dec_enc_term) (simp add: enc_str_avoids is_digit_def)
  moreover have "dec_term (CHR '';'') dec_pair ?r = sorted_list_of_fmap (v1_DeviceRequests p)"
    by (intro dec_enc_term) (simp add: enc_pair_avoids is_digit_def)
  ultimately show ?thesis
    by (simp add: dec_claim_def fmap_of_sorted_list)
qed

section \<open>The codec\<close>

definition sample_codec :: codec where
  "sample_codec =
    \<lparr>serialize = (\<lambda>v. Inr (enc_term (CHR ''#'') enc_claim (v1_PreparedClaims v))),
     deserialize = (\<lambda>s. Inr \<lparr>v1_TypeMeta = zero_TypeMeta,
       v1_PreparedClaims = dec_term (CHR ''#'') dec_claim s\<rparr>)\<rparr>"

lemma sample_codec_ok: "codec_ok sample_codec"
proof -
  have "dec_term (CHR ''#'') dec_claim (enc_term (CHR ''#'') enc_claim ps) = ps" for ps
    by (intro dec_enc_term) (simp add: enc_claim_avoids)
  then show ?thesis
    by (simp add: codec_ok_def sample_codec_def)
qed

end
