(* ===== verification/Claim_Names.thy ===== *)
theory Claim_Names
  imports Go_Paths
begin

text \<open>
  The migration-stable name of a ResourceClaim: \<open>extractStableClaimName\<close> and
  \<open>isAlphanumeric\<close>, which the source holds twice, in \<open>state.go\<close> for the
  directories on the host and in \<open>network.go\<close> for the mounts in the containers. The
  theorems say which names it maps to the VM's and the template's name, when the result is
  stable under migration and when it is not, that both copies are one reference without the
  loop, and that a plain claim
  name keeps a plain stable name (so that its directory stays below the base directory).
\<close>

section \<open>The copy in state.go\<close>

definition rune_alnum :: "nat \<Rightarrow> bool" where
  "rune_alnum c \<longleftrightarrow> 97 \<le> c \<and> c \<le> 122 \<or> 65 \<le> c \<and> c \<le> 90 \<or> 48 \<le> c \<and> c \<le> 57"

definition isAlphanumeric :: "string \<Rightarrow> bool" where
  "isAlphanumeric s = list_all rune_alnum (runes s)"

definition virtLauncherPrefix :: string where
  "virtLauncherPrefix = ''virt-launcher-''"

text \<open>
  The loop that looks for the pod hash: \<open>i\<close> is the index of the current part, \<open>n\<close>
  the number of parts. \<open>None\<close> is the source's index \<open>-1\<close>.
\<close>

fun find_pod_hash :: "nat \<Rightarrow> nat \<Rightarrow> string list \<Rightarrow> nat option" where
  "find_pod_hash i n [] = None"
| "find_pod_hash i n (part # parts) =
    (if length part = 5 \<and> isAlphanumeric part
     then (if i + 1 < n then Some i else find_pod_hash (i + 1) n parts)
     else find_pod_hash (i + 1) n parts)"

definition extractStableClaimName :: "string \<Rightarrow> string" where
  "extractStableClaimName fullClaimName =
    (if \<not> HasPrefix fullClaimName virtLauncherPrefix then fullClaimName
     else (let withoutPrefix = TrimPrefix fullClaimName virtLauncherPrefix;
               parts = Split (CHR ''-'') withoutPrefix in
       if length parts < 4 then fullClaimName
       else (let withoutClaimHash = take (length parts - 1) parts in
         (case find_pod_hash 0 (length withoutClaimHash) withoutClaimHash of
            None \<Rightarrow> fullClaimName
          | Some podHashIdx \<Rightarrow>
              (let vmiNameParts = take podHashIdx withoutClaimHash;
                   templateNameParts = drop (podHashIdx + 1) withoutClaimHash;
                   vmiName = Join vmiNameParts ''-'';
                   templateName = Join templateNameParts ''-'' in
               vmiName @ ''-'' @ templateName)))))"

section \<open>The copy in network.go\<close>

definition network_isAlphanumeric :: "string \<Rightarrow> bool" where
  "network_isAlphanumeric s = list_all rune_alnum (runes s)"

fun network_find_pod_hash :: "nat \<Rightarrow> nat \<Rightarrow> string list \<Rightarrow> nat option" where
  "network_find_pod_hash i n [] = None"
| "network_find_pod_hash i n (part # parts) =
    (if length part = 5 \<and> network_isAlphanumeric part
     then (if i + 1 < n then Some i else network_find_pod_hash (i + 1) n parts)
     else network_find_pod_hash (i + 1) n parts)"

definition network_extractStableClaimName :: "string \<Rightarrow> string" where
  "network_extractStableClaimName fullClaimName =
    (if \<not> HasPrefix fullClaimName virtLauncherPrefix then fullClaimName
     else (let withoutPrefix = TrimPrefix fullClaimName virtLauncherPrefix;
               parts = Split (CHR ''-'') withoutPrefix in
       if length parts < 4 then fullClaimName
       else (let withoutClaimHash = take (length parts - 1) parts in
         (case network_find_pod_hash 0 (length withoutClaimHash) withoutClaimHash of
            None \<Rightarrow> fullClaimName
          | Some podHashIdx \<Rightarrow>
              (let vmiName = Join (take podHashIdx withoutClaimHash) ''-'';
                   templateName = Join (drop (podHashIdx + 1) withoutClaimHash) ''-'' in
               vmiName @ ''-'' @ templateName)))))"

section \<open>The pod hash\<close>

text \<open>What the loop takes for a pod hash: five ASCII letters or digits.\<close>

definition hash_like :: "string \<Rightarrow> bool" where
  "hash_like p \<longleftrightarrow> length p = 5 \<and> list_all is_alnum p"

lemma isAlphanumeric_iff: "isAlphanumeric s \<longleftrightarrow> list_all is_alnum s"
proof -
  have "list_all rune_alnum (runes s) \<longleftrightarrow> list_all (\<lambda>c. rune_alnum (byte c)) s"
    by (rule list_all_runes_ascii) (auto simp: rune_alnum_def)
  also have "(\<lambda>c. rune_alnum (byte c)) = is_alnum"
    by (auto simp: rune_alnum_def byte_class_defs)
  finally show ?thesis by (simp add: isAlphanumeric_def)
qed

lemma hash_like_iff: "hash_like p \<longleftrightarrow> length p = 5 \<and> isAlphanumeric p"
  by (simp add: hash_like_def isAlphanumeric_iff)

lemma hash_like_no_dash: "hash_like p \<Longrightarrow> CHR ''-'' \<notin> set p"
  by (auto simp: hash_like_def list_all_iff byte_class_defs)

lemma network_find_pod_hash_eq: "network_find_pod_hash i n ps = find_pod_hash i n ps"
  by (induction i n ps rule: find_pod_hash.induct)
    (simp_all add: network_isAlphanumeric_def isAlphanumeric_def)

text \<open>The loop finds the first part that looks like a hash, unless it is the last part.\<close>

lemma find_pod_hash_first:
  assumes "\<And>v. v \<in> set V \<Longrightarrow> \<not> hash_like v" "hash_like h" "T \<noteq> []"
  shows "find_pod_hash i (i + length (V @ h # T)) (V @ h # T) = Some (i + length V)"
  using assms
proof (induction V arbitrary: i)
  case Nil
  then show ?case by (simp add: hash_like_iff)
next
  case (Cons v V)
  then have "find_pod_hash (Suc i) (Suc i + length (V @ h # T)) (V @ h # T) = Some (Suc i + length V)"
    by (intro Cons.IH) auto
  moreover have "\<not> (length v = 5 \<and> isAlphanumeric v)"
    using Cons.prems by (auto simp: hash_like_iff)
  ultimately show ?case by simp
qed

lemma find_pod_hash_None:
  assumes "\<And>p. p \<in> set (butlast ps) \<Longrightarrow> \<not> hash_like p"
  shows "find_pod_hash i (i + length ps) ps = None"
  using assms
proof (induction ps arbitrary: i)
  case (Cons p ps)
  have "find_pod_hash (Suc i) (Suc i + length ps) ps = None"
    using Cons.prems by (intro Cons.IH) (cases "ps = []", auto)
  moreover have "ps = [] \<or> \<not> hash_like p"
    using Cons.prems [of p] by auto
  ultimately show ?case
    by (auto simp: hash_like_iff)
qed simp

lemma find_pod_hash_Some:
  assumes "find_pod_hash 0 (length ps) ps = Some i"
  obtains V h T where "ps = V @ h # T" "length V = i" "hash_like h" "T \<noteq> []"
    "\<And>v. v \<in> set V \<Longrightarrow> \<not> hash_like v"
proof -
  have "\<exists>p \<in> set (butlast ps). hash_like p"
    using find_pod_hash_None [of ps 0] assms by auto
  then obtain V h T' where b: "butlast ps = V @ h # T'" "hash_like h" "\<And>v. v \<in> set V \<Longrightarrow> \<not> hash_like v"
    by (metis split_list_first_prop)
  then have "ps \<noteq> []" by auto
  then have ps: "ps = V @ h # (T' @ [last ps])"
    using b(1) by (metis append.assoc append_Cons append_butlast_last_id)
  then have "find_pod_hash 0 (0 + length (V @ h # (T' @ [last ps]))) (V @ h # (T' @ [last ps])) = Some (0 + length V)"
    by (intro find_pod_hash_first) (use b in auto)
  with assms ps have "length V = i" by simp
  with ps b that show thesis by blast
qed

section \<open>What the stable name is\<close>

text \<open>A claim of a KubeVirt launcher pod: \<open>virt-launcher-<vmi>-<pod hash>-<template>-<claim hash>\<close>.\<close>

definition virt_launcher_claim :: "string list \<Rightarrow> string \<Rightarrow> string list \<Rightarrow> string \<Rightarrow> string" where
  "virt_launcher_claim vmi pod template claim =
    virtLauncherPrefix @ Join (vmi @ [pod] @ template @ [claim]) ''-''"

definition no_dash :: "string \<Rightarrow> bool" where
  "no_dash p \<longleftrightarrow> CHR ''-'' \<notin> set p"

lemma Split_virt_launcher_claim:
  assumes "list_all no_dash vmi" "no_dash pod" "list_all no_dash template" "no_dash claim"
  shows "Split (CHR ''-'') (TrimPrefix (virt_launcher_claim vmi pod template claim) virtLauncherPrefix)
    = vmi @ [pod] @ template @ [claim]"
proof -
  have "Split (CHR ''-'') (Join (vmi @ [pod] @ template @ [claim]) [CHR ''-'']) = vmi @ [pod] @ template @ [claim]"
    by (rule Split_Join) (use assms in \<open>auto simp: list_all_iff no_dash_def\<close>)
  then show ?thesis by (simp add: virt_launcher_claim_def)
qed

lemma extract_first_hash:
  assumes "list_all no_dash vmi" "hash_like pod" "list_all no_dash template" "no_dash claim"
    and "list_all (\<lambda>v. \<not> hash_like v) vmi" "template \<noteq> []" "2 \<le> length vmi + length template"
  shows "extractStableClaimName (virt_launcher_claim vmi pod template claim)
    = Join vmi ''-'' @ ''-'' @ Join template ''-''"
proof -
  let ?name = "virt_launcher_claim vmi pod template claim"
  let ?parts = "vmi @ [pod] @ template @ [claim]"
  let ?front = "vmi @ pod # template"
  have parts: "Split (CHR ''-'') (TrimPrefix ?name virtLauncherPrefix) = ?parts"
    by (rule Split_virt_launcher_claim) (use assms in \<open>auto simp: no_dash_def dest: hash_like_no_dash\<close>)
  have pre: "HasPrefix ?name virtLauncherPrefix"
    by (simp add: virt_launcher_claim_def)
  have front: "take (length ?parts - 1) ?parts = ?front"
    by simp
  have "find_pod_hash 0 (0 + length ?front) ?front = Some (0 + length vmi)"
    by (rule find_pod_hash_first) (use assms in \<open>auto simp: list_all_iff\<close>)
  then have hash: "find_pod_hash 0 (length ?front) ?front = Some (length vmi)"
    by simp
  have len: "\<not> length ?parts < 4"
    using assms(7) by simp
  show ?thesis
    unfolding extractStableClaimName_def Let_def parts front hash
    using pre len by simp
qed


section \<open>Shape of the result\<close>

text \<open>
  Whatever the claim is called, the result is the name itself, or it is the name without the
  prefix, the first part that looks like a hash and the last part.
\<close>

lemma extractStableClaimName_cases:
  obtains (same) "extractStableClaimName s = s"
  | (cut) V h T g where "s = virt_launcher_claim V h T g"
      "extractStableClaimName s = Join V ''-'' @ ''-'' @ Join T ''-''"
      "hash_like h" "T \<noteq> []" "list_all no_dash (V @ h # T @ [g])"
proof (cases "extractStableClaimName s = s")
  case False
  let ?parts = "Split (CHR ''-'') (TrimPrefix s virtLauncherPrefix)"
  let ?front = "take (length ?parts - 1) ?parts"
  from False have pre: "HasPrefix s virtLauncherPrefix" and "\<not> length ?parts < 4"
    and "find_pod_hash 0 (length ?front) ?front \<noteq> None"
    by (auto simp: extractStableClaimName_def Let_def split: if_splits option.splits)
  then obtain i where i: "find_pod_hash 0 (length ?front) ?front = Some i"
    by blast
  then obtain V h T where f: "?front = V @ h # T" "length V = i" "hash_like h" "T \<noteq> []"
    by (rule find_pod_hash_Some)
  have front: "?front = butlast ?parts"
    by (simp add: butlast_conv_take)
  have parts: "?parts = V @ h # T @ [last ?parts]"
    using f(1) append_butlast_last_id [of ?parts] unfolding front by simp
  have res: "extractStableClaimName s = Join V ''-'' @ ''-'' @ Join T ''-''"
    unfolding extractStableClaimName_def Let_def i
    unfolding f(1) using pre \<open>\<not> length ?parts < 4\<close> f(2) by auto
  have "s = virtLauncherPrefix @ TrimPrefix s virtLauncherPrefix"
    using pre by (auto simp: TrimPrefix_def HasPrefix_def prefix_def)
  also have "TrimPrefix s virtLauncherPrefix = Join ?parts ''-''"
    by simp
  finally have "s = virt_launcher_claim V h T (last ?parts)"
    unfolding virt_launcher_claim_def using parts by simp
  moreover have "list_all no_dash ?parts"
    by (auto simp: list_all_iff no_dash_def dest: Split_parts)
  then have "list_all no_dash (V @ h # T @ [last ?parts])"
    using parts by simp
  ultimately show thesis
    using cut res f(3,4) by blast
qed (rule same)

lemma set_Join: "set (Join ps sep) \<subseteq> (\<Union>p \<in> set ps. set p) \<union> set sep"
  by (induction ps sep rule: Join.induct) auto

lemma subset_set_Join: "p \<in> set ps \<Longrightarrow> set p \<subseteq> set (Join ps sep)"
  by (induction ps sep rule: Join.induct) auto

lemma plain_extractStableClaimName:
  assumes "plain s"
  shows "plain (extractStableClaimName s)"
proof (cases s rule: extractStableClaimName_cases)
  case same
  with assms show ?thesis by simp
next
  case (cut V h T g)
  have part: "p \<in> set (V @ h # T @ [g]) \<Longrightarrow> set p \<subseteq> set (Join (V @ h # T @ [g]) ''-'')" for p
    by (rule subset_set_Join)
  have "CHR ''/'' \<notin> set (Join (V @ h # T @ [g]) ''-'')"
    using assms cut(1) by (auto simp: plain_def virt_launcher_claim_def)
  then have "CHR ''/'' \<notin> set p" if "p \<in> set (V @ T)" for p
    using part [of p] that by auto
  then have "CHR ''/'' \<notin> set (Join V ''-'')" "CHR ''/'' \<notin> set (Join T ''-'')"
    using set_Join [of V "''-''"] set_Join [of T "''-''"] by auto
  then have slash: "CHR ''/'' \<notin> set (extractStableClaimName s)"
    using cut(2) by simp
  have "CHR ''-'' \<in> set (extractStableClaimName s)"
    using cut(2) by simp
  then have "extractStableClaimName s \<notin> {[], ''.'', ''..''}"
    by auto
  with slash show ?thesis
    by (simp add: plain_def)
qed


lemma extract_unchanged:
  assumes "\<not> HasPrefix s virtLauncherPrefix
    \<or> length (Split (CHR ''-'') (TrimPrefix s virtLauncherPrefix)) < 4
    \<or> list_all (\<lambda>p. \<not> hash_like p) (butlast (butlast (Split (CHR ''-'') (TrimPrefix s virtLauncherPrefix))))"
  shows "extractStableClaimName s = s"
proof -
  let ?parts = "Split (CHR ''-'') (TrimPrefix s virtLauncherPrefix)"
  have "find_pod_hash 0 (0 + length (butlast ?parts)) (butlast ?parts) = None"
    if "list_all (\<lambda>p. \<not> hash_like p) (butlast (butlast ?parts))"
    using that by (intro find_pod_hash_None) (auto simp: list_all_iff)
  then show ?thesis
    using assms by (auto simp: extractStableClaimName_def Let_def butlast_conv_take)
qed

text \<open>The two copies of the function, for the host directory and for the mount, agree.\<close>

lemma network_extractStableClaimName_eq: "network_extractStableClaimName s = extractStableClaimName s"
  by (simp only: network_extractStableClaimName_def extractStableClaimName_def
      network_find_pod_hash_eq Let_def)

section \<open>A reference\<close>

text \<open>
  The stable name without the loop and the indices: of the parts but the last one, those before
  the first that looks like a hash, and those after it.
\<close>

definition stable_name :: "string \<Rightarrow> string" where
  "stable_name s =
    (let parts = Split (CHR ''-'') (TrimPrefix s virtLauncherPrefix);
         vmi = takeWhile (\<lambda>p. \<not> hash_like p) (butlast parts);
         template = drop (length vmi + 1) (butlast parts) in
     if HasPrefix s virtLauncherPrefix \<and> 4 \<le> length parts \<and> template \<noteq> []
     then Join vmi ''-'' @ ''-'' @ Join template ''-'' else s)"

lemma find_pod_hash_takeWhile:
  "find_pod_hash i (i + length ps) ps =
    (let v = length (takeWhile (\<lambda>p. \<not> hash_like p) ps) in if v + 1 < length ps then Some (i + v) else None)"
proof (induction ps arbitrary: i)
  case (Cons p ps)
  from Cons [of "Suc i"] show ?case
    by (cases ps) (simp_all add: hash_like_iff Let_def)
qed simp

lemma extractStableClaimName_eq: "extractStableClaimName s = stable_name s"
proof -
  let ?front = "butlast (Split (CHR ''-'') (TrimPrefix s virtLauncherPrefix))"
  let ?v = "length (takeWhile (\<lambda>p. \<not> hash_like p) ?front)"
  have hash: "find_pod_hash 0 (length ?front) ?front = (if ?v + 1 < length ?front then Some ?v else None)"
    using find_pod_hash_takeWhile [of 0 ?front] by (simp add: Let_def)
  have vmi: "take ?v ?front = takeWhile (\<lambda>p. \<not> hash_like p) ?front"
    by (rule takeWhile_eq_take [symmetric])
  have template: "drop (?v + 1) ?front \<noteq> [] \<longleftrightarrow> ?v + 1 < length ?front"
    by (simp only: drop_eq_Nil not_le)
  show ?thesis
    unfolding extractStableClaimName_def stable_name_def Let_def butlast_conv_take [symmetric] hash template
    by (auto simp only: vmi if_True if_False option.case not_le split: if_splits)
qed

section \<open>Properties\<close>

text \<open>
  C25: For a KubeVirt launcher claim \<open>virt-launcher-<vmi>-<pod>-<template>-<claim>\<close> whose VM
  name has no dash-separated part that looks like a hash, the stable name is
  \<open><vmi>-<template>\<close>: the pod hash and the claim hash, which change when the VM migrates,
  are gone, so the source and the target of a migration use the same directory.
\<close>

theorem stable_name_of_virt_launcher:
  assumes "list_all no_dash vmi" "list_all (\<lambda>v. \<not> hash_like v) vmi" "vmi \<noteq> []"
    and "list_all no_dash template" "template \<noteq> []"
    and "hash_like pod" "no_dash claim" "hash_like pod'" "no_dash claim'"
  shows "extractStableClaimName (virt_launcher_claim vmi pod template claim)
      = Join vmi ''-'' @ ''-'' @ Join template ''-''
    \<and> extractStableClaimName (virt_launcher_claim vmi pod' template claim')
      = extractStableClaimName (virt_launcher_claim vmi pod template claim)"
proof -
  have "2 \<le> length vmi + length template"
    using assms(3,5) by (cases vmi; cases template) auto
  then show ?thesis
    using assms by (simp add: extract_first_hash)
qed

theorem stable_name_of_virt_launcher_witness:
  "extractStableClaimName (virt_launcher_claim [''vm'', ''a''] ''drz4j'' [''dummy'', ''gpu''] ''fngjv'')
      = ''vm-a-dummy-gpu''
    \<and> extractStableClaimName (virt_launcher_claim [''vm'', ''a''] ''x7k2p'' [''dummy'', ''gpu''] ''q9wzr'')
      = ''vm-a-dummy-gpu''"
  using stable_name_of_virt_launcher
    [of "[''vm'', ''a'']" "[''dummy'', ''gpu'']" "''drz4j''" "''fngjv''" "''x7k2p''" "''q9wzr''"]
  by (simp add: no_dash_def hash_like_def byte_class_defs)

text \<open>
  C27: The choice of the first part that looks like a hash goes wrong when the VM's own name
  has such a part (five letters or digits, as in \<open>alpha\<close>): the stable name then still
  holds the pod hash, and two incarnations of the same VM get different directories.
\<close>

theorem stable_name_keeps_pod_hash:
  assumes "list_all no_dash (before @ after)" "list_all (\<lambda>v. \<not> hash_like v) before"
    and "hash_like part" "list_all no_dash template" "template \<noteq> []"
    and "hash_like pod" "hash_like pod'" "no_dash claim" "no_dash claim'" "pod \<noteq> pod'"
  shows "extractStableClaimName (virt_launcher_claim (before @ part # after) pod template claim)
      = Join before ''-'' @ ''-'' @ Join (after @ pod # template) ''-''
    \<and> extractStableClaimName (virt_launcher_claim (before @ part # after) pod template claim)
      \<noteq> extractStableClaimName (virt_launcher_claim (before @ part # after) pod' template claim')"
proof -
  let ?dir = "\<lambda>p. Join before ''-'' @ ''-'' @ Join (after @ p # template) ''-''"
  have eq: "extractStableClaimName (virt_launcher_claim (before @ part # after) p template c) = ?dir p"
    if "hash_like p" "no_dash c" for p c
  proof -
    have same: "virt_launcher_claim (before @ part # after) p template c
        = virt_launcher_claim before part (after @ p # template) c"
      by (simp add: virt_launcher_claim_def)
    have "2 \<le> length before + length (after @ p # template)"
      using assms(5) by (cases template) auto
    then show ?thesis
      unfolding same using assms that
      by (intro extract_first_hash) (auto simp: no_dash_def dest: hash_like_no_dash)
  qed
  have "after @ pod # template = after @ pod' # template"
    if "Join (after @ pod # template) ''-'' = Join (after @ pod' # template) ''-''"
    using that
    by (rule Join_inject) (use assms in \<open>auto simp: list_all_iff no_dash_def dest: hash_like_no_dash\<close>)
  then have "?dir pod \<noteq> ?dir pod'"
    using assms(10) by auto
  then show ?thesis
    using eq assms by metis
qed

theorem stable_name_keeps_pod_hash_witness:
  "extractStableClaimName (virt_launcher_claim [''my'', ''alpha''] ''drz4j'' [''gpu''] ''fngjv'')
      = ''my-drz4j-gpu''
    \<and> extractStableClaimName (virt_launcher_claim [''my'', ''alpha''] ''drz4j'' [''gpu''] ''fngjv'')
      \<noteq> extractStableClaimName (virt_launcher_claim [''my'', ''alpha''] ''x7k2p'' [''gpu''] ''q9wzr'')"
  using stable_name_keeps_pod_hash
    [of "[''my'']" "[]" "''alpha''" "[''gpu'']" "''drz4j''" "''x7k2p''" "''fngjv''" "''q9wzr''"]
  by (auto simp: no_dash_def hash_like_def byte_class_defs)

text \<open>
  C28: Two launcher claims (of VMs with no part that looks like a hash) have the same stable
  name exactly when their VM and template parts agree as one sequence: the border between
  the VM's name and the template's is lost.
\<close>

theorem stable_name_collision:
  assumes "list_all no_dash vmi" "list_all (\<lambda>v. \<not> hash_like v) vmi" "vmi \<noteq> []"
    and "list_all no_dash template" "template \<noteq> []" "hash_like pod" "no_dash claim"
    and "list_all no_dash vmi'" "list_all (\<lambda>v. \<not> hash_like v) vmi'" "vmi' \<noteq> []"
    and "list_all no_dash template'" "template' \<noteq> []" "hash_like pod'" "no_dash claim'"
  shows "extractStableClaimName (virt_launcher_claim vmi pod template claim)
      = extractStableClaimName (virt_launcher_claim vmi' pod' template' claim')
    \<longleftrightarrow> vmi @ template = vmi' @ template'"
proof -
  have "2 \<le> length vmi + length template" "2 \<le> length vmi' + length template'"
    using assms by (cases vmi; cases template; simp) (cases vmi'; cases template'; simp add: assms)
  then have "extractStableClaimName (virt_launcher_claim vmi pod template claim) = Join (vmi @ template) ''-''"
    and "extractStableClaimName (virt_launcher_claim vmi' pod' template' claim') = Join (vmi' @ template') ''-''"
    using assms by (simp_all add: extract_first_hash Join_append)
  moreover have "vmi @ template = vmi' @ template'"
    if "Join (vmi @ template) ''-'' = Join (vmi' @ template') ''-''"
    using that by (rule Join_inject) (use assms in \<open>auto simp: list_all_iff no_dash_def\<close>)
  ultimately show ?thesis by auto
qed

theorem stable_name_collision_witness:
  "extractStableClaimName (virt_launcher_claim [''vm'', ''a''] ''drz4j'' [''b'', ''c''] ''fngjv'')
    = extractStableClaimName (virt_launcher_claim [''vm'', ''a'', ''b''] ''x7k2p'' [''c''] ''q9wzr'')"
  using stable_name_collision
    [of "[''vm'', ''a'']" "[''b'', ''c'']" "''drz4j''" "''fngjv''"
        "[''vm'', ''a'', ''b'']" "[''c'']" "''x7k2p''" "''q9wzr''"]
  by (simp add: no_dash_def hash_like_def byte_class_defs)

text \<open>
  C26: On every string, whatever its bytes, both copies of the function are the reference that takes
  the parts between the dashes, drops the last one and the first one that looks like a hash, and
  gives up where nothing would be left behind the hash.
\<close>

theorem stable_name_reference:
  "extractStableClaimName s = stable_name s \<and> network_extractStableClaimName s = stable_name s"
  by (simp only: network_extractStableClaimName_eq extractStableClaimName_eq simp_thms)

text \<open>
  On every other name, the whole name is kept: a name without the launcher prefix, with
  fewer than four parts after it, or with no part that looks like a hash before the last two.
\<close>

lemma stable_name_other:
  assumes "\<not> HasPrefix s virtLauncherPrefix
    \<or> length (Split (CHR ''-'') (TrimPrefix s virtLauncherPrefix)) < 4
    \<or> list_all (\<lambda>p. \<not> hash_like p) (butlast (butlast (Split (CHR ''-'') (TrimPrefix s virtLauncherPrefix))))"
  shows "extractStableClaimName s = s"
  using assms by (rule extract_unchanged)

end
