(* ===== verification/Checkpoint_File.thy ===== *)
theory Checkpoint_File
  imports Go_OS Sample_Codec Claim_Names
begin

text \<open>
  Reading and writing the checkpoint (\<open>checkpoint.go\<close>). The file is replaced by a
  temporary file that is written, synchronised and renamed over it. The lemmas show that this
  is atomic in every environment: whatever call fails or the process is killed in, the file
  holds the old content or the complete new one. The locale \<open>checkpoint_store\<close> states
  what the rest of the driver relies on, and the operations below are its instance.
\<close>

section \<open>The operations\<close>

definition readCheckpoint :: "string \<Rightarrow> decoder \<Rightarrow> ('x, Checkpoint) io" where
  "readCheckpoint path decoder =
    call (on_err (call (os_ReadFile path) (\<lambda>data. ok (Some data)))
      (\<lambda>err. if \<not> errors_Is err ErrNotExist then fail err else ok None))
    (\<lambda>data. case data of
       None \<Rightarrow> ok new_Checkpoint
     | Some d \<Rightarrow>
        (case decoder d new_Checkpoint of
           Inl err \<Rightarrow> fail (Wrapf (''unmarshal JSON from '' @ path) err)
         | Inr checkpoint \<Rightarrow> ok checkpoint))"

text \<open>The deferred \<open>Close\<close>: its error is returned only when there is no other.\<close>

definition with_close :: "string \<Rightarrow> ('x, unit) io \<Rightarrow> ('x, unit) io" where
  "with_close tmp body = (\<lambda>w.
    (case body w of
       (Ok u, w1) \<Rightarrow> wrap (Wrapf ''close temp file'') (file_close tmp) w1
     | (Err e, w1) \<Rightarrow> call (on_err (file_close tmp) (\<lambda>_. ok ())) (\<lambda>_. fail e) w1
     | (Abort a, w1) \<Rightarrow> (Abort a, w1)))"

definition writeCheckpoint :: "string \<Rightarrow> encoder \<Rightarrow> Checkpoint \<Rightarrow> ('x, unit) io" where
  "writeCheckpoint path encoder checkpoint =
    (let dir = filepath_Dir path in
     call (wrap (Wrapf (''create temp file in '' @ dir)) (os_CreateTemp dir ''tmp-checkpoint-''))
     (\<lambda>tmp. with_close tmp
       (call (wrap (Wrapf (''encode to temp file '' @ tmp))
          (call (lift_result (encoder checkpoint)) (\<lambda>data. file_write tmp data)))
       (\<lambda>_. call (wrap (Wrapf ''sync temp file'') (file_sync tmp))
       (\<lambda>_. wrap (Wrapf (''rename '' @ tmp @ '' to '' @ path)) (os_Rename tmp path))))))"

section \<open>Paths\<close>

text \<open>The paths the store writes: the checkpoint and its temporary files.\<close>

definition store_path :: "string \<Rightarrow> path \<Rightarrow> bool" where
  "store_path path p \<longleftrightarrow> p \<noteq> [] \<and> butlast p = butlast (elems path)
    \<and> (last p = last (elems path) \<or> prefix ''tmp-checkpoint-'' (last p))"

text \<open>A usable checkpoint path: not the root, and not named like a temporary file.\<close>

definition checkpoint_path :: "string \<Rightarrow> bool" where
  "checkpoint_path path \<longleftrightarrow> elems path \<noteq> [] \<and> elems (filepath_Dir path) = butlast (elems path)
    \<and> \<not> prefix ''tmp-checkpoint-'' (last (elems path))"

lemma plain_tmp_name: "plain (''tmp-checkpoint-'' @ Itoa n)"
  by (simp add: plain_def Itoa_avoids is_digit_def)

lemma elems_tmp_file_name:
  "elems (tmp_file_name dir ''tmp-checkpoint-'' n) = elems dir @ [''tmp-checkpoint-'' @ Itoa n]"
proof (cases "dir \<noteq> [] \<and> last dir = CHR ''/''")
  case True
  then obtain d where d: "dir = d @ ''/''"
    by (metis append_butlast_last_id)
  then show ?thesis
    using elems_append_name [OF plain_tmp_name, of d n]
    by (simp add: tmp_file_name_def elems_trailing_slash)
next
  case False
  then show ?thesis
    using elems_append_name [OF plain_tmp_name, of dir n] by (auto simp: tmp_file_name_def)
qed

lemma elems_tmp_store_path:
  assumes "checkpoint_path path"
  shows "store_path path (elems (tmp_file_name (filepath_Dir path) ''tmp-checkpoint-'' n))"
    and "elems (tmp_file_name (filepath_Dir path) ''tmp-checkpoint-'' n) \<noteq> elems path"
proof -
  have e: "elems (tmp_file_name (filepath_Dir path) ''tmp-checkpoint-'' n)
      = butlast (elems path) @ [''tmp-checkpoint-'' @ Itoa n]"
    using assms by (simp add: elems_tmp_file_name checkpoint_path_def)
  then show "store_path path (elems (tmp_file_name (filepath_Dir path) ''tmp-checkpoint-'' n))"
    by (simp add: store_path_def)
  show "elems (tmp_file_name (filepath_Dir path) ''tmp-checkpoint-'' n) \<noteq> elems path"
    using assms e by (metis checkpoint_path_def last_snoc prefixI)
qed

lemma store_path_checkpoint: "checkpoint_path path \<Longrightarrow> store_path path (elems path)"
  by (simp add: store_path_def checkpoint_path_def)

lemma elems_Dir_slash:
  assumes "is_abs (d @ ''/'')" "CHR ''/'' \<notin> set e"
  shows "elems (filepath_Dir (d @ CHR ''/'' # e)) = elems d"
proof -
  have "dropWhile (\<lambda>c. c \<noteq> CHR ''/'') (rev e @ CHR ''/'' # rev d) = CHR ''/'' # rev d"
    using assms(2) by (subst dropWhile_append2) auto
  then have "filepath_Dir (d @ CHR ''/'' # e) = Clean (d @ ''/'')"
    by (simp add: filepath_Dir_def)
  then show ?thesis
    using assms(1) by (simp add: elems_Clean elems_trailing_slash)
qed

text \<open>A path joined from an absolute base and a plain file name is usable.\<close>

lemma filepath_Join_snoc:
  assumes "is_abs b" "plain e"
  obtains d where "filepath_Join (b # xs @ [e]) = d @ CHR ''/'' # e" "is_abs (d @ ''/'')"
proof -
  let ?es = "elems (filepath_Join (b # xs @ [e]))"
  let ?cs = "clean_elems True [] (concat (map (Split (CHR ''/'')) (b # xs)))"
  have es: "?es = ?cs @ [e]"
    using assms by (simp add: elems_filepath_Join plain_def Split_none clean_elems_append_singleton
        flip: append_assoc)
  let ?J = "Join (b # xs @ [e]) ''/''"
  have abs: "is_abs ?J"
    using assms(1) by (rule is_abs_Join)
  have "b \<noteq> []"
    using assms(1) by (simp add: is_abs_def)
  then have J: "filepath_Join (b # xs @ [e]) = Clean ?J"
    by (simp add: filepath_Join_def)
  have "Clean ?J = CHR ''/'' # Join (elems ?J) ''/''"
    using abs by (simp add: Clean_def elems_def is_abs_def)
  moreover have "elems ?J = ?es"
    using abs J by (simp add: elems_Clean)
  ultimately have "filepath_Join (b # xs @ [e]) = CHR ''/'' # Join ?es ''/''"
    using J by simp
  then have eq: "filepath_Join (b # xs @ [e]) = CHR ''/'' # Join (?cs @ [e]) ''/''"
    using es by simp
  show thesis
  proof (cases "?cs = []")
    case True
    with eq show thesis by (intro that [of "[]"]) (auto simp: is_abs_def)
  next
    case False
    with eq show thesis
      by (intro that [of "CHR ''/'' # Join ?cs ''/''"]) (auto simp: Join_append is_abs_def)
  qed
qed

lemma checkpoint_path_Join:
  assumes "is_abs b" "plain e" "\<not> prefix ''tmp-checkpoint-'' e"
  shows "checkpoint_path (filepath_Join (b # xs @ [e]))"
proof -
  obtain d where d: "filepath_Join (b # xs @ [e]) = d @ CHR ''/'' # e" "is_abs (d @ ''/'')"
    using assms(1,2) by (rule filepath_Join_snoc)
  then show ?thesis
    using assms(2,3) elems_append_name [OF assms(2), of d]
    by (simp add: checkpoint_path_def elems_Dir_slash plain_def)
qed

section \<open>Reading\<close>

text \<open>The prepared claims that the files hold: none when there is no file.\<close>

definition stored_claims :: "decoder \<Rightarrow> string \<Rightarrow> 'x world \<Rightarrow> PreparedClaim list option" where
  "stored_claims dec path w =
    (case fmlookup (files w) (elems path) of
       None \<Rightarrow> Some []
     | Some (Dir a) \<Rightarrow> None
     | Some (File a s) \<Rightarrow>
        (case dec s new_Checkpoint of Inl e \<Rightarrow> None | Inr c \<Rightarrow> Some (PreparedClaims c)))"

lemma stored_claims_local:
  "fmlookup (files w') (elems path) = fmlookup (files w) (elems path)
    \<Longrightarrow> stored_claims dec path w' = stored_claims dec path w"
  by (simp add: stored_claims_def)

lemma touches_readCheckpoint [effect_rules]: "steps_in (touches P) (readCheckpoint path dec)"
  unfolding readCheckpoint_def
  by (intro touch.in_call touch.in_on_err touches_os_ReadFile)
    (auto intro: touch.in_rules split: option.splits sum.splits)

lemma keeps_ext_readCheckpoint [effect_rules]: "steps_in keeps_ext (readCheckpoint path dec)"
  unfolding readCheckpoint_def
  by (intro kext.in_call kext.in_on_err keeps_ext_os)
    (auto intro: kext.in_rules split: option.splits sum.splits)

lemma readCheckpoint_Ok:
  assumes "readCheckpoint path dec w = (Ok c, w')"
  shows "stored_claims dec path w = Some (PreparedClaims c)"
proof -
  obtain r w1 where read: "os_ReadFile path w = (r, w1)"
    by fastforce
  show ?thesis
  proof (cases r)
    case (Ok d)
    with read have "file_content (files w) (elems path) = Some d"
      by (auto dest: os_ReadFile_Ok)
    with assms read Ok show ?thesis
      by (auto simp: readCheckpoint_def effect_simps stored_claims_def file_content_iff
          split: sum.splits)
  next
    case (Err e)
    with assms read have "errors_Is e ErrNotExist" "c = new_Checkpoint"
      by (auto simp: readCheckpoint_def effect_simps split: if_splits)
    with read Err have "fmlookup (files w) (elems path) = None"
      by (auto dest: os_ReadFile_NotExist)
    with \<open>c = new_Checkpoint\<close> show ?thesis
      by (simp add: stored_claims_def new_Checkpoint_def)
  next
    case (Abort a)
    with assms read show ?thesis
      by (simp add: readCheckpoint_def effect_simps)
  qed
qed

lemma readCheckpoint_calm:
  assumes "calm w" "elems path \<noteq> []" "stored_claims dec path w = Some cs"
  shows "\<exists>c. readCheckpoint path dec w = (Ok c, tick w) \<and> PreparedClaims c = cs"
proof (cases "fmlookup (files w) (elems path)")
  case None
  then show ?thesis
    using assms by (simp add: readCheckpoint_def effect_simps os_ReadFile_missing ErrNotExist_def
        stored_claims_def new_Checkpoint_def)
next
  case (Some n)
  with assms(3) obtain a d c where "n = File a d" "dec d new_Checkpoint = Inr c" "PreparedClaims c = cs"
    by (auto simp: stored_claims_def split: node.splits sum.splits)
  with Some assms(1) show ?thesis
    by (simp add: readCheckpoint_def effect_simps os_ReadFile_calm)
qed


section \<open>Writing\<close>

lemma with_close_eq:
  "with_close tmp body =
    call (on_err (call body (\<lambda>_. ok None)) (\<lambda>e. ok (Some e)))
      (\<lambda>oe. case oe of None \<Rightarrow> wrap (Wrapf ''close temp file'') (file_close tmp)
        | Some e \<Rightarrow> call (on_err (file_close tmp) (\<lambda>_. ok ())) (\<lambda>_. fail e))"
  by (simp add: fun_eq_iff with_close_def effect_simps split: prod.splits outcome.splits)

lemma touches_with_close [effect_rules]:
  "steps_in (touches P) body \<Longrightarrow> steps_in (touches P) (with_close tmp body)"
  by (simp add: with_close_eq touch.in_rules touches_file_close split: option.splits)

lemma keeps_ext_with_close [effect_rules]:
  "steps_in keeps_ext body \<Longrightarrow> steps_in keeps_ext (with_close tmp body)"
  by (simp add: with_close_eq kext.in_rules keeps_ext_os split: option.splits)

lemma file_close_files: "files (snd (file_close tmp w)) = files w"
  by (simp add: file_close_def syscall_def ok_def split: option.splits)

lemma with_close_result:
  assumes "with_close tmp body w = (r, w')"
  shows "\<exists>r1 w1. body w = (r1, w1) \<and> files w' = files w1 \<and> (r = Ok () \<longrightarrow> r1 = Ok ())"
proof -
  obtain r1 w1 where body: "body w = (r1, w1)" by fastforce
  obtain rc wc where close: "file_close tmp w1 = (rc, wc)" by fastforce
  have "files wc = files w1"
    using file_close_files [of tmp w1] close by simp
  with assms body close have "files w' = files w1" "r = Ok () \<Longrightarrow> r1 = Ok ()"
    by (auto simp: with_close_def effect_simps split: outcome.splits)
  with body show ?thesis by blast
qed

lemma os_CreateTemp_result:
  assumes "os_CreateTemp dir pre w = (r, w')"
  shows "(\<exists>n a. r = Ok (tmp_file_name dir pre n)
      \<and> fmlookup (files w) (elems (tmp_file_name dir pre n)) = None
      \<and> files w' = fmupd (elems (tmp_file_name dir pre n)) (File a []) (files w))
    \<or> (\<forall>s. r \<noteq> Ok s) \<and> files w' = files w"
proof -
  let ?n = "tmp_number (env w) (ticks w)"
  have "r = Ok (tmp_file_name dir pre ?n)
      \<and> fmlookup (files w) (elems (tmp_file_name dir pre ?n)) = None
      \<and> files w' = fmupd (elems (tmp_file_name dir pre ?n)) (File (new_attrs w 384) []) (files w)
    \<or> (\<forall>s. r \<noteq> Ok s) \<and> files w' = files w"
    using assms
    by (auto simp: os_CreateTemp_def syscall_def Let_def split: option.splits if_splits)
  then show ?thesis by blast
qed

lemma file_write_result:
  assumes "file_write s d w = (r, w')" "fmlookup (files w) (elems s) = Some (File a c)"
  shows "r = Ok () \<and> files w' = fmupd (elems s) (File a (c @ d)) (files w)
    \<or> r \<noteq> Ok () \<and> (\<exists>k. files w' = fmupd (elems s) (File a (c @ take k d)) (files w))"
  using assms
  by (auto simp: file_write_def syscall_def append_file_def split: option.splits if_splits)

lemma os_Rename_result:
  assumes "os_Rename s t w = (r, w')"
  shows "r = Ok () \<and> (\<exists>n. fmlookup (files w) (elems s) = Some n
      \<and> files w' = fmupd (elems t) n (fmdrop (elems s) (files w)))
    \<or> r \<noteq> Ok () \<and> files w' = files w"
  using assms by (auto simp: os_Rename_def syscall_def split: option.splits if_splits)

lemma file_sync_files: "files (snd (file_sync s w)) = files w"
  by (simp add: file_sync_def syscall_def ok_def split: option.splits)

text \<open>The body of the write: encode to the temporary file, synchronise, rename.\<close>

definition write_body :: "string \<Rightarrow> encoder \<Rightarrow> Checkpoint \<Rightarrow> string \<Rightarrow> ('x, unit) io" where
  "write_body path encoder checkpoint tmp =
    call (wrap (Wrapf (''encode to temp file '' @ tmp))
      (call (lift_result (encoder checkpoint)) (\<lambda>data. file_write tmp data)))
    (\<lambda>_. call (wrap (Wrapf ''sync temp file'') (file_sync tmp))
    (\<lambda>_. wrap (Wrapf (''rename '' @ tmp @ '' to '' @ path)) (os_Rename tmp path)))"

lemma writeCheckpoint_eq:
  "writeCheckpoint path enc cp =
    call (wrap (Wrapf (''create temp file in '' @ filepath_Dir path))
      (os_CreateTemp (filepath_Dir path) ''tmp-checkpoint-''))
    (\<lambda>tmp. with_close tmp (write_body path enc cp tmp))"
  by (simp add: writeCheckpoint_def write_body_def Let_def)

lemma touches_write_body:
  "P (elems tmp) \<Longrightarrow> P (elems path) \<Longrightarrow> steps_in (touches P) (write_body path enc cp tmp)"
  unfolding write_body_def
  by (intro touch.in_call touch.in_wrap touches_file_sync touches_os_Rename touch.in_lift_result
      touches_file_write)

lemma touches_writeCheckpoint [effect_rules]:
  assumes "checkpoint_path path"
  shows "steps_in (touches (store_path path)) (writeCheckpoint path enc cp)"
proof (rule steps_inI)
  fix w :: "'x world"
  let ?m = "os_CreateTemp (filepath_Dir path) ''tmp-checkpoint-'' :: ('x, string) io"
  obtain r w1 where mk: "?m w = (r, w1)" by fastforce
  have t1: "touches (store_path path) w w1"
    by (rule steps_inD [OF touches_os_CreateTemp mk]) (rule elems_tmp_store_path [OF assms])
  show "touches (store_path path) w (snd (writeCheckpoint path enc cp w))"
  proof (cases "\<exists>n. r = Ok (tmp_file_name (filepath_Dir path) ''tmp-checkpoint-'' n)")
    case True
    then obtain n where r: "r = Ok (tmp_file_name (filepath_Dir path) ''tmp-checkpoint-'' n)" by blast
    let ?tmp = "tmp_file_name (filepath_Dir path) ''tmp-checkpoint-'' n"
    have "steps_in (touches (store_path path)) (with_close ?tmp (write_body path enc cp ?tmp) :: ('x, unit) io)"
      by (intro touches_with_close touches_write_body elems_tmp_store_path store_path_checkpoint assms)
    then have "touches (store_path path) w1 (snd (with_close ?tmp (write_body path enc cp ?tmp) w1))"
      by (simp add: steps_in_def)
    with t1 have "touches (store_path path) w (snd (with_close ?tmp (write_body path enc cp ?tmp) w1))"
      by (rule touch.step_trans)
    then show ?thesis
      by (simp add: writeCheckpoint_eq effect_simps mk r)
  next
    case False
    with os_CreateTemp_result [OF mk] have "\<forall>s. r \<noteq> Ok s" by blast
    with t1 mk show ?thesis
      by (cases r) (auto simp: writeCheckpoint_eq effect_simps)
  qed
qed

lemma write_body_result:
  assumes "write_body path enc cp tmp w = (r, w')"
    and "fmlookup (files w) (elems tmp) = Some (File a [])" "elems tmp \<noteq> elems path"
  shows "r \<noteq> Ok () \<and> fmlookup (files w') (elems path) = fmlookup (files w) (elems path)
    \<or> r = Ok () \<and> (\<exists>s. enc cp = Inr s \<and> fmlookup (files w') (elems path) = Some (File a s))"
proof (cases "enc cp")
  case (Inl e)
  with assms show ?thesis by (auto simp: write_body_def effect_simps)
next
  case (Inr s)
  obtain r1 w1 where wr: "file_write tmp s w = (r1, w1)" by fastforce
  obtain r2 w2 where sy: "file_sync tmp w1 = (r2, w2)" by fastforce
  obtain r3 w3 where mv: "os_Rename tmp path w2 = (r3, w3)" by fastforce
  have w2: "files w2 = files w1"
    using file_sync_files [of tmp w1] sy by simp
  have same: "fmlookup (files w1) (elems path) = fmlookup (files w) (elems path)"
    using file_write_result [OF wr assms(2)] assms(3) by auto
  show ?thesis
  proof (cases "r1 = Ok () \<and> r2 = Ok ()")
    case True
    then have "fmlookup (files w2) (elems tmp) = Some (File a s)"
      using file_write_result [OF wr assms(2)] w2 by auto
    with True show ?thesis
      using assms(1) Inr wr sy mv os_Rename_result [OF mv] same w2 assms(3)
      by (cases r3) (auto simp: write_body_def effect_simps)
  next
    case False
    then show ?thesis
      using assms(1) Inr wr sy same w2
      by (cases r1; cases r2) (auto simp: write_body_def effect_simps)
  qed
qed

lemma writeCheckpoint_result:
  assumes "checkpoint_path path" "writeCheckpoint path enc cp w = (r, w')"
  shows "r \<noteq> Ok () \<and> fmlookup (files w') (elems path) = fmlookup (files w) (elems path)
    \<or> (\<exists>a s. enc cp = Inr s \<and> fmlookup (files w') (elems path) = Some (File a s))"
proof -
  obtain r1 w1 where mk: "os_CreateTemp (filepath_Dir path) ''tmp-checkpoint-'' w = (r1, w1)"
    by fastforce
  from os_CreateTemp_result [OF mk] show ?thesis
  proof (elim disjE exE conjE)
    fix n a
    let ?tmp = "tmp_file_name (filepath_Dir path) ''tmp-checkpoint-'' n"
    assume r1: "r1 = Ok ?tmp" and w1: "files w1 = fmupd (elems ?tmp) (File a []) (files w)"
    from assms(2) have "with_close ?tmp (write_body path enc cp ?tmp) w1 = (r, w')"
      by (simp add: writeCheckpoint_eq effect_simps mk r1)
    then obtain r2 w2 where body: "write_body path enc cp ?tmp w1 = (r2, w2)"
      and w': "files w' = files w2" and r: "r = Ok () \<Longrightarrow> r2 = Ok ()"
      using with_close_result by blast
    have "elems ?tmp \<noteq> elems path"
      using assms(1) by (rule elems_tmp_store_path)
    with write_body_result [OF body] w1 w' r show ?thesis by auto
  next
    assume "\<forall>s. r1 \<noteq> Ok s" "files w1 = files w"
    with assms(2) mk show ?thesis
      by (cases r1) (auto simp: writeCheckpoint_eq effect_simps)
  qed
qed


text \<open>A write without an error leaves no temporary file and changes no path but the checkpoint's.\<close>

lemma write_body_Ok_only:
  assumes "write_body path enc cp tmp w = (Ok (), w')"
    and "fmlookup (files w) (elems tmp) = Some (File a [])" "q \<noteq> elems path"
  shows "fmlookup (files w') q = (if q = elems tmp then None else fmlookup (files w) q)"
proof -
  from assms(1) obtain s w1 w2 where enc: "enc cp = Inr s" and
    wr: "file_write tmp s w = (Ok (), w1)" and sy: "file_sync tmp w1 = (Ok (), w2)" and
    mv: "os_Rename tmp path w2 = (Ok (), w')"
    unfolding write_body_def by (cases "enc cp") (auto elim!: call_OkE)
  have "files w2 = fmupd (elems tmp) (File a s) (files w)"
    using file_write_result [OF wr assms(2)] file_sync_files [of tmp w1] sy by simp
  then show ?thesis
    using os_Rename_result [OF mv] assms(3) by auto
qed

lemma writeCheckpoint_Ok_only:
  assumes "writeCheckpoint path enc cp w = (Ok (), w')" "q \<noteq> elems path"
  shows "fmlookup (files w') q = fmlookup (files w) q"
proof -
  from assms(1) obtain tmp w1 where mk: "os_CreateTemp (filepath_Dir path) ''tmp-checkpoint-'' w = (Ok tmp, w1)"
    and body: "with_close tmp (write_body path enc cp tmp) w1 = (Ok (), w')"
    unfolding writeCheckpoint_eq by (auto elim!: call_OkE)
  obtain w2 where w2: "write_body path enc cp tmp w1 = (Ok (), w2)" "files w' = files w2"
    using with_close_result [OF body] by blast
  obtain a where "fmlookup (files w) (elems tmp) = None" "files w1 = fmupd (elems tmp) (File a []) (files w)"
    using os_CreateTemp_result [OF mk] by auto
  then show ?thesis
    using write_body_Ok_only [OF w2(1) _ assms(2)] w2(2) by auto
qed

text \<open>Whatever happens in a write, beside the checkpoint only its own temporary file, a new one, may appear.\<close>

lemma writeCheckpoint_others:
  assumes "checkpoint_path path" "writeCheckpoint path enc cp w = (r, w')"
  shows "\<exists>n. \<forall>q. q \<noteq> elems path \<longrightarrow> fmlookup (files w') q = fmlookup (files w) q
    \<or> q = butlast (elems path) @ [''tmp-checkpoint-'' @ Itoa n] \<and> fmlookup (files w) q = None"
proof -
  obtain r1 w1 where mk: "os_CreateTemp (filepath_Dir path) ''tmp-checkpoint-'' w = (r1, w1)"
    by fastforce
  from os_CreateTemp_result [OF mk] show ?thesis
  proof (elim disjE exE conjE)
    fix n a
    let ?tmp = "tmp_file_name (filepath_Dir path) ''tmp-checkpoint-'' n"
    assume r1: "r1 = Ok ?tmp" and fresh: "fmlookup (files w) (elems ?tmp) = None"
      and w1: "files w1 = fmupd (elems ?tmp) (File a []) (files w)"
    have tmp: "elems ?tmp = butlast (elems path) @ [''tmp-checkpoint-'' @ Itoa n]"
      using assms(1) by (simp add: elems_tmp_file_name checkpoint_path_def)
    from assms(2) have "with_close ?tmp (write_body path enc cp ?tmp) w1 = (r, w')"
      by (simp add: writeCheckpoint_eq effect_simps mk r1)
    moreover have "steps_in (touches (\<lambda>p. p = elems ?tmp \<or> p = elems path))
        (with_close ?tmp (write_body path enc cp ?tmp) :: ('a, unit) io)"
      by (intro touches_with_close touches_write_body) simp_all
    ultimately have "touches (\<lambda>p. p = elems ?tmp \<or> p = elems path) w1 w'"
      by (blast intro: steps_inD)
    then have "\<forall>q. q \<noteq> elems path \<and> q \<noteq> elems ?tmp \<longrightarrow> fmlookup (files w') q = fmlookup (files w) q"
      using w1 by (simp add: touches_def)
    with fresh have "\<forall>q. q \<noteq> elems path \<longrightarrow> fmlookup (files w') q = fmlookup (files w) q
        \<or> q = elems ?tmp \<and> fmlookup (files w) q = None"
      by metis
    then show ?thesis unfolding tmp by blast
  next
    assume "\<forall>s. r1 \<noteq> Ok s" "files w1 = files w"
    with assms(2) mk show ?thesis
      by (cases r1) (auto simp: writeCheckpoint_eq effect_simps)
  qed
qed

section \<open>Writing in a calm world\<close>

text \<open>The names that the environment gives to temporary files from now on are not taken.\<close>

definition tmp_free :: "string \<Rightarrow> 'x world \<Rightarrow> bool" where
  "tmp_free path w \<longleftrightarrow> (\<forall>n. ticks w \<le> n \<longrightarrow>
    fmlookup (files w) (butlast (elems path) @ [''tmp-checkpoint-'' @ Itoa (tmp_number (env w) n)]) = None)"

lemma writeCheckpoint_calm:
  assumes "calm w" "checkpoint_path path" "enc cp = Inr s" "tmp_free path w"
    and "is_dir (files w) (butlast (elems path))" "\<not> is_dir (files w) (elems path)"
  shows "\<exists>w'. writeCheckpoint path enc cp w = (Ok (), w') \<and> calm w'"
proof -
  let ?tmp = "tmp_file_name (filepath_Dir path) ''tmp-checkpoint-'' (tmp_number (env w) (ticks w))"
  have tmp: "elems ?tmp = butlast (elems path) @ [''tmp-checkpoint-'' @ Itoa (tmp_number (env w) (ticks w))]"
    using assms(2) by (simp add: elems_tmp_file_name checkpoint_path_def)
  let ?w1 = "set_files (fmupd (elems ?tmp) (File (new_attrs w 384) []) (files w)) (tick w)"
  have mk: "os_CreateTemp (filepath_Dir path) ''tmp-checkpoint-'' w = (Ok ?tmp, ?w1)"
    using assms(1,4,5) tmp by (simp add: os_CreateTemp_def Let_def tmp_free_def)
  have ne: "elems ?tmp \<noteq> elems path" "elems ?tmp \<noteq> []" "butlast (elems path) \<noteq> elems ?tmp"
    using elems_tmp_store_path(2) [OF assms(2)] tmp by auto
  show ?thesis
    using assms(1,3,5,6) mk ne
    by (simp add: writeCheckpoint_eq write_body_def with_close_def effect_simps file_write_def
        file_sync_def file_close_def os_Rename_def append_file_def is_dir_fmupd_File)
qed

section \<open>The store the driver relies on\<close>

text \<open>
  \<open>load\<close> and \<open>save\<close> are the operations the driver calls, \<open>claims\<close> is what the
  store holds (\<open>None\<close> when it cannot be read), \<open>own\<close> are the paths that only the store
  writes, and \<open>usable\<close> is the condition on the configuration under which it works.
\<close>

locale checkpoint_store =
  fixes load :: "('x, Checkpoint) io"
    and save :: "Checkpoint \<Rightarrow> ('x, unit) io"
    and claims :: "'x world \<Rightarrow> PreparedClaim list option"
    and own :: "path \<Rightarrow> bool"
    and usable :: bool
  assumes load_claims: "load w = (Ok c, w') \<Longrightarrow> claims w = Some (PreparedClaims c)"
    and load_pure: "steps_in (touches (\<lambda>_. False)) load"
    and load_ext: "steps_in keeps_ext load"
    and save_claims: "usable \<Longrightarrow> save c w = (r, w') \<Longrightarrow>
      r \<noteq> Ok () \<and> claims w' = claims w \<or> claims w' = Some (PreparedClaims c)"
    and save_own: "usable \<Longrightarrow> steps_in (touches own) (save c)"
    and save_ext: "steps_in keeps_ext (save c)"
    and claims_own: "usable \<Longrightarrow> (\<And>p. own p \<Longrightarrow> fmlookup (files w') p = fmlookup (files w) p)
      \<Longrightarrow> claims w' = claims w"
begin

lemma load_keeps: "usable \<Longrightarrow> load w = (r, w') \<Longrightarrow> claims w' = claims w"
  using steps_inD [OF load_pure] by (metis claims_own touches_lookup)

lemma others_keep:
  assumes "usable" "steps_in (touches P) m" "\<And>p. own p \<Longrightarrow> \<not> P p" "m w = (r, w')"
  shows "claims w' = claims w"
  using assms(1)
proof (rule claims_own)
  fix p
  assume "own p"
  with assms(3) steps_inD [OF assms(2,4)] show "fmlookup (files w') p = fmlookup (files w) p"
    by (auto dest: touches_lookup)
qed

lemma save_Ok: "usable \<Longrightarrow> save c w = (Ok u, w') \<Longrightarrow> claims w' = Some (PreparedClaims c)"
  by (drule (1) save_claims) auto

text \<open>
  A transaction: load, do something elsewhere, save a changed checkpoint. Whatever happens, the
  store then holds what it held before or the change, and a return without error means the
  change.
\<close>

lemma transaction:
  assumes usable
    and "call mid (\<lambda>x. call (wrap h (save c)) (\<lambda>_. ok (g x))) w = (r, w')"
    and "steps_in (touches P) mid" "\<And>p. own p \<Longrightarrow> \<not> P p"
  shows "claims w' = claims w \<and> (\<forall>y. r \<noteq> Ok y) \<or> claims w' = Some (PreparedClaims c)"
proof -
  obtain r1 w1 where mid: "mid w = (r1, w1)" by fastforce
  have w1: "claims w1 = claims w"
    using assms(1,3,4) mid by (rule others_keep)
  obtain r2 w2 where save: "save c w1 = (r2, w2)" by fastforce
  from save_claims [OF assms(1) save] w1 assms(2) mid save show ?thesis
    by (cases r1; cases r2) (auto simp: effect_simps)
qed

end

lemma stored_after_write:
  assumes "checkpoint_path path" "faithful dec enc" "writeCheckpoint path enc cp w = (r, w')"
  shows "r \<noteq> Ok () \<and> stored_claims dec path w' = stored_claims dec path w
    \<or> stored_claims dec path w' = Some (PreparedClaims cp)"
  using writeCheckpoint_result [OF assms(1,3)]
proof
  assume "\<exists>a s. enc cp = Inr s \<and> fmlookup (files w') (elems path) = Some (File a s)"
  then obtain a s where s: "enc cp = Inr s" "fmlookup (files w') (elems path) = Some (File a s)"
    by blast
  with assms(2) have "dec s new_Checkpoint = Inr (new_Checkpoint\<lparr>PreparedClaims := PreparedClaims cp\<rparr>)"
    unfolding faithful_def by (metis sum.inject(2))
  with s show ?thesis
    by (simp add: stored_claims_def)
qed (auto intro: stored_claims_local)

lemma keeps_ext_writeCheckpoint [effect_rules]:
  "steps_in keeps_ext (writeCheckpoint path enc cp)"
  unfolding writeCheckpoint_eq write_body_def
  by (intro kext.in_call kext.in_wrap keeps_ext_with_close keeps_ext_os keeps_ext_os_CreateTemp
      kext.in_lift_result)

interpretation file_store: checkpoint_store
  "readCheckpoint path dec" "writeCheckpoint path enc" "stored_claims dec path" "store_path path"
  "checkpoint_path path \<and> faithful dec enc" for path dec enc
proof unfold_locales
  show "stored_claims dec path w = Some (PreparedClaims c)"
    if "readCheckpoint path dec w = (Ok c, w')" for w w' :: "'x world" and c
    using that by (rule readCheckpoint_Ok)
  show "stored_claims dec path w' = stored_claims dec path w"
    if "checkpoint_path path \<and> faithful dec enc"
      and "\<And>p. store_path path p \<Longrightarrow> fmlookup (files w') p = fmlookup (files w) p" for w w' :: "'x world"
    using that by (intro stored_claims_local) (blast intro: store_path_checkpoint)
qed (auto intro: effect_rules dest: stored_after_write)


section \<open>Properties\<close>

definition sample_path :: string where
  "sample_path = ''/var/lib/kubelet/plugins/network.example.com/checkpoint.json''"

definition sample_decoder :: decoder where
  "sample_decoder = fst (checkpointSerializer sample_codec)"

definition sample_encoder :: encoder where
  "sample_encoder = snd (checkpointSerializer sample_codec)"

lemma sample_faithful: "faithful sample_decoder sample_encoder"
  unfolding sample_decoder_def sample_encoder_def
  by (rule checkpointSerializer_faithful) (rule sample_codec_ok)

lemma elems_sample_path:
  "elems sample_path = [''var'', ''lib'', ''kubelet'', ''plugins'', ''network.example.com'', ''checkpoint.json'']"
  by (simp add: elems_def sample_path_def)

lemma sample_checkpoint_path: "checkpoint_path sample_path"
  by (simp add: checkpoint_path_def sample_path_def elems_def filepath_Dir_def Clean_def is_abs_def)

definition sample_claims :: Checkpoint where
  "sample_claims = new_Checkpoint\<lparr>PreparedClaims :=
    [new_PreparedClaim\<lparr>UID := ''123''\<rparr>, new_PreparedClaim\<lparr>UID := ''456''\<rparr>]\<rparr>"

text \<open>
  C4: Writing the checkpoint is atomic in every environment: whichever system call fails or is
  the one the process is killed in, the store then holds what it held before, or exactly the
  claims written, and no other path has changed but for one new temporary file beside the
  checkpoint, under a name that was not taken. If no error is returned, the store holds the claims
  written, and no path but the checkpoint's has changed, so that no temporary file is left.
\<close>

theorem checkpoint_write_atomic:
  assumes "checkpoint_path path" "faithful dec enc"
  shows "case writeCheckpoint path enc cp w of (r, w') \<Rightarrow>
    (case r of
       Ok u \<Rightarrow> stored_claims dec path w' = Some (PreparedClaims cp)
         \<and> (\<forall>q. q \<noteq> elems path \<longrightarrow> fmlookup (files w') q = fmlookup (files w) q)
     | _ \<Rightarrow> (stored_claims dec path w' = stored_claims dec path w
           \<or> stored_claims dec path w' = Some (PreparedClaims cp))
         \<and> (\<exists>n. \<forall>q. q \<noteq> elems path \<longrightarrow> fmlookup (files w') q = fmlookup (files w) q
             \<or> q = butlast (elems path) @ [''tmp-checkpoint-'' @ Itoa n]
               \<and> fmlookup (files w) q = None))"
proof -
  obtain r w' where run: "writeCheckpoint path enc cp w = (r, w')" by fastforce
  with stored_after_write [OF assms run] writeCheckpoint_others [OF assms(1) run] writeCheckpoint_Ok_only
  show ?thesis
    by (cases r) (simp_all add: writeCheckpoint_Ok_only)
qed

theorem checkpoint_write_atomic_witness:
  "case writeCheckpoint sample_path sample_encoder sample_claims (fresh_world ()) of (r, w') \<Rightarrow>
    stored_claims sample_decoder sample_path w' = stored_claims sample_decoder sample_path (fresh_world ())
    \<or> stored_claims sample_decoder sample_path w' = Some (PreparedClaims sample_claims)"
  using checkpoint_write_atomic [OF sample_checkpoint_path sample_faithful,
      where cp = sample_claims and w = "fresh_world ()"]
  by (auto split: prod.splits outcome.splits)

text \<open>
  C24: Round trip through the file: what \<open>writeCheckpoint\<close> wrote without an error,
  \<open>readCheckpoint\<close> returns, with empty type metadata.
\<close>

theorem checkpoint_read_back:
  assumes "checkpoint_path path" "faithful dec enc"
    and "writeCheckpoint path enc cp w = (Ok (), w')" "calm w'"
  shows "fst (readCheckpoint path dec w') = Ok (new_Checkpoint\<lparr>PreparedClaims := PreparedClaims cp\<rparr>)"
proof -
  from writeCheckpoint_result [OF assms(1,3)] obtain a s where
    s: "enc cp = Inr s" "fmlookup (files w') (elems path) = Some (File a s)" by auto
  with assms(2) have "dec s new_Checkpoint = Inr (new_Checkpoint\<lparr>PreparedClaims := PreparedClaims cp\<rparr>)"
    unfolding faithful_def by (metis sum.inject(2))
  with s assms(4) show ?thesis
    by (simp add: readCheckpoint_def effect_simps os_ReadFile_calm)
qed

theorem checkpoint_read_back_witness:
  "fst (readCheckpoint sample_path sample_decoder
      (snd (writeCheckpoint sample_path sample_encoder sample_claims
        (world_with_dirs [butlast (elems sample_path)] ()))))
    = Ok sample_claims"
proof -
  let ?w = "world_with_dirs [butlast (elems sample_path)] ()"
  obtain s where s: "sample_encoder sample_claims = Inr s"
    using sample_faithful by (auto simp: faithful_def)
  have "\<exists>w'. writeCheckpoint sample_path sample_encoder sample_claims ?w = (Ok (), w') \<and> calm w'"
    by (rule writeCheckpoint_calm [where s = s])
      (auto simp: s sample_checkpoint_path tmp_free_def is_dir_iff elems_sample_path)
  then obtain w' where w': "writeCheckpoint sample_path sample_encoder sample_claims ?w = (Ok (), w')" "calm w'"
    by blast
  show ?thesis
    using checkpoint_read_back [OF sample_checkpoint_path sample_faithful w'] w'(1)
    by (simp add: sample_claims_def)
qed

text \<open>
  The branches of \<open>readCheckpoint\<close> when the read is not disturbed: no file gives an
  empty checkpoint and no error; a directory and a text that does not decode give errors.
\<close>

lemma readCheckpoint_branches:
  assumes "calm w" "elems path \<noteq> []"
  shows "fst (readCheckpoint path dec w) =
    (case fmlookup (files w) (elems path) of
       None \<Rightarrow> Ok new_Checkpoint
     | Some (Dir a) \<Rightarrow> Err (PathError ''read'' path EISDIR)
     | Some (File a d) \<Rightarrow>
        (case dec d new_Checkpoint of
           Inl e \<Rightarrow> Err (Wrapf (''unmarshal JSON from '' @ path) e)
         | Inr c \<Rightarrow> Ok c))"
  using assms
  by (auto simp: readCheckpoint_def effect_simps os_ReadFile_def ErrNotExist_def
      split: option.splits node.splits sum.splits)

end
