(* ===== verification/Resource_API.thy ===== *)
theory Resource_API
  imports Go_OS "HOL-Library.List_Lexorder" "HOL-Library.Char_ord"
begin

text \<open>
  The Kubernetes and CDI types that the source reads and builds, with the fields it uses: the
  allocation of a ResourceClaim (\<open>resource.k8s.io/v1\<close>), the devices a driver advertises,
  the devices it reports as prepared, and the edits and specs of the Container Device
  Interface. A pointer that may be nil is an \<open>option\<close>.
\<close>

section \<open>ResourceClaims\<close>

record DeviceRequestAllocationResult =
  Request :: string
  Driver :: string
  Pool :: string
  Device :: string
  AdminAccess :: "bool option"

record OpaqueDeviceConfiguration =
  opaque_Driver :: string
  Parameters_Raw :: string

datatype AllocationConfigSource = FromClass | FromClaim | OtherSource string

text \<open>
  What is printed of a source, and the order in which the driver considers the configurations:
  those of the class come before those of the claim.
\<close>

fun source_text :: "AllocationConfigSource \<Rightarrow> string" where
  "source_text FromClass = ''FromClass''"
| "source_text FromClaim = ''FromClaim''"
| "source_text (OtherSource s) = s"

instantiation AllocationConfigSource :: linorder
begin

fun less_eq_AllocationConfigSource :: "AllocationConfigSource \<Rightarrow> AllocationConfigSource \<Rightarrow> bool" where
  "FromClass \<le> b \<longleftrightarrow> True"
| "FromClaim \<le> b \<longleftrightarrow> b \<noteq> FromClass"
| "OtherSource s \<le> b \<longleftrightarrow> (case b of OtherSource t \<Rightarrow> s \<le> t | _ \<Rightarrow> False)"

definition less_AllocationConfigSource :: "AllocationConfigSource \<Rightarrow> AllocationConfigSource \<Rightarrow> bool" where
  "a < b \<longleftrightarrow> a \<le> b \<and> \<not> b \<le> (a :: AllocationConfigSource)"

instance
proof
  fix a b c :: AllocationConfigSource
  show "a < b \<longleftrightarrow> a \<le> b \<and> \<not> b \<le> a"
    by (rule less_AllocationConfigSource_def)
  show "a \<le> a"
    by (cases a) simp_all
  show "a \<le> b \<Longrightarrow> b \<le> c \<Longrightarrow> a \<le> c"
    by (cases a; cases b; cases c) auto
  show "a \<le> b \<Longrightarrow> b \<le> a \<Longrightarrow> a = b"
    by (cases a; cases b) auto
  show "a \<le> b \<or> b \<le> a"
    by (cases a; cases b) auto
qed

end

record DeviceAllocationConfiguration =
  Source :: AllocationConfigSource
  Requests :: "string list"
  Opaque :: "OpaqueDeviceConfiguration option"

record AllocationResult =
  Results :: "DeviceRequestAllocationResult list"
  Config :: "DeviceAllocationConfiguration list"

record AllocatedDeviceStatus =
  status_Driver :: string
  status_Pool :: string
  status_Device :: string
  status_Data :: string

record ResourceClaim =
  claim_UID :: string
  claim_Name :: string
  claim_Namespace :: string
  Allocation :: "AllocationResult option"
  Status_Devices :: "AllocatedDeviceStatus list"

section \<open>Devices\<close>

record DeviceAttribute =
  IntValue :: "int option"
  StringValue :: "string option"

record AdvertisedDevice =
  device_Name :: string
  Attributes :: "(string, DeviceAttribute) fmap"

record Slice =
  slice_Devices :: "AdvertisedDevice list"

record Pool_of_slices =
  Slices :: "Slice list"

record DriverResources =
  Pools :: "(string, Pool_of_slices) fmap"

type_synonym AllocatableDevices = "(string, AdvertisedDevice) fmap"

text \<open>The device of the kubelet's gRPC interface (\<open>drapbv1.Device\<close>).\<close>

record pb_Device =
  RequestNames :: "string list"
  PoolName :: string
  DeviceName :: string
  CdiDeviceIds :: "string list"

section \<open>The Container Device Interface\<close>

record Mount =
  HostPath :: string
  ContainerPath :: string
  Options :: "string list"

record ContainerEdits =
  Env :: "string list"
  Mounts :: "Mount list"

record CDIDevice =
  cdi_Name :: string
  cdi_ContainerEdits :: ContainerEdits

record Spec =
  Version :: string
  spec_Kind :: string
  spec_Devices :: "CDIDevice list"

type_synonym PerDeviceCDIContainerEdits = "(string, ContainerEdits) fmap"

end
