(* ===== verification/Profiles.thy ===== *)
theory Profiles
  imports Resource_API
begin

text \<open>
  The interface between the driver and a device profile (\<open>internal/profiles\<close>): a
  configuration handler, optionally a builder of device statuses, and the enumeration of the
  devices. The locale \<open>config_handler\<close> states what the driver relies on, the handler
  \<open>NoopConfigHandler\<close> is its first instance; the locale \<open>device_profile\<close> extends it by the devices. Opaque configuration objects have the type
  \<open>'o\<close>; a nil object is \<open>None\<close>.
\<close>

section \<open>The interface\<close>

text \<open>A scheme builder is the list of the registration functions it holds, by name.\<close>

type_synonym SchemeBuilder = "string list"

type_synonym DeviceStatusBuilder =
  "AllocatableDevices \<Rightarrow> DeviceRequestAllocationResult \<Rightarrow> AllocatedDeviceStatus option"

record 'o ConfigHandler =
  SchemeBuilder :: SchemeBuilder
  Validate :: "'o option \<Rightarrow> go_error option"
  ApplyConfig :: "string \<Rightarrow> 'o option \<Rightarrow> DeviceRequestAllocationResult list
    \<Rightarrow> go_error + PerDeviceCDIContainerEdits"
  BuildDeviceStatus :: "DeviceStatusBuilder option"

record ('x, 'o) Profile = "'o ConfigHandler" +
  EnumerateDevices :: "('x, DriverResources) io"

text \<open>
  \<open>apply_config\<close> is \<open>ApplyConfig\<close>, \<open>validate\<close> is \<open>Validate\<close>. A handler makes edits
  for the devices of the results it is given and for no others, it always accepts the default
  (nil) configuration, and it accepts what it declared valid.
\<close>

locale config_handler =
  fixes validate :: "'o option \<Rightarrow> go_error option"
    and apply_config :: "string \<Rightarrow> 'o option \<Rightarrow> DeviceRequestAllocationResult list
      \<Rightarrow> go_error + PerDeviceCDIContainerEdits"
  assumes edits_of_results: "apply_config name cfg rs = Inr e \<Longrightarrow> fmdom' e \<subseteq> Device ` set rs"
    and default_applies: "\<exists>e. apply_config name None rs = Inr e"
    and valid_applies: "validate cfg = None \<Longrightarrow> \<exists>e. apply_config name cfg rs = Inr e"

text \<open>
  A profile is a handler (which Go's interface \<open>Profile\<close> embeds) that also enumerates devices: for
  the node that the driver runs on, with no two devices of one name.
\<close>

definition advertised :: "DriverResources \<Rightarrow> string \<Rightarrow> AdvertisedDevice list" where
  "advertised resources node =
    (case fmlookup (Pools resources) node of None \<Rightarrow> [] | Some pool \<Rightarrow> concat (map slice_Devices (Slices pool)))"

locale device_profile = config_handler validate apply_config
  for validate :: "'o option \<Rightarrow> go_error option"
    and apply_config :: "string \<Rightarrow> 'o option \<Rightarrow> DeviceRequestAllocationResult list
      \<Rightarrow> go_error + PerDeviceCDIContainerEdits" +
  fixes enumerate_devices :: "('x, DriverResources) io" and node :: string
  assumes names_distinct: "enumerate_devices w = (Ok r, w') \<Longrightarrow> distinct (map device_Name (advertised r node))"

section \<open>NoopConfigHandler\<close>

definition Noop_ApplyConfig :: "string \<Rightarrow> 'o option \<Rightarrow> DeviceRequestAllocationResult list
    \<Rightarrow> go_error + PerDeviceCDIContainerEdits" where
  "Noop_ApplyConfig claimName config results =
    (if config \<noteq> None then Inl (ErrorString ''configuration not allowed'') else Inr fmempty)"

definition Noop_SchemeBuilder :: SchemeBuilder where
  "Noop_SchemeBuilder = []"

definition Noop_Validate :: "'o option \<Rightarrow> go_error option" where
  "Noop_Validate config = Some (ErrorString ''configuration not allowed'')"

definition NoopConfigHandler :: "'o ConfigHandler" where
  "NoopConfigHandler = \<lparr>SchemeBuilder = Noop_SchemeBuilder, Validate = Noop_Validate,
    ApplyConfig = Noop_ApplyConfig, BuildDeviceStatus = None\<rparr>"

interpretation noop: config_handler Noop_Validate Noop_ApplyConfig
  by unfold_locales (auto simp: Noop_ApplyConfig_def Noop_Validate_def split: if_splits)

end
