(* ===== verification/Libraries.thy ===== *)
theory Libraries
  imports Checkpoint_File Profiles
begin

text \<open>
  The third-party functions that the driver calls, as the record \<open>libraries\<close> that its
  operations take: the CDI cache, SELinux labels, the API machinery and the API server. A
  function that changes state outside the process takes that state, of type \<open>'x\<close>, and
  returns it; opaque configuration objects have the type \<open>'o\<close>. \<open>cdi_laws\<close> says what
  is relied on of the CDI package; nothing is relied on of the others.
\<close>

section \<open>The functions\<close>

record ('x, 'o) libraries =
  cdi_NewCache :: "string \<Rightarrow> 'x \<Rightarrow> go_error option \<times> 'x"
  cdi_WriteSpec :: "string \<Rightarrow> Spec \<Rightarrow> string \<Rightarrow> 'x \<Rightarrow> go_error option \<times> 'x"
  cdi_RemoveSpec :: "string \<Rightarrow> string \<Rightarrow> 'x \<Rightarrow> go_error option \<times> 'x"
  cdi_GenerateTransientSpecName :: "string \<Rightarrow> string \<Rightarrow> string \<Rightarrow> string"
  cdi_GenerateNameForTransientSpec :: "Spec \<Rightarrow> string \<Rightarrow> go_error + string"
  cdi_MinimumRequiredVersion :: "Spec \<Rightarrow> go_error + string"
  cdi_QualifiedName :: "string \<Rightarrow> string \<Rightarrow> string \<Rightarrow> string"
  cdi_Append :: "ContainerEdits \<Rightarrow> ContainerEdits option \<Rightarrow> ContainerEdits"
  selinux_SetFileLabel :: "string \<Rightarrow> string \<Rightarrow> 'x \<Rightarrow> go_error option \<times> 'x"
  scheme_AddToScheme :: "SchemeBuilder \<Rightarrow> go_error option"
  config_Decode :: "SchemeBuilder \<Rightarrow> string \<Rightarrow> go_error + 'o"
  claims_Get :: "string \<Rightarrow> string \<Rightarrow> 'x \<Rightarrow> (go_error + ResourceClaim) \<times> 'x"
  claims_UpdateStatus :: "string \<Rightarrow> ResourceClaim \<Rightarrow> 'x \<Rightarrow> go_error option \<times> 'x"
  RetryOnConflict :: "('x \<Rightarrow> go_error option \<times> 'x) \<Rightarrow> 'x \<Rightarrow> go_error option \<times> 'x"
  checkpoint_codec :: codec

text \<open>A call whose only result is an error or nil.\<close>

definition extern_err :: "('x \<Rightarrow> go_error option \<times> 'x) \<Rightarrow> ('x, unit) io" where
  "extern_err f = call (extern f) (\<lambda>r. case r of None \<Rightarrow> ok () | Some e \<Rightarrow> fail e)"

definition os_Getenv :: "string \<Rightarrow> ('x, string) io" where
  "os_Getenv key = (\<lambda>w. (Ok (getenv (env w) key), w))"

text \<open>The verb \<open>%t\<close>.\<close>

definition format_bool :: "bool \<Rightarrow> string" where
  "format_bool b = (if b then ''true'' else ''false'')"

lemma touches_extern_err [effect_rules]: "steps_in (touches P) (extern_err f)"
  unfolding extern_err_def
  by (rule touch.in_call [OF touches_extern]) (auto intro: touch.in_rules split: option.splits)

lemma touches_os_Getenv [effect_rules]: "steps_in (touches P) (os_Getenv key)"
  by (simp add: steps_in_def os_Getenv_def)

lemma extern_files: "files (snd (extern f w)) = files w"
  by (simp add: extern_def split: prod.splits)

lemma extern_err_files: "files (snd (extern_err f w)) = files w"
  using touches_extern_err [of "\<lambda>_. False" f]
  by (auto simp: steps_in_def touches_def intro: fmap_ext)

lemma extern_err_ext:
  "extern_err f w = (r, w') \<Longrightarrow> r = Ok () \<and> f (ext w) = (None, ext w')
    \<or> (\<exists>e. r = Err e \<and> f (ext w) = (Some e, ext w')) \<or> r = Abort Killed \<and> ext w' = ext w"
  by (auto simp: extern_err_def effect_simps extern_def split: if_splits prod.splits option.splits)

lemma extern_err_calm:
  "calm w \<Longrightarrow> extern_err f w
    = ((case fst (f (ext w)) of None \<Rightarrow> Ok () | Some e \<Rightarrow> Err e), tick (w\<lparr>ext := snd (f (ext w))\<rparr>))"
  by (simp add: extern_err_def effect_simps split: option.splits)

section \<open>What is relied on of the CDI package\<close>

text \<open>
  \<open>specs x c n\<close> is the spec that the cache over directory \<open>c\<close> holds under the name \<open>n\<close>.
  Writing without an error stores the spec, removing without an error (which includes that
  there is none) leaves none, neither touches another name; edits are appended to the lists;
  transient names are distinct for distinct identifiers without a slash.
\<close>

definition cdi_laws :: "('x, 'o) libraries \<Rightarrow> ('x \<Rightarrow> string \<Rightarrow> string \<Rightarrow> Spec option) \<Rightarrow> bool" where
  "cdi_laws lib specs \<longleftrightarrow>
    (\<forall>c s n x. fst (cdi_WriteSpec lib c s n x) = None
      \<longrightarrow> specs (snd (cdi_WriteSpec lib c s n x)) c n = Some s)
    \<and> (\<forall>c s n x c' n'. (c', n') \<noteq> (c, n)
      \<longrightarrow> specs (snd (cdi_WriteSpec lib c s n x)) c' n' = specs x c' n')
    \<and> (\<forall>c n x. fst (cdi_RemoveSpec lib c n x) = None
      \<longrightarrow> specs (snd (cdi_RemoveSpec lib c n x)) c n = None)
    \<and> (\<forall>c n x c' n'. (c', n') \<noteq> (c, n)
      \<longrightarrow> specs (snd (cdi_RemoveSpec lib c n x)) c' n' = specs x c' n')
    \<and> (\<forall>e. cdi_Append lib e None = e)
    \<and> (\<forall>e e'. cdi_Append lib e (Some e') = \<lparr>Env = Env e @ Env e', Mounts = Mounts e @ Mounts e'\<rparr>)
    \<and> (\<forall>v c. inj_on (cdi_GenerateTransientSpecName lib v c) {u. CHR ''/'' \<notin> set u})"

text \<open>
  What else is relied on where claims share a node: opening the cache and labelling a file leave the
  specs, and the name generated for a spec is the one of its vendor, its class and the identifier.
\<close>

definition cdi_frame :: "('x, 'o) libraries \<Rightarrow> ('x \<Rightarrow> string \<Rightarrow> string \<Rightarrow> Spec option) \<Rightarrow> bool" where
  "cdi_frame lib specs \<longleftrightarrow>
    (\<forall>root x. specs (snd (cdi_NewCache lib root x)) = specs x)
    \<and> (\<forall>p l x. specs (snd (selinux_SetFileLabel lib p l x)) = specs x)
    \<and> (\<forall>s v c u n. CHR ''/'' \<notin> set v \<and> spec_Kind s = v @ ''/'' @ c
        \<and> cdi_GenerateNameForTransientSpec lib s u = Inr n \<longrightarrow> n = cdi_GenerateTransientSpecName lib v c u)"

lemma cdi_laws_write:
  assumes "cdi_laws lib specs" "cdi_WriteSpec lib c s n x = (r, x')"
  shows "r = None \<Longrightarrow> specs x' c n = Some s" "(c', n') \<noteq> (c, n) \<Longrightarrow> specs x' c' n' = specs x c' n'"
  using assms unfolding cdi_laws_def by (metis fst_conv snd_conv)+

lemma cdi_laws_remove:
  assumes "cdi_laws lib specs" "cdi_RemoveSpec lib c n x = (r, x')"
  shows "r = None \<Longrightarrow> specs x' c n = None" "(c', n') \<noteq> (c, n) \<Longrightarrow> specs x' c' n' = specs x c' n'"
  using assms unfolding cdi_laws_def by (metis fst_conv snd_conv)+

lemma cdi_laws_append:
  assumes "cdi_laws lib specs"
  shows "cdi_Append lib e None = e"
    and "cdi_Append lib e (Some e') = \<lparr>Env = Env e @ Env e', Mounts = Mounts e @ Mounts e'\<rparr>"
  using assms by (simp_all add: cdi_laws_def)

lemma cdi_laws_names:
  assumes "cdi_laws lib specs" "CHR ''/'' \<notin> set u" "CHR ''/'' \<notin> set u'" "u \<noteq> u'"
  shows "cdi_GenerateTransientSpecName lib v c u \<noteq> cdi_GenerateTransientSpecName lib v c u'"
  using assms by (auto simp: cdi_laws_def inj_on_def)

section \<open>An instance for the examples\<close>

text \<open>
  A node whose third-party state is the specs of the CDI directory, the labels given to files
  and the claims of the API server.
\<close>

record sample_ext =
  cdi_specs :: "(string \<times> string, Spec) fmap"
  labels :: "(string, string) fmap"
  api_claims :: "(string, ResourceClaim) fmap"

definition empty_ext :: sample_ext where
  "empty_ext = \<lparr>cdi_specs = fmempty, labels = fmempty, api_claims = fmempty\<rparr>"

definition sample_specs :: "sample_ext \<Rightarrow> string \<Rightarrow> string \<Rightarrow> Spec option" where
  "sample_specs x c n = fmlookup (cdi_specs x) (c, n)"

definition sample_libraries :: "(sample_ext, string) libraries" where
  "sample_libraries =
    \<lparr>cdi_NewCache = (\<lambda>root x. (None, x)),
     cdi_WriteSpec = (\<lambda>c s n x. (None, x\<lparr>cdi_specs := fmupd (c, n) s (cdi_specs x)\<rparr>)),
     cdi_RemoveSpec = (\<lambda>c n x. (None, x\<lparr>cdi_specs := fmdrop (c, n) (cdi_specs x)\<rparr>)),
     cdi_GenerateTransientSpecName = (\<lambda>v c u. v @ ''-'' @ c @ ''_'' @ u),
     cdi_GenerateNameForTransientSpec = (\<lambda>s u. Inr (takeWhile (\<lambda>c. c \<noteq> CHR ''/'') (spec_Kind s)
       @ ''-'' @ drop 1 (dropWhile (\<lambda>c. c \<noteq> CHR ''/'') (spec_Kind s)) @ ''_'' @ u)),
     cdi_MinimumRequiredVersion = (\<lambda>s. Inr ''0.3.0''),
     cdi_QualifiedName = (\<lambda>v c d. v @ ''/'' @ c @ ''='' @ d),
     cdi_Append = (\<lambda>e oe. case oe of None \<Rightarrow> e
       | Some e' \<Rightarrow> \<lparr>Env = Env e @ Env e', Mounts = Mounts e @ Mounts e'\<rparr>),
     selinux_SetFileLabel = (\<lambda>p l x. (None, x\<lparr>labels := fmupd p l (labels x)\<rparr>)),
     scheme_AddToScheme = (\<lambda>sb. None),
     config_Decode = (\<lambda>sb raw. if raw = [] then Inl (Ext ''empty'') else Inr raw),
     claims_Get = (\<lambda>ns n x. (case fmlookup (api_claims x) (ns @ ''/'' @ n) of
       None \<Rightarrow> Inl (Ext ''not found'') | Some c \<Rightarrow> Inr c, x)),
     claims_UpdateStatus = (\<lambda>ns c x. (None, x\<lparr>api_claims := fmupd (ns @ ''/'' @ claim_Name c) c (api_claims x)\<rparr>)),
     RetryOnConflict = (\<lambda>f. f),
     checkpoint_codec = sample_codec\<rparr>"

lemma sample_cdi_laws: "cdi_laws sample_libraries sample_specs"
  unfolding cdi_laws_def
  by (intro conjI) (auto simp: sample_libraries_def sample_specs_def inj_on_def)

lemma sample_cdi_frame: "cdi_frame sample_libraries sample_specs"
proof -
  note sep = takeWhile_until [of "CHR ''/''"] dropWhile_until [of "CHR ''/''"]
  show ?thesis
    unfolding cdi_frame_def by (intro conjI) (auto simp: sample_libraries_def sample_specs_def fun_eq_iff sep)
qed

end
