(* ===== verification/Network_Profile.thy ===== *)
theory Network_Profile
  imports Profiles Claim_Names
begin

text \<open>
  The network profile (\<open>internal/profiles/network/network.go\<close>): the devices it
  advertises, and the mounts and variables it gives to the containers of a claim. The lemmas
  say that the advertised names are distinct and which they are, and which edits a device gets;
  the profile is an instance of \<open>config_handler\<close>.
\<close>

section \<open>The profile\<close>

record NetworkProfile =
  nodeName :: string
  numDevices :: int

definition NewProfile :: "string \<Rightarrow> int \<Rightarrow> NetworkProfile" where
  "NewProfile node num = \<lparr>nodeName = node, numDevices = num\<rparr>"

definition ProfileName :: string where
  "ProfileName = ''network''"

definition HostBaseDir :: string where
  "HostBaseDir = ''/var/run/kubevirt/cdi''"

definition ContainerMountPath :: string where
  "ContainerMountPath = ''/var/run/kubevirt/cdi''"

definition network_device_name :: "nat \<Rightarrow> string" where
  "network_device_name i = ''network-'' @ Itoa i"

definition network_device :: "nat \<Rightarrow> AdvertisedDevice" where
  "network_device i =
    \<lparr>device_Name = network_device_name i,
     Attributes = fmap_of_list
       [(''index'', \<lparr>IntValue = Some (int i), StringValue = None\<rparr>),
        (''type'', \<lparr>IntValue = None, StringValue = Some ''kubevirt-network-directory''\<rparr>)]\<rparr>"

text \<open>The loop \<open>for i := 0; i < p.numDevices; i++\<close> that appends the devices.\<close>

fun enumerate_from :: "nat \<Rightarrow> nat \<Rightarrow> AdvertisedDevice list \<Rightarrow> AdvertisedDevice list" where
  "enumerate_from i 0 devices = devices"
| "enumerate_from i (Suc left) devices = enumerate_from (Suc i) left (devices @ [network_device i])"

definition network_EnumerateDevices :: "NetworkProfile \<Rightarrow> ('x, DriverResources) io" where
  "network_EnumerateDevices p =
    call (wrap (Wrapf (''failed to create base directory '' @ HostBaseDir)) (os_MkdirAll HostBaseDir 493))
    (\<lambda>_. let devices = enumerate_from 0 (nat (numDevices p)) [] in
      ok \<lparr>Pools = fmap_of_list [(nodeName p, \<lparr>Slices = [\<lparr>slice_Devices = devices\<rparr>]\<rparr>)]\<rparr>)"

definition network_SchemeBuilder :: SchemeBuilder where
  "network_SchemeBuilder = []"

definition network_Validate :: "'o option \<Rightarrow> go_error option" where
  "network_Validate config =
    (if config \<noteq> None then Some (ErrorString ''configuration not supported for network profile'') else None)"

definition network_edits :: "string \<Rightarrow> DeviceRequestAllocationResult \<Rightarrow> ContainerEdits" where
  "network_edits stableClaimName result =
    (let claimDir = filepath_Join [HostBaseDir, stableClaimName, Request result] in
     \<lparr>Env = [''KUBEVIRT_NETWORK_DEVICE='' @ Device result,
             ''KUBEVIRT_NETWORK_PATH='' @ claimDir,
             ''KUBEVIRT_NETWORK_REQUEST='' @ Request result],
      Mounts = [\<lparr>HostPath = claimDir, ContainerPath = claimDir, Options = [''rbind'', ''z'']\<rparr>]\<rparr>)"

definition network_ApplyConfig :: "string \<Rightarrow> 'o option \<Rightarrow> DeviceRequestAllocationResult list
    \<Rightarrow> go_error + PerDeviceCDIContainerEdits" where
  "network_ApplyConfig claimName config results =
    (let stableClaimName = network_extractStableClaimName claimName in
     Inr (fold (\<lambda>result. fmupd (Device result) (network_edits stableClaimName result)) results fmempty))"

definition network_handler :: "'o ConfigHandler" where
  "network_handler = \<lparr>SchemeBuilder = network_SchemeBuilder, Validate = network_Validate,
    ApplyConfig = network_ApplyConfig, BuildDeviceStatus = None\<rparr>"

definition network_Profile :: "NetworkProfile \<Rightarrow> ('x, 'o) Profile" where
  "network_Profile p = ConfigHandler.extend network_handler
    \<lparr>EnumerateDevices = network_EnumerateDevices p\<rparr>"

text \<open>Two exported helpers that the driver does not call (its own copies differ).\<close>

definition network_CreateClaimDirectory :: "string \<Rightarrow> string \<Rightarrow> string \<Rightarrow> ('x, string) io" where
  "network_CreateClaimDirectory claimName requestName deviceName =
    (let claimDir = filepath_Join [HostBaseDir, claimName, requestName, deviceName] in
     call (wrap (Wrapf (''failed to create claim directory '' @ claimDir)) (os_MkdirAll claimDir 493))
     (\<lambda>_. ok claimDir))"

definition network_DeleteClaimDirectory :: "string \<Rightarrow> string \<Rightarrow> string \<Rightarrow> ('x, unit) io" where
  "network_DeleteClaimDirectory claimName requestName deviceName =
    (let claimDir = filepath_Join [HostBaseDir, claimName, requestName, deviceName] in
     wrap (Wrapf (''failed to delete claim directory '' @ claimDir)) (os_RemoveAll claimDir))"

section \<open>The advertised devices\<close>

lemma network_device_name_inject [simp]: "network_device_name i = network_device_name j \<longleftrightarrow> i = j"
  by (simp add: network_device_name_def)

lemma enumerate_from_eq: "enumerate_from i n ds = ds @ map network_device [i..<i + n]"
  by (induction n arbitrary: i ds) (simp_all add: upt_conv_Cons del: upt_Suc)

lemma enumerate_names: "map device_Name (enumerate_from 0 n []) = map network_device_name [0..<n]"
  by (simp add: enumerate_from_eq network_device_def)

section \<open>The edits of a device\<close>

lemma fmdom_network_ApplyConfig:
  "network_ApplyConfig name cfg rs = Inr e \<Longrightarrow> fmdom' e = Device ` set rs"
  by (auto simp: network_ApplyConfig_def Let_def fmdom_fold_upd)

interpretation network: config_handler network_Validate network_ApplyConfig
  by unfold_locales (auto simp: fmdom_network_ApplyConfig, simp_all add: network_ApplyConfig_def Let_def)

lemma network_EnumerateDevices_Ok:
  assumes "network_EnumerateDevices p w = (Ok r, w')"
  shows "Pools r = fmap_of_list [(nodeName p,
      \<lparr>Slices = [\<lparr>slice_Devices = enumerate_from 0 (nat (numDevices p)) []\<rparr>]\<rparr>)]"
    and "is_dir (files w') (elems HostBaseDir)"
  using assms
  by (auto simp: network_EnumerateDevices_def Let_def elim!: call_OkE intro: os_MkdirAll_Ok)

lemma network_names_distinct: "distinct (map network_device_name [0..<n])"
  by (simp add: distinct_map inj_on_def)

interpretation network_devices: device_profile network_Validate network_ApplyConfig
    "network_EnumerateDevices (NewProfile node num)" node for node num
  by unfold_locales
    (simp add: network_EnumerateDevices_Ok(1) NewProfile_def advertised_def enumerate_names network_names_distinct)

lemma touches_network_EnumerateDevices [effect_rules]:
  "(\<And>q. q \<noteq> [] \<Longrightarrow> prefix q (elems HostBaseDir) \<Longrightarrow> P q)
    \<Longrightarrow> steps_in (touches P) (network_EnumerateDevices p)"
  unfolding network_EnumerateDevices_def Let_def
  by (intro touch.in_call touch.in_wrap touch.in_ok touches_os_MkdirAll)

section \<open>Properties\<close>

definition sample_profile :: NetworkProfile where
  "sample_profile = NewProfile ''node-a'' 3"

lemma elems_HostBaseDir: "elems HostBaseDir = [''var'', ''run'', ''kubevirt'', ''cdi'']"
  by (simp add: HostBaseDir_def elems_def)

text \<open>
  When the enumeration of the network profile returns, it advertises one pool, of the
  node's name, with exactly the devices \<open>network-0\<close> to \<open>network-(n-1)\<close>, no name twice,
  and the base directory of the claims exists.
\<close>

lemma network_devices_named:
  assumes "network_EnumerateDevices (NewProfile node num) w = (Ok r, w')"
  shows "\<exists>ds. Pools r = fmap_of_list [(node, \<lparr>Slices = [\<lparr>slice_Devices = ds\<rparr>]\<rparr>)]
    \<and> map device_Name ds = map (\<lambda>i. ''network-'' @ Itoa i) [0..<nat num]
    \<and> distinct (map device_Name ds) \<and> is_dir (files w') (elems HostBaseDir)"
  using network_EnumerateDevices_Ok [OF assms] enumerate_names [of "nat num"] network_names_distinct [of "nat num"]
  by (auto simp: NewProfile_def network_device_name_def)

text \<open>
  The configuration of the network profile cannot fail; a device gets the edits of the last
  result that names it, so where no device is named twice every result gets a mount of its own
  claim directory, at the same path in the container, and the variables that name the device,
  that path and the request.
\<close>

lemma network_edits_of_result:
  assumes "result \<in> set results" "distinct (map Device results)"
  shows "\<exists>edits. network_ApplyConfig claim config results = Inr edits
    \<and> fmdom' edits = Device ` set results
    \<and> fmlookup edits (Device result) = Some (let dir = filepath_Join [''/var/run/kubevirt/cdi'',
        network_extractStableClaimName claim, Request result] in
      \<lparr>Env = [''KUBEVIRT_NETWORK_DEVICE='' @ Device result, ''KUBEVIRT_NETWORK_PATH='' @ dir,
          ''KUBEVIRT_NETWORK_REQUEST='' @ Request result],
        Mounts = [\<lparr>HostPath = dir, ContainerPath = dir, Options = [''rbind'', ''z'']\<rparr>]\<rparr>)"
  using fmlookup_fold_upd_distinct [OF assms,
      of "network_edits (network_extractStableClaimName claim)" fmempty]
  by (simp add: network_ApplyConfig_def Let_def network_edits_def HostBaseDir_def fmdom_fold_upd)

definition sample_result :: "string \<Rightarrow> string \<Rightarrow> DeviceRequestAllocationResult" where
  "sample_result request device = \<lparr>Request = request, Driver = ''network.example.com'',
    Pool = ''node-a'', Device = device, AdminAccess = None\<rparr>"

end
