(* ===== verification/CDI.thy ===== *)
theory CDI
  imports Libraries Network_Profile
begin

text \<open>
  The CDI handler (\<open>cdi.go\<close>): the spec file of the devices of a claim, the common spec
  file, and the identifiers under which the container runtime finds the devices. The locale
  \<open>claim_specs\<close> states what the driver relies on; the handler is its instance under the
  laws of the CDI package.
\<close>

section \<open>The handler\<close>

definition cdiCommonDeviceName :: string where
  "cdiCommonDeviceName = ''common''"

text \<open>The cache is named by the directory it was opened on.\<close>

record CDIHandler =
  cache :: string
  cdi_driverName :: string
  cdi_class :: string

text \<open>\<open>PreparedDevice\<close> of \<open>state.go\<close>, which embeds the device of the gRPC interface.\<close>

record PreparedDevice = pb_Device +
  pd_ContainerEdits :: "ContainerEdits option"
  pd_AdminAccess :: bool

type_synonym PreparedDevices = "PreparedDevice list"

definition NewCDIHandler :: "('x, 'o) libraries \<Rightarrow> string \<Rightarrow> string \<Rightarrow> string \<Rightarrow> ('x, CDIHandler) io" where
  "NewCDIHandler lib root driverName class =
    call (wrap (Wrapf ''unable to create a new CDI cache'') (extern_err (cdi_NewCache lib root)))
    (\<lambda>_. ok \<lparr>cache = root, cdi_driverName = driverName, cdi_class = class\<rparr>)"

definition vendor :: "CDIHandler \<Rightarrow> string" where
  "vendor cdi = ''k8s.'' @ cdi_driverName cdi"

definition kind :: "CDIHandler \<Rightarrow> string" where
  "kind cdi = vendor cdi @ ''/'' @ cdi_class cdi"

definition CreateCommonSpecFile :: "('x, 'o) libraries \<Rightarrow> CDIHandler \<Rightarrow> ('x, unit) io" where
  "CreateCommonSpecFile lib cdi =
    call (os_Getenv ''NODE_NAME'') (\<lambda>node.
      let spec = \<lparr>Version = [], spec_Kind = kind cdi,
            spec_Devices = [\<lparr>cdi_Name = cdiCommonDeviceName,
              cdi_ContainerEdits = \<lparr>Env = [''KUBERNETES_NODE_NAME='' @ node,
                ''DRA_RESOURCE_DRIVER_NAME='' @ cdi_driverName cdi], Mounts = []\<rparr>\<rparr>]\<rparr> in
      call (wrap (Errorf ''failed to get minimum required CDI spec version'')
        (lift_result (cdi_MinimumRequiredVersion lib spec)))
      (\<lambda>minVersion. let spec = spec\<lparr>Version := minVersion\<rparr> in
      call (wrap (Wrapf ''failed to generate Spec name'')
        (lift_result (cdi_GenerateNameForTransientSpec lib spec cdiCommonDeviceName)))
      (\<lambda>specName. extern_err (cdi_WriteSpec lib (cache cdi) spec specName))))"

definition device_env_key :: "string \<Rightarrow> string" where
  "device_env_key device = ToUpper (nonWord_replace device)"

text \<open>One iteration of the loop over the devices of a claim.\<close>

definition claim_device :: "('x, 'o) libraries \<Rightarrow> CDIHandler \<Rightarrow> string \<Rightarrow> PreparedDevice \<Rightarrow> CDIDevice" where
  "claim_device lib cdi claimUID device =
    (let deviceEnvKey = device_env_key (DeviceName device);
         claimEdits = \<lparr>Env = [ToUpper (cdi_class cdi) @ ''_DEVICE_'' @ deviceEnvKey @ ''_RESOURCE_CLAIM='' @ claimUID,
            ''DRA_ADMIN_ACCESS='' @ format_bool (pd_AdminAccess device)], Mounts = []\<rparr> in
     \<lparr>cdi_Name = claimUID @ ''-'' @ DeviceName device,
      cdi_ContainerEdits = cdi_Append lib claimEdits (pd_ContainerEdits device)\<rparr>)"

definition claim_spec :: "('x, 'o) libraries \<Rightarrow> CDIHandler \<Rightarrow> string \<Rightarrow> PreparedDevices \<Rightarrow> Spec" where
  "claim_spec lib cdi claimUID devices =
    fold (\<lambda>device spec. spec\<lparr>spec_Devices := spec_Devices spec @ [claim_device lib cdi claimUID device]\<rparr>)
      devices \<lparr>Version = [], spec_Kind = kind cdi, spec_Devices = []\<rparr>"

definition claim_spec_name :: "('x, 'o) libraries \<Rightarrow> CDIHandler \<Rightarrow> string \<Rightarrow> string" where
  "claim_spec_name lib cdi claimUID = cdi_GenerateTransientSpecName lib (vendor cdi) (cdi_class cdi) claimUID"

definition CreateClaimSpecFile ::
  "('x, 'o) libraries \<Rightarrow> CDIHandler \<Rightarrow> string \<Rightarrow> PreparedDevices \<Rightarrow> ('x, unit) io" where
  "CreateClaimSpecFile lib cdi claimUID devices =
    (let specName = claim_spec_name lib cdi claimUID;
         spec = claim_spec lib cdi claimUID devices in
     call (wrap (Errorf ''failed to get minimum required CDI spec version'')
       (lift_result (cdi_MinimumRequiredVersion lib spec)))
     (\<lambda>minVersion. let spec = spec\<lparr>Version := minVersion\<rparr> in
       extern_err (cdi_WriteSpec lib (cache cdi) spec specName)))"

definition DeleteClaimSpecFile :: "('x, 'o) libraries \<Rightarrow> CDIHandler \<Rightarrow> string \<Rightarrow> ('x, unit) io" where
  "DeleteClaimSpecFile lib cdi claimUID =
    (let specName = claim_spec_name lib cdi claimUID in
     extern_err (cdi_RemoveSpec lib (cache cdi) specName))"

definition GetClaimDevices :: "('x, 'o) libraries \<Rightarrow> CDIHandler \<Rightarrow> string \<Rightarrow> string list \<Rightarrow> string list" where
  "GetClaimDevices lib cdi claimUID devices =
    fold (\<lambda>device cdiDevices. cdiDevices @
        [cdi_QualifiedName lib (vendor cdi) (cdi_class cdi) (claimUID @ ''-'' @ device)])
      devices [cdi_QualifiedName lib (vendor cdi) (cdi_class cdi) cdiCommonDeviceName]"

section \<open>The spec of a claim\<close>

lemma fold_snoc: "fold (\<lambda>x acc. acc @ [f x]) xs acc = acc @ map f xs"
  by (induction xs arbitrary: acc) auto

lemma claim_spec_eq:
  "claim_spec lib cdi uid devices = \<lparr>Version = [], spec_Kind = kind cdi,
    spec_Devices = map (claim_device lib cdi uid) devices\<rparr>"
proof -
  have "fold (\<lambda>d s. s\<lparr>spec_Devices := spec_Devices s @ [claim_device lib cdi uid d]\<rparr>) devices s
      = s\<lparr>spec_Devices := spec_Devices s @ map (claim_device lib cdi uid) devices\<rparr>" for s :: Spec
    by (induction devices arbitrary: s) auto
  then show ?thesis
    by (simp add: claim_spec_def)
qed

lemma GetClaimDevices_eq:
  "GetClaimDevices lib cdi uid devices =
    map (cdi_QualifiedName lib (vendor cdi) (cdi_class cdi))
      (cdiCommonDeviceName # map (\<lambda>d. uid @ ''-'' @ d) devices)"
  by (simp add: GetClaimDevices_def fold_snoc)

lemma touches_CDI [effect_rules]:
  "steps_in (touches P) (CreateClaimSpecFile lib cdi uid ds)"
  "steps_in (touches P) (DeleteClaimSpecFile lib cdi uid)"
  "steps_in (touches P) (CreateCommonSpecFile lib cdi)"
  "steps_in (touches P) (NewCDIHandler lib root name class)"
  unfolding CreateClaimSpecFile_def DeleteClaimSpecFile_def CreateCommonSpecFile_def NewCDIHandler_def Let_def
  by (intro touch.in_call touch.in_wrap touch.in_lift_result touch.in_ok touches_extern_err
      touches_os_Getenv)+

section \<open>What the driver relies on\<close>

text \<open>
  \<open>create\<close> and \<open>delete\<close> are called with the UID of a claim, \<open>spec_of\<close> is the spec
  that the node has for it, \<open>good\<close> says which UIDs are used, \<open>expected\<close> which spec the
  devices of a claim should get.
\<close>

locale claim_specs =
  fixes create :: "string \<Rightarrow> PreparedDevice list \<Rightarrow> ('x, unit) io"
    and delete :: "string \<Rightarrow> ('x, unit) io"
    and spec_of :: "'x \<Rightarrow> string \<Rightarrow> Spec option"
    and expected :: "string \<Rightarrow> PreparedDevice list \<Rightarrow> Spec \<Rightarrow> bool"
    and good :: "string \<Rightarrow> bool"
    and usable :: bool
  assumes create_spec: "usable \<Longrightarrow> create u ds w = (Ok (), w') \<Longrightarrow> \<exists>s. spec_of (ext w') u = Some s \<and> expected u ds s"
    and delete_spec: "usable \<Longrightarrow> delete u w = (Ok (), w') \<Longrightarrow> spec_of (ext w') u = None"
    and create_other: "usable \<Longrightarrow> good u \<Longrightarrow> good v \<Longrightarrow> u \<noteq> v \<Longrightarrow> create u ds w = (r, w') \<Longrightarrow>
      spec_of (ext w') v = spec_of (ext w) v"
    and delete_other: "usable \<Longrightarrow> good u \<Longrightarrow> good v \<Longrightarrow> u \<noteq> v \<Longrightarrow> delete u w = (r, w') \<Longrightarrow>
      spec_of (ext w') v = spec_of (ext w) v"
    and no_files: "steps_in (touches (\<lambda>_. False)) (create u ds)" "steps_in (touches (\<lambda>_. False)) (delete u)"
begin

text \<open>Creating and then deleting the spec of a claim leaves those of the others.\<close>

lemma create_delete:
  assumes usable "good u" "create u ds w = (r, w1)" "delete u w1 = (Ok (), w2)"
  shows "spec_of (ext w2) u = None" "good v \<Longrightarrow> v \<noteq> u \<Longrightarrow> spec_of (ext w2) v = spec_of (ext w) v"
proof -
  show "spec_of (ext w2) u = None"
    using assms(1,4) by (rule delete_spec)
  show "spec_of (ext w2) v = spec_of (ext w) v" if v: "good v" "v \<noteq> u"
  proof -
    have "spec_of (ext w2) v = spec_of (ext w1) v"
      by (rule delete_other [OF assms(1,2) v(1) v(2) [symmetric] assms(4)])
    also have "\<dots> = spec_of (ext w) v"
      by (rule create_other [OF assms(1,2) v(1) v(2) [symmetric] assms(3)])
    finally show ?thesis .
  qed
qed

end

definition claim_spec_of ::
  "('x, 'o) libraries \<Rightarrow> ('x \<Rightarrow> string \<Rightarrow> string \<Rightarrow> Spec option) \<Rightarrow> CDIHandler \<Rightarrow> 'x \<Rightarrow> string \<Rightarrow> Spec option" where
  "claim_spec_of lib specs cdi x uid = specs x (cache cdi) (claim_spec_name lib cdi uid)"

definition spec_for :: "('x, 'o) libraries \<Rightarrow> CDIHandler \<Rightarrow> string \<Rightarrow> PreparedDevice list \<Rightarrow> Spec \<Rightarrow> bool" where
  "spec_for lib cdi uid ds s \<longleftrightarrow> spec_Kind s = kind cdi
    \<and> spec_Devices s = map (claim_device lib cdi uid) ds"

definition uid_ok :: "string \<Rightarrow> bool" where
  "uid_ok u \<longleftrightarrow> CHR ''/'' \<notin> set u"

lemma CreateClaimSpecFile_result:
  assumes "CreateClaimSpecFile lib cdi uid ds w = (r, w')"
  shows "ext w' = ext w \<and> r \<noteq> Ok () \<or> (\<exists>s e. spec_for lib cdi uid ds s
    \<and> cdi_WriteSpec lib (cache cdi) s (claim_spec_name lib cdi uid) (ext w) = (e, ext w')
    \<and> (r = Ok () \<longrightarrow> e = None))"
proof (cases "cdi_MinimumRequiredVersion lib (claim_spec lib cdi uid ds)")
  case (Inl e)
  with assms show ?thesis
    by (auto simp: CreateClaimSpecFile_def Let_def effect_simps)
next
  case (Inr v)
  let ?s = "(claim_spec lib cdi uid ds)\<lparr>Version := v\<rparr>"
  have "extern_err (cdi_WriteSpec lib (cache cdi) ?s (claim_spec_name lib cdi uid)) w = (r, w')"
    using assms Inr by (simp add: CreateClaimSpecFile_def Let_def effect_simps)
  moreover have "spec_for lib cdi uid ds ?s"
    by (simp add: spec_for_def claim_spec_eq)
  ultimately show ?thesis
    by (auto dest: extern_err_ext)
qed

lemma DeleteClaimSpecFile_result:
  assumes "DeleteClaimSpecFile lib cdi uid w = (r, w')"
  shows "ext w' = ext w \<and> r \<noteq> Ok () \<or> (\<exists>e.
    cdi_RemoveSpec lib (cache cdi) (claim_spec_name lib cdi uid) (ext w) = (e, ext w') \<and> (r = Ok () \<longrightarrow> e = None))"
  using assms by (auto simp: DeleteClaimSpecFile_def Let_def dest: extern_err_ext)

interpretation cdi_specs: claim_specs
  "CreateClaimSpecFile lib cdi" "DeleteClaimSpecFile lib cdi" "claim_spec_of lib specs cdi"
  "spec_for lib cdi" uid_ok "cdi_laws lib specs" for lib specs cdi
proof unfold_locales
  have name: "claim_spec_name lib cdi v \<noteq> claim_spec_name lib cdi u"
    if "cdi_laws lib specs" "uid_ok u" "uid_ok v" "u \<noteq> v" for u v
    using cdi_laws_names [OF that(1), of v u] that by (auto simp: claim_spec_name_def uid_ok_def)
  show "\<exists>s. claim_spec_of lib specs cdi (ext w') u = Some s \<and> spec_for lib cdi u ds s"
    if "cdi_laws lib specs" "CreateClaimSpecFile lib cdi u ds w = (Ok (), w')" for u ds w w'
    using CreateClaimSpecFile_result [OF that(2)] cdi_laws_write(1) [OF that(1)]
    by (auto simp: claim_spec_of_def)
  show "claim_spec_of lib specs cdi (ext w') u = None"
    if "cdi_laws lib specs" "DeleteClaimSpecFile lib cdi u w = (Ok (), w')" for u w w'
    using DeleteClaimSpecFile_result [OF that(2)] cdi_laws_remove(1) [OF that(1)]
    by (auto simp: claim_spec_of_def)
  show "claim_spec_of lib specs cdi (ext w') v = claim_spec_of lib specs cdi (ext w) v"
    if "cdi_laws lib specs" "uid_ok u" "uid_ok v" "u \<noteq> v" "CreateClaimSpecFile lib cdi u ds w = (r, w')"
    for u v ds w r w'
    using CreateClaimSpecFile_result [OF that(5)] cdi_laws_write(2) [OF that(1)] name [OF that(1-4)]
    by (auto simp: claim_spec_of_def)
  show "claim_spec_of lib specs cdi (ext w') v = claim_spec_of lib specs cdi (ext w) v"
    if "cdi_laws lib specs" "uid_ok u" "uid_ok v" "u \<noteq> v" "DeleteClaimSpecFile lib cdi u w = (r, w')"
    for u v w r w'
    using DeleteClaimSpecFile_result [OF that(5)] cdi_laws_remove(2) [OF that(1)] name [OF that(1-4)]
    by (auto simp: claim_spec_of_def)
qed (rule touches_CDI)+

section \<open>Properties\<close>

definition sample_cdi :: CDIHandler where
  "sample_cdi = \<lparr>cache = ''/etc/cdi'', cdi_driverName = ''network.example.com'', cdi_class = ''network''\<rparr>"

definition sample_device :: PreparedDevice where
  "sample_device = \<lparr>RequestNames = [''red''], PoolName = ''node-a'', DeviceName = ''network-1'',
    CdiDeviceIds = GetClaimDevices sample_libraries sample_cdi ''123'' [''network-1''],
    pd_ContainerEdits = Some \<lparr>Env = [''KUBEVIRT_NETWORK_REQUEST=red''], Mounts = []\<rparr>, pd_AdminAccess = False\<rparr>"

text \<open>
  C22: Once the spec file of a claim is written, the identifiers given to the kubelet for each of
  its devices resolve: the first names the common device, the second a device of the spec, which
  has the handler's kind, and that device carries the variables of the driver and then all the
  edits of the profile.
\<close>

theorem cdi_ids_resolve:
  assumes "cdi_laws lib specs" "CreateClaimSpecFile lib cdi uid devices w = (Ok (), w')"
    and "d \<in> set devices" "CdiDeviceIds d = GetClaimDevices lib cdi uid [DeviceName d]"
    and "pd_ContainerEdits d = Some edits"
  shows "\<exists>s dev. claim_spec_of lib specs cdi (ext w') uid = Some s \<and> dev \<in> set (spec_Devices s)
    \<and> spec_Kind s = ''k8s.'' @ cdi_driverName cdi @ ''/'' @ cdi_class cdi
    \<and> CdiDeviceIds d = map (cdi_QualifiedName lib (''k8s.'' @ cdi_driverName cdi) (cdi_class cdi))
        [''common'', cdi_Name dev]
    \<and> Mounts (cdi_ContainerEdits dev) = Mounts edits
    \<and> Env (cdi_ContainerEdits dev) =
        [ToUpper (cdi_class cdi) @ ''_DEVICE_'' @ ToUpper (nonWord_replace (DeviceName d))
            @ ''_RESOURCE_CLAIM='' @ uid,
         ''DRA_ADMIN_ACCESS='' @ (if pd_AdminAccess d then ''true'' else ''false'')] @ Env edits"
proof -
  from cdi_specs.create_spec [OF assms(1,2)] obtain s where
    s: "claim_spec_of lib specs cdi (ext w') uid = Some s" "spec_for lib cdi uid devices s" by blast
  then have "claim_device lib cdi uid d \<in> set (spec_Devices s)"
    using assms(3) by (simp add: spec_for_def)
  with s assms(1,4,5) show ?thesis
    by (intro exI [of _ s] exI [of _ "claim_device lib cdi uid d"])
      (simp add: spec_for_def kind_def vendor_def GetClaimDevices_eq
        cdiCommonDeviceName_def claim_device_def Let_def cdi_laws_append format_bool_def device_env_key_def)
qed

theorem cdi_ids_resolve_witness:
  "\<exists>s dev. claim_spec_of sample_libraries sample_specs sample_cdi
      (ext (snd (CreateClaimSpecFile sample_libraries sample_cdi ''123'' [sample_device] (fresh_world empty_ext)))) ''123'' = Some s
    \<and> dev \<in> set (spec_Devices s)
    \<and> CdiDeviceIds sample_device = map (cdi_QualifiedName sample_libraries ''k8s.network.example.com'' ''network'')
        [''common'', cdi_Name dev]"
proof -
  let ?m = "CreateClaimSpecFile sample_libraries sample_cdi ''123'' [sample_device]"
  have "fst (?m (fresh_world empty_ext)) = Ok ()"
    by (simp add: CreateClaimSpecFile_def sample_libraries_def effect_simps Let_def extern_err_calm
        claim_spec_name_def)
  then have run: "?m (fresh_world empty_ext) = (Ok (), snd (?m (fresh_world empty_ext)))"
    by (metis prod.collapse)
  have "sample_device \<in> set [sample_device]"
    "CdiDeviceIds sample_device = GetClaimDevices sample_libraries sample_cdi ''123'' [DeviceName sample_device]"
    "pd_ContainerEdits sample_device = Some \<lparr>Env = [''KUBEVIRT_NETWORK_REQUEST=red''], Mounts = []\<rparr>"
    by (simp_all add: sample_device_def)
  from cdi_ids_resolve [OF sample_cdi_laws run this] show ?thesis
    by (auto simp: sample_cdi_def)
qed

lemma network_env_key: "device_env_key (network_device_name n) = ''NETWORK_'' @ Itoa n"
proof -
  have "list_all is_alnum ''network''" and dash: "\<not> is_alnum (CHR ''-'')"
    by (simp_all add: byte_class_defs)
  moreover have num: "list_all is_alnum (Itoa n)"
    using Itoa_digits [of n] by (simp add: list_all_iff is_alnum_def)
  moreover have "dropWhile (\<lambda>c. \<not> is_alnum c) (Itoa n) = Itoa n"
    using num by (simp add: dropWhile_eq_self_iff list_all_iff)
  ultimately have "nonWord_replace (''network'' @ ''-'' @ Itoa n) = ''network'' @ ''_'' @ Itoa n"
    by (simp only: nonWord_replace_alnum_append) (simp add: nonWord_replace_alnum)
  moreover have "ToUpper ''network_'' = ''NETWORK_''"
    by code_simp
  ultimately show ?thesis
    using ToUpper_append [of "''network_''" "Itoa n"] ToUpper_digits [OF Itoa_digits, of n]
    by (simp add: device_env_key_def network_device_name_def)
qed

lemma claim_device_variable:
  assumes "cdi_laws lib specs" "cdi_class h = ''network''" "DeviceName d = network_device_name i"
  shows "hd (Env (cdi_ContainerEdits (claim_device lib h uid d)))
    = ''NETWORK_DEVICE_NETWORK_'' @ Itoa i @ ''_RESOURCE_CLAIM='' @ uid"
proof -
  have "ToUpper ''network'' = ''NETWORK''"
    by code_simp
  then show ?thesis
    using assms by (cases "pd_ContainerEdits d") (simp_all add: claim_device_def Let_def cdi_laws_append network_env_key)
qed

lemma takeWhile_variable:
  "takeWhile (\<lambda>c. c \<noteq> CHR ''='') (''NETWORK_DEVICE_NETWORK_'' @ Itoa i @ ''_RESOURCE_CLAIM='' @ uid)
    = ''NETWORK_DEVICE_NETWORK_'' @ Itoa i @ ''_RESOURCE_CLAIM''"
proof -
  have "CHR ''='' \<notin> set (Itoa i)"
    by (simp add: Itoa_avoids is_digit_def)
  then have "takeWhile (\<lambda>c. c \<noteq> CHR ''='') (Itoa i @ s) = Itoa i @ takeWhile (\<lambda>c. c \<noteq> CHR ''='') s" for s
    by (intro takeWhile_append2) auto
  then show ?thesis by simp
qed

text \<open>
  C23: The first variable of a device in the spec of its claim names the device and has the UID of
  the claim as its value; its name is different for different devices of the network profile, also
  of different claims, so that a container that uses several sees the claim of each.
\<close>

theorem device_env_keys_distinct:
  assumes "cdi_laws lib specs" "cdi_class h = ''network''"
    and "DeviceName d = network_device_name i" "DeviceName d' = network_device_name j"
  shows "hd (Env (cdi_ContainerEdits (claim_device lib h uid d)))
      = ''NETWORK_DEVICE_NETWORK_'' @ Itoa i @ ''_RESOURCE_CLAIM='' @ uid
    \<and> (takeWhile (\<lambda>c. c \<noteq> CHR ''='') (hd (Env (cdi_ContainerEdits (claim_device lib h uid d))))
        = takeWhile (\<lambda>c. c \<noteq> CHR ''='') (hd (Env (cdi_ContainerEdits (claim_device lib h uid' d')))) \<longleftrightarrow> i = j)"
  unfolding claim_device_variable [OF assms(1-3)] claim_device_variable [OF assms(1,2,4)] takeWhile_variable
  by simp

theorem device_env_keys_distinct_witness:
  "takeWhile (\<lambda>c. c \<noteq> CHR ''='') (hd (Env (cdi_ContainerEdits (claim_device sample_libraries sample_cdi ''123'' sample_device))))
    \<noteq> takeWhile (\<lambda>c. c \<noteq> CHR ''='') (hd (Env (cdi_ContainerEdits (claim_device sample_libraries sample_cdi ''456''
        (sample_device\<lparr>DeviceName := ''network-2''\<rparr>)))))"
proof -
  have "DeviceName sample_device = network_device_name 1" "DeviceName (sample_device\<lparr>DeviceName := ''network-2''\<rparr>) = network_device_name 2"
    unfolding sample_device_def network_device_name_def by code_simp+
  from device_env_keys_distinct [OF sample_cdi_laws _ this, of sample_cdi, THEN conjunct2] show ?thesis
    by (simp add: sample_cdi_def)
qed

end
