(* ===== verification/Claim_Dirs.thy ===== *)
theory Claim_Dirs
  imports CDI
begin

text \<open>
  The directory of a request of a claim on the host (\<open>state.go\<close>, from
  \<open>DeviceMetadata\<close> on): created with its metadata file before the devices are configured,
  and removed when the claim is unprepared. The lemmas say what a successful creation leaves,
  which paths either operation can touch in any run, and that the creation of one directory
  keeps the others ready. The locale \<open>claim_directories\<close> is what the driver relies on.
\<close>

section \<open>The metadata file\<close>

text \<open>
  \<open>encoding/json\<close> on a string: quotes, backslashes and control characters are escaped, the
  characters of HTML and the two line separators of Unicode as well, and a byte that is not
  valid UTF-8 becomes the replacement character.
\<close>

definition hex_digit :: "nat \<Rightarrow> char" where
  "hex_digit n = (if n < 10 then char_of (48 + n) else char_of (87 + n))"

definition json_escape_byte :: "char \<Rightarrow> string" where
  "json_escape_byte c =
    (if byte c = 34 \<or> byte c = 92 then [CHR 0x5C, c]
     else if byte c = 8 then [CHR 0x5C, CHR ''b'']
     else if byte c = 12 then [CHR 0x5C, CHR ''f'']
     else if byte c = 10 then [CHR 0x5C, CHR ''n'']
     else if byte c = 13 then [CHR 0x5C, CHR ''r'']
     else if byte c = 9 then [CHR 0x5C, CHR ''t'']
     else if byte c < 32 \<or> byte c = 60 \<or> byte c = 62 \<or> byte c = 38
       then CHR 0x5C # ''u00'' @ [hex_digit (byte c div 16), hex_digit (byte c mod 16)]
     else [c])"

function json_escape :: "string \<Rightarrow> string" where
  "json_escape [] = []"
| "json_escape (c # s) =
    (let (r, n) = decode_rune (c # s) in
     (if byte c < 128 then json_escape_byte c
      else if r = RuneError \<and> n = 1 then CHR 0x5C # ''ufffd''
      else if r = 8232 \<or> r = 8233 then CHR 0x5C # ''u202'' @ [hex_digit (r mod 16)]
      else take n (c # s)) @ json_escape (drop (n - 1) s))"
  by pat_completeness auto
termination
  by (relation "measure length") auto

definition json_string :: "string \<Rightarrow> string" where
  "json_string s = [CHR 0x22] @ json_escape s @ [CHR 0x22]"

record DeviceMetadata =
  DeviceID :: string

text \<open>
  \<open>json.MarshalIndent(metadata, "", "  ")\<close>: one field per line, indented by two spaces. A
  struct of strings always marshals, so the error branch of the caller is never taken.
\<close>

definition marshal_metadata :: "DeviceMetadata \<Rightarrow> go_error + string" where
  "marshal_metadata metadata =
    Inr (''{'' @ [CHR 10] @ ''  '' @ json_string ''device_id'' @ '': '' @ json_string (DeviceID metadata)
      @ [CHR 10] @ ''}'')"

section \<open>The operations\<close>

definition baseDir :: string where
  "baseDir = ''/var/run/kubevirt/cdi''"

definition qemuUID :: int where
  "qemuUID = 107"

definition qemuGID :: int where
  "qemuGID = 107"

definition container_file_label :: string where
  "container_file_label = ''system_u:object_r:container_file_t:s0''"

text \<open>A label that cannot be set is logged and passed over.\<close>

definition try_SetFileLabel :: "('x, 'o) libraries \<Rightarrow> string \<Rightarrow> ('x, unit) io" where
  "try_SetFileLabel lib path =
    on_err (extern_err (selinux_SetFileLabel lib path container_file_label)) (\<lambda>_. ok ())"

definition setup_dir :: "('x, 'o) libraries \<Rightarrow> string \<Rightarrow> ('x, unit) io" where
  "setup_dir lib dir =
    call (wrap (Wrapf (''failed to chown '' @ dir)) (os_Chown dir qemuUID qemuGID))
    (\<lambda>_. call (wrap (Wrapf (''failed to chmod '' @ dir)) (os_Chmod dir 509))
    (\<lambda>_. try_SetFileLabel lib dir))"

definition createClaimDirectory ::
  "('x, 'o) libraries \<Rightarrow> string \<Rightarrow> string \<Rightarrow> string \<Rightarrow> ('x, string) io" where
  "createClaimDirectory lib claimName requestName deviceName =
    (let stableClaimName = extractStableClaimName claimName;
         claimDir = filepath_Join [baseDir, stableClaimName, requestName] in
     call (os_MkdirAll claimDir 493)
     (\<lambda>_. let claimRoot = filepath_Join [baseDir, stableClaimName] in
     call (for_each (setup_dir lib) [claimRoot, claimDir])
     (\<lambda>_. let metadataPath = filepath_Join [claimDir, ''device.json'']; metadata = \<lparr>DeviceID = deviceName\<rparr> in
     call (wrap (Wrapf ''failed to marshal device metadata'') (lift_result (marshal_metadata metadata)))
     (\<lambda>metadataJSON. call (wrap (Wrapf ''failed to write device metadata'') (os_WriteFile metadataPath metadataJSON 420))
     (\<lambda>_. call (wrap (Wrapf ''failed to chown metadata file'') (os_Chown metadataPath qemuUID qemuGID))
     (\<lambda>_. call (try_SetFileLabel lib metadataPath)
     (\<lambda>_. ok claimDir)))))))"

definition deleteClaimDirectory :: "string \<Rightarrow> string \<Rightarrow> ('x, unit) io" where
  "deleteClaimDirectory claimName requestName =
    (let stableClaimName = extractStableClaimName claimName;
         claimDir = filepath_Join [baseDir, stableClaimName, requestName] in
     os_RemoveAll claimDir)"

section \<open>Paths\<close>

text \<open>
  The names the API server admits: a claim's name is one plain name, a request's name is a
  label, or two separated by a slash for a subrequest, none of them \<open>device.json\<close>, since
  labels have no dot.
\<close>

definition request_ok :: "string \<Rightarrow> bool" where
  "request_ok r \<longleftrightarrow> list_all plain (Split (CHR ''/'') r) \<and> ''device.json'' \<notin> set (Split (CHR ''/'') r)"

definition base_path :: path where
  "base_path = [''var'', ''run'', ''kubevirt'', ''cdi'']"

definition claim_root :: "string \<Rightarrow> path" where
  "claim_root name = base_path @ [extractStableClaimName name]"

definition claim_dir :: "string \<Rightarrow> string \<Rightarrow> path" where
  "claim_dir name request = claim_root name @ Split (CHR ''/'') request"

definition metadata_path :: "path \<Rightarrow> path" where
  "metadata_path p = p @ [''device.json'']"

lemma elems_baseDir: "elems baseDir = base_path"
  by (simp add: baseDir_def elems_def base_path_def)

lemma is_abs_baseDir [simp]: "is_abs baseDir"
  by (simp add: baseDir_def is_abs_def)

lemma elems_claim_root: "plain n \<Longrightarrow> elems (filepath_Join [baseDir, extractStableClaimName n]) = claim_root n"
  by (simp add: elems_filepath_Join_plain elems_baseDir claim_root_def plain_extractStableClaimName)

lemma elems_claim_dir:
  assumes "plain n" "request_ok r"
  shows "elems (filepath_Join [baseDir, extractStableClaimName n, r]) = claim_dir n r"
proof -
  let ?x = "extractStableClaimName n"
  have "plain ?x"
    using assms(1) by (rule plain_extractStableClaimName)
  then have "Split (CHR ''/'') ?x = [?x]" "list_all plain (?x # Split (CHR ''/'') r)"
    using assms(2) by (auto simp: plain_def Split_none request_ok_def)
  then have "elems (filepath_Join [baseDir, ?x, r]) = clean_elems True [] (Split (CHR ''/'') baseDir @ ?x # Split (CHR ''/'') r)"
    by (simp add: elems_filepath_Join)
  also have "\<dots> = elems baseDir @ ?x # Split (CHR ''/'') r"
    using \<open>list_all plain (?x # _)\<close> by (simp add: clean_elems_append_plain elems_def)
  finally show ?thesis
    by (simp add: elems_baseDir claim_dir_def claim_root_def)
qed

lemma elems_metadata:
  assumes "plain n" "request_ok r"
  shows "elems (filepath_Join [filepath_Join [baseDir, extractStableClaimName n, r], ''device.json''])
    = metadata_path (claim_dir n r)"
proof -
  have "is_abs (filepath_Join [baseDir, extractStableClaimName n, r])" "list_all plain [''device.json'']"
    by (simp_all add: plain_def)
  then show ?thesis
    by (simp add: elems_filepath_Join_plain elems_claim_dir [OF assms] metadata_path_def)
qed

lemma claim_dir_not_root: "claim_dir n r \<noteq> claim_root n'" "metadata_path (claim_dir n r) \<noteq> claim_root n'"
proof -
  have "length (claim_dir n r) > length (claim_root n')"
    by (simp add: claim_dir_def claim_root_def)
  then show "claim_dir n r \<noteq> claim_root n'" "metadata_path (claim_dir n r) \<noteq> claim_root n'"
    by (auto simp: metadata_path_def dest: arg_cong [where f = length])
qed

lemma metadata_not_dir:
  assumes "request_ok r'"
  shows "metadata_path p \<noteq> claim_dir n' r'"
proof -
  have "last (claim_dir n' r') = last (Split (CHR ''/'') r')"
    by (simp add: claim_dir_def)
  moreover have "last (Split (CHR ''/'') r') \<noteq> ''device.json''"
    using assms by (metis Split_not_Nil last_in_set request_ok_def)
  ultimately show ?thesis
    by (metis last_snoc metadata_path_def)
qed

lemma metadata_path_inject [simp]: "metadata_path p = metadata_path q \<longleftrightarrow> p = q"
  by (simp add: metadata_path_def)

lemma metadata_path_not_Nil [simp]: "metadata_path p \<noteq> []"
  by (simp add: metadata_path_def)

section \<open>What a creation leaves\<close>

text \<open>
  The directory is ready for device \<open>d\<close>: it belongs to qemu, its group can write, and its
  metadata file belongs to qemu and names the device.
\<close>

definition owned_by_qemu :: "attrs \<Rightarrow> bool" where
  "owned_by_qemu a \<longleftrightarrow> owner_uid a = qemuUID \<and> owner_gid a = qemuGID"

definition dir_ready :: "(path, node) fmap \<Rightarrow> path \<Rightarrow> bool" where
  "dir_ready m p \<longleftrightarrow> (case fmlookup m p of Some (Dir a) \<Rightarrow> owned_by_qemu a \<and> mode a = 509 | _ \<Rightarrow> False)"

definition file_ready :: "(path, node) fmap \<Rightarrow> path \<Rightarrow> string \<Rightarrow> bool" where
  "file_ready m p d \<longleftrightarrow> (case fmlookup m p of
     Some (File a c) \<Rightarrow> owned_by_qemu a \<and> marshal_metadata \<lparr>DeviceID = d\<rparr> = Inr c | _ \<Rightarrow> False)"

definition claim_ready :: "(path, node) fmap \<Rightarrow> path \<Rightarrow> string \<Rightarrow> bool" where
  "claim_ready m p d \<longleftrightarrow> dir_ready m p \<and> file_ready m (metadata_path p) d"

lemma ready_cong:
  "fmlookup m' p = fmlookup m p \<Longrightarrow> dir_ready m' p = dir_ready m p"
  "fmlookup m' q = fmlookup m q \<Longrightarrow> file_ready m' q d = file_ready m q d"
  by (simp_all add: dir_ready_def file_ready_def)

lemma dir_ready_iff:
  "dir_ready m p \<longleftrightarrow> (\<exists>a. fmlookup m p = Some (Dir a) \<and> owned_by_qemu a \<and> mode a = 509)"
  by (auto simp: dir_ready_def split: option.splits node.splits)

lemma file_ready_iff:
  "file_ready m p d \<longleftrightarrow> (\<exists>a c. fmlookup m p = Some (File a c) \<and> owned_by_qemu a
    \<and> marshal_metadata \<lparr>DeviceID = d\<rparr> = Inr c)"
  by (auto simp: file_ready_def split: option.splits node.splits)

lemma try_SetFileLabel_files: "files (snd (try_SetFileLabel lib p w)) = files w"
  using extern_err_files [of "selinux_SetFileLabel lib p container_file_label" w]
  by (auto simp: try_SetFileLabel_def effect_simps split: prod.splits outcome.splits)

lemma touches_try_SetFileLabel [effect_rules]: "steps_in (touches P) (try_SetFileLabel lib p)"
  unfolding try_SetFileLabel_def by (intro touch.in_on_err touches_extern_err touch.in_ok)

lemma setup_dir_Ok:
  assumes "setup_dir lib s w = (Ok u, w')" "is_dir (files w) (elems s)" "elems s \<noteq> []"
  shows "dir_ready (files w') (elems s)"
proof -
  from assms(1) obtain w1 w2 where "os_Chown s qemuUID qemuGID w = (Ok (), w1)"
    "os_Chmod s 509 w1 = (Ok (), w2)" "try_SetFileLabel lib s w2 = (Ok u, w')"
    by (auto simp: setup_dir_def elim!: call_OkE)
  with assms(2,3) try_SetFileLabel_files [of lib s w2] show ?thesis
    by (auto simp: os_Chown_def os_Chmod_def dir_ready_iff is_dir_iff owned_by_qemu_def
        dest!: change_attrs_Ok)
qed

lemma touches_setup_dir [effect_rules]:
  "P (elems s) \<Longrightarrow> steps_in (touches P) (setup_dir lib s)"
  unfolding setup_dir_def os_Chown_def os_Chmod_def
  by (intro touch.in_call touch.in_wrap touches_change_attrs touches_try_SetFileLabel)

text \<open>
  Every run of \<open>createClaimDirectory\<close> stays on the way to the directory, and in its
  metadata file; every run of \<open>deleteClaimDirectory\<close> stays below the directory.
\<close>

definition creation_path :: "path \<Rightarrow> path \<Rightarrow> bool" where
  "creation_path d p \<longleftrightarrow> p \<noteq> [] \<and> (prefix p d \<or> p = metadata_path d)"

lemma touches_createClaimDirectory:
  assumes "plain n" "request_ok r"
  shows "steps_in (touches (creation_path (claim_dir n r))) (createClaimDirectory lib n r d)"
  unfolding createClaimDirectory_def Let_def
  by (intro touch.in_call touch.in_wrap touch.in_lift_result touch.in_ok touch.in_for_each
      touches_os_MkdirAll touches_os_WriteFile touches_try_SetFileLabel)
    (auto simp: elems_claim_dir [OF assms] elems_claim_root [OF assms(1)] elems_metadata [OF assms]
      creation_path_def os_Chown_def claim_dir_def claim_root_def base_path_def
      intro!: touches_setup_dir touches_change_attrs)

lemma touches_deleteClaimDirectory:
  assumes "plain n" "request_ok r"
  shows "steps_in (touches (prefix (claim_dir n r))) (deleteClaimDirectory n r)"
  unfolding deleteClaimDirectory_def Let_def
  by (rule touches_os_RemoveAll) (simp add: elems_claim_dir [OF assms])

lemma change_attrs_file:
  assumes "os_Chown s qemuUID qemuGID w = (Ok u, w')" "fmlookup (files w) (elems s) = Some (File a c)"
    and "marshal_metadata \<lparr>DeviceID = d\<rparr> = Inr c"
  shows "file_ready (files w') (elems s) d"
  using assms by (auto simp: os_Chown_def file_ready_iff owned_by_qemu_def dest!: change_attrs_Ok)

text \<open>Setting up two directories, and writing the metadata file.\<close>

lemma setup_both_Ok:
  assumes "setup_dir lib parent w1 = (Ok (), w2)" "setup_dir lib dir w2 = (Ok (), w3)"
    and "is_dir (files w1) (elems parent)" "is_dir (files w1) (elems dir)"
    and "elems dir \<noteq> elems parent" "elems parent \<noteq> []" "elems dir \<noteq> []"
  shows "dir_ready (files w3) (elems parent) \<and> dir_ready (files w3) (elems dir)"
proof -
  have t2: "touches (\<lambda>p. p = elems parent) w1 w2" and t3: "touches (\<lambda>p. p = elems dir) w2 w3"
    using steps_inD [OF touches_setup_dir assms(1)] steps_inD [OF touches_setup_dir assms(2)] by simp_all
  have "is_dir (files w2) (elems dir)"
    using assms(4,5,7) touches_lookup [OF t2, of "elems dir"] by (simp add: is_dir_def)
  then have "dir_ready (files w3) (elems dir)"
    using setup_dir_Ok [OF assms(2)] assms(7) by simp
  moreover have "dir_ready (files w2) (elems parent)"
    using setup_dir_Ok [OF assms(1)] assms(3,6) by simp
  then have "dir_ready (files w3) (elems parent)"
    using touches_lookup [OF t3, of "elems parent"] assms(5) by (simp add: dir_ready_def)
  ultimately show ?thesis by simp
qed

lemma write_metadata_Ok:
  assumes "marshal_metadata \<lparr>DeviceID = d\<rparr> = Inr c" "os_WriteFile m c 420 w = (Ok (), w1)"
    and "os_Chown m qemuUID qemuGID w1 = (Ok (), w2)" "try_SetFileLabel lib m w2 = (r, w3)"
  shows "file_ready (files w3) (elems m) d"
    and "p \<noteq> elems m \<Longrightarrow> fmlookup (files w3) p = fmlookup (files w) p"
proof -
  have same: "files w3 = files w2"
    using try_SetFileLabel_files [of lib m w2] assms(4) by simp
  have "touches (\<lambda>p. p = elems m) w w1"
    by (rule steps_inD [OF touches_os_WriteFile assms(2)]) simp
  moreover have "touches (\<lambda>p. p = elems m) w1 w2"
    by (rule steps_inD [OF touches_change_attrs assms(3) [unfolded os_Chown_def]]) simp
  ultimately show "p \<noteq> elems m \<Longrightarrow> fmlookup (files w3) p = fmlookup (files w) p"
    using same by (simp add: touches_lookup)
  obtain a where "fmlookup (files w1) (elems m) = Some (File a c)"
    using os_WriteFile_Ok [OF assms(2)] by blast
  then show "file_ready (files w3) (elems m) d"
    using change_attrs_file [OF assms(3)] assms(1) same by simp
qed

lemma createClaimDirectory_Ok:
  assumes "createClaimDirectory lib n r d w = (Ok s, w')" "plain n" "request_ok r"
  shows "s = filepath_Join [''/var/run/kubevirt/cdi'', extractStableClaimName n, r]"
    and "claim_ready (files w') (claim_dir n r) d" and "dir_ready (files w') (claim_root n)"
proof -
  let ?dir = "filepath_Join [baseDir, extractStableClaimName n, r]"
  let ?root = "filepath_Join [baseDir, extractStableClaimName n]"
  let ?meta = "filepath_Join [?dir, ''device.json'']"
  have el: "elems ?dir = claim_dir n r" "elems ?root = claim_root n" "elems ?meta = metadata_path (claim_dir n r)"
    using elems_claim_dir elems_claim_root elems_metadata assms(2,3) by simp_all
  from assms(1) obtain w1 w2 w3 w4 w5 c where
    mk: "os_MkdirAll ?dir 493 w = (Ok (), w1)" and
    root: "setup_dir lib ?root w1 = (Ok (), w2)" and dir: "setup_dir lib ?dir w2 = (Ok (), w3)" and
    meta: "marshal_metadata \<lparr>DeviceID = d\<rparr> = Inr c" "os_WriteFile ?meta c 420 w3 = (Ok (), w4)"
      "os_Chown ?meta qemuUID qemuGID w4 = (Ok (), w5)" "try_SetFileLabel lib ?meta w5 = (Ok (), w')" and s: "s = ?dir"
    by (auto simp: createClaimDirectory_def Let_def marshal_metadata_def elim!: call_OkE)
  show "s = filepath_Join [''/var/run/kubevirt/cdi'', extractStableClaimName n, r]"
    using s by (simp add: baseDir_def)
  have "claim_dir n r \<noteq> []" "claim_root n \<noteq> []"
    by (simp_all add: claim_dir_def claim_root_def base_path_def)
  moreover have "is_dir (files w1) (claim_dir n r)" "is_dir (files w1) (claim_root n)"
    using os_MkdirAll_Ok [OF mk] el(1) by (auto simp: claim_dir_def)
  ultimately have "dir_ready (files w3) (claim_root n)" "dir_ready (files w3) (claim_dir n r)"
    using setup_both_Ok [OF root dir] el claim_dir_not_root(1) [of n r n] by simp_all
  note ready = write_metadata_Ok [OF meta, unfolded el] this
  show "dir_ready (files w') (claim_root n)"
    using ready(3) ready_cong(1) [OF ready(2) [OF claim_dir_not_root(2) [symmetric]]] by blast
  show "claim_ready (files w') (claim_dir n r) d"
    using ready(1,4) ready_cong(1) [OF ready(2) [OF metadata_not_dir [OF assms(3), symmetric]]]
    by (simp add: claim_ready_def)
qed

section \<open>One directory and the others\<close>

definition keeps_ready :: "path \<Rightarrow> string \<Rightarrow> 'x world \<Rightarrow> 'x world \<Rightarrow> bool" where
  "keeps_ready p d w w' \<longleftrightarrow> (claim_ready (files w) p d \<longrightarrow> claim_ready (files w') p d)"

interpretation keeping: step_relation "keeps_ready p d" for p d
  by unfold_locales (auto simp: keeps_ready_def)

lemma grows_keeps_ready: "grows w w' \<Longrightarrow> keeps_ready p d w w'"
  by (auto simp: grows_def keeps_ready_def claim_ready_def dir_ready_iff file_ready_iff)

lemma touches_keeps_ready:
  assumes "steps_in (touches P) m" "\<not> P p" "\<not> P (metadata_path p)"
  shows "steps_in (keeps_ready p d) m"
  using assms(1)
proof (rule steps_in_mono)
  fix v w :: "'a world"
  assume "touches P v w"
  then show "keeps_ready p d v w"
    using assms(2,3) ready_cong [of "files w" p "files v"]
      ready_cong(2) [of "files w" "metadata_path p" "files v"]
    by (simp add: keeps_ready_def claim_ready_def touches_lookup)
qed

lemma createClaimDirectory_keeps:
  assumes "plain n" "request_ok r" "request_ok r'" "claim_dir n r \<noteq> claim_dir n' r'"
  shows "steps_in (keeps_ready (claim_dir n' r') d') (createClaimDirectory lib n r d)"
proof -
  let ?p = "claim_dir n' r'"
  let ?dir = "filepath_Join [baseDir, extractStableClaimName n, r]"
  let ?root = "filepath_Join [baseDir, extractStableClaimName n]"
  let ?meta = "filepath_Join [?dir, ''device.json'']"
  have el: "elems ?dir = claim_dir n r" "elems ?root = claim_root n" "elems ?meta = metadata_path (claim_dir n r)"
    using elems_claim_dir elems_claim_root elems_metadata assms(1,2) by simp_all
  have own_dirs: "steps_in (keeps_ready ?p d') (setup_dir lib s)" if "s \<in> {?root, ?dir}" for s
    by (rule touches_keeps_ready [OF touches_setup_dir [where P = "\<lambda>p. p = elems s"]])
      (use that el assms(4) claim_dir_not_root [of n' r' n] metadata_not_dir [OF assms(2), of ?p n] in auto)
  have meta: "?p \<noteq> metadata_path (claim_dir n r)"
    using metadata_not_dir [OF assms(3)] by metis
  have written: "steps_in (keeps_ready ?p d') (os_WriteFile ?meta c 420)" for c
    by (rule touches_keeps_ready [OF touches_os_WriteFile [where P = "\<lambda>p. p = elems ?meta"]])
      (use el meta assms(4) in auto)
  have chown: "steps_in (keeps_ready ?p d') (os_Chown ?meta qemuUID qemuGID)"
    unfolding os_Chown_def
    by (rule touches_keeps_ready [OF touches_change_attrs [where P = "\<lambda>p. p = elems ?meta"]])
      (use el meta assms(4) in auto)
  have label: "steps_in (keeps_ready ?p d') (try_SetFileLabel lib s)" for s
    by (rule touches_keeps_ready [OF touches_try_SetFileLabel [where P = "\<lambda>_. False"]]) auto
  have mk: "steps_in (keeps_ready ?p d') (os_MkdirAll ?dir 493)"
    by (rule steps_in_mono [OF grows_os_MkdirAll grows_keeps_ready])
  show ?thesis
    unfolding createClaimDirectory_def Let_def
    by (intro keeping.in_call keeping.in_wrap keeping.in_lift_result keeping.in_ok keeping.in_for_each
        mk written chown label own_dirs) auto
qed

lemma deleteClaimDirectory_keeps:
  assumes "plain n" "request_ok r" "\<not> prefix (claim_dir n r) (metadata_path p)"
  shows "steps_in (keeps_ready p d) (deleteClaimDirectory n r)"
  using touches_deleteClaimDirectory [OF assms(1,2)]
  by (rule touches_keeps_ready) (use assms(3) in \<open>auto simp: metadata_path_def\<close>)

lemma deleteClaimDirectory_Ok:
  assumes "deleteClaimDirectory n r w = (Ok u, w')" "plain n" "request_ok r" "prefix (claim_dir n r) q"
  shows "fmlookup (files w') q = None"
  using assms by (auto simp: deleteClaimDirectory_def Let_def elems_claim_dir os_RemoveAll_Ok)

section \<open>What the driver relies on\<close>

text \<open>
  \<open>dir n r\<close> is the directory of request \<open>r\<close> of claim \<open>n\<close>, \<open>ready m p d\<close> says that
  it is set up for device \<open>d\<close>, and \<open>good\<close> which names are used.
\<close>

locale claim_directories =
  fixes create :: "string \<Rightarrow> string \<Rightarrow> string \<Rightarrow> ('x, string) io"
    and delete :: "string \<Rightarrow> string \<Rightarrow> ('x, unit) io"
    and dir :: "string \<Rightarrow> string \<Rightarrow> path"
    and ready :: "(path, node) fmap \<Rightarrow> path \<Rightarrow> string \<Rightarrow> bool"
    and good :: "string \<Rightarrow> string \<Rightarrow> bool"
  assumes create_ready: "good n r \<Longrightarrow> create n r d w = (Ok s, w') \<Longrightarrow> ready (files w') (dir n r) d"
    and create_keeps: "good n r \<Longrightarrow> good n' r' \<Longrightarrow> dir n r \<noteq> dir n' r' \<Longrightarrow> create n r d w = (x, w')
      \<Longrightarrow> ready (files w) (dir n' r') d' \<Longrightarrow> ready (files w') (dir n' r') d'"
    and delete_gone: "good n r \<Longrightarrow> delete n r w = (Ok (), w') \<Longrightarrow> prefix (dir n r) q
      \<Longrightarrow> fmlookup (files w') q = None"
begin

text \<open>After a loop of creations the last one of each directory is what the directory shows.\<close>

lemma creations_keep:
  assumes "good n r" "ready (files w) (dir n r) d"
    and "\<And>y. y \<in> set ys \<Longrightarrow> good n (req y) \<and> dir n (req y) \<noteq> dir n r"
    and "for_each (\<lambda>y. call (create n (req y) (dev y)) (\<lambda>_. ok ())) ys w = (Ok (), w')"
  shows "ready (files w') (dir n r) d"
  using assms(2-)
proof (induction ys arbitrary: w)
  case (Cons y ys)
  from Cons.prems(3) obtain s w1 where "create n (req y) (dev y) w = (Ok s, w1)"
    and rest: "for_each (\<lambda>y. call (create n (req y) (dev y)) (\<lambda>_. ok ())) ys w1 = (Ok (), w')"
    by (auto elim!: call_OkE)
  then have "ready (files w1) (dir n r) d"
    using create_keeps [OF _ assms(1), of n "req y"] Cons.prems(1,2) by simp
  then show ?case
    using Cons.IH rest Cons.prems(2) by simp
qed simp

lemma creations_ready:
  assumes "\<And>y. y \<in> set (xs @ x # ys) \<Longrightarrow> good n (req y)"
    and "\<And>y. y \<in> set ys \<Longrightarrow> dir n (req y) \<noteq> dir n (req x)"
    and "for_each (\<lambda>y. call (create n (req y) (dev y)) (\<lambda>_. ok ())) (xs @ x # ys) w = (Ok (), w')"
  shows "ready (files w') (dir n (req x)) (dev x)"
proof -
  from assms(3) obtain s w1 w2 where "create n (req x) (dev x) w1 = (Ok s, w2)"
    and rest: "for_each (\<lambda>y. call (create n (req y) (dev y)) (\<lambda>_. ok ())) ys w2 = (Ok (), w')"
    by (auto simp: for_each_append elim!: call_OkE)
  then have "ready (files w2) (dir n (req x)) (dev x)"
    using assms(1) by (auto intro: create_ready)
  then show ?thesis
    by (rule creations_keep [OF _ _ _ rest, rotated]) (use assms(1,2) in auto)
qed

end

definition names_ok :: "string \<Rightarrow> string \<Rightarrow> bool" where
  "names_ok n r \<longleftrightarrow> plain n \<and> request_ok r"

interpretation host_dirs: claim_directories
  "createClaimDirectory lib" deleteClaimDirectory claim_dir claim_ready names_ok for lib
proof unfold_locales
  show "claim_ready (files w') (claim_dir n' r') d'"
    if "names_ok n r" "names_ok n' r'" "claim_dir n r \<noteq> claim_dir n' r'"
      "createClaimDirectory lib n r d w = (x, w')" "claim_ready (files w) (claim_dir n' r') d'"
    for n r n' r' d d' w w' x
  proof -
    have "steps_in (keeps_ready (claim_dir n' r') d') (createClaimDirectory lib n r d)"
      by (rule createClaimDirectory_keeps) (use that(1-3) in \<open>auto simp: names_ok_def\<close>)
    then have "keeps_ready (claim_dir n' r') d' w w'"
      using that(4) by (rule steps_inD)
    with that(5) show ?thesis
      by (simp add: keeps_ready_def)
  qed
qed (auto simp: names_ok_def dest: createClaimDirectory_Ok(2) intro: deleteClaimDirectory_Ok)

section \<open>Creation in a calm world\<close>

text \<open>
  A step only makes directories on the way to directories in \<open>S\<close> and metadata files in
  them: what exists keeps its kind. So a world that has nothing in the way of the directories in
  \<open>S\<close> stays one.
\<close>

definition on_the_way :: "path set \<Rightarrow> path \<Rightarrow> bool" where
  "on_the_way S p \<longleftrightarrow> (\<exists>d \<in> S. prefix p d)"

definition makes :: "path set \<Rightarrow> 'x world \<Rightarrow> 'x world \<Rightarrow> bool" where
  "makes S w w' \<longleftrightarrow> (\<forall>p.
    (is_dir (files w) p \<longrightarrow> is_dir (files w') p) \<and> (is_file (files w) p \<longrightarrow> is_file (files w') p)
    \<and> (is_dir (files w') p \<longrightarrow> is_dir (files w) p \<or> on_the_way S p)
    \<and> (is_file (files w') p \<longrightarrow> is_file (files w) p \<or> p \<in> metadata_path ` S))"

interpretation making: step_relation "makes S" for S
proof unfold_locales
  show "makes S u w" if "makes S u v" "makes S v w" for u v w :: "'a world"
    unfolding makes_def
  proof
    fix p
    show "(is_dir (files u) p \<longrightarrow> is_dir (files w) p) \<and> (is_file (files u) p \<longrightarrow> is_file (files w) p)
      \<and> (is_dir (files w) p \<longrightarrow> is_dir (files u) p \<or> on_the_way S p)
      \<and> (is_file (files w) p \<longrightarrow> is_file (files u) p \<or> p \<in> metadata_path ` S)"
      using that unfolding makes_def by metis
  qed
qed (simp add: makes_def)

definition in_the_way :: "path set \<Rightarrow> 'x world \<Rightarrow> bool" where
  "in_the_way S w \<longleftrightarrow> (\<exists>d \<in> S. (\<exists>p. prefix p d \<and> is_file (files w) p) \<or> is_dir (files w) (metadata_path d))"

lemma makes_same_kinds:
  assumes "\<And>p. is_dir (files w') p = is_dir (files w) p" "\<And>p. is_file (files w') p = is_file (files w) p"
  shows "makes S w w'"
  using assms by (simp add: makes_def)

lemma is_file_with_attrs: "fmlookup m p = Some n \<Longrightarrow> is_file (fmupd p (with_attrs f n) m) q \<longleftrightarrow> is_file m q"
  by (cases n) (auto simp: is_file_iff)

lemma kinds_append_file:
  "is_dir (files (append_file p d w)) q = is_dir (files w) q"
  "is_file (files (append_file p d w)) q = is_file (files w) q"
  by (auto simp: append_file_def is_dir_iff is_file_iff split: option.splits node.splits)

lemma makes_change_attrs: "steps_in (makes S) (change_attrs oper s f)"
proof (rule steps_inI)
  fix w :: "'x world"
  show "makes S w (snd (change_attrs oper s f w))"
    by (rule makes_same_kinds)
      (auto simp: change_attrs_def syscall_def is_dir_with_attrs is_file_with_attrs split: option.splits)
qed

lemma makes_try_SetFileLabel: "steps_in (makes S) (try_SetFileLabel lib s)"
  by (auto intro!: steps_inI makes_same_kinds simp: try_SetFileLabel_files)

lemma makes_mkdir_from:
  assumes "on_the_way S (p @ cs)"
  shows "steps_in (makes S) (mkdir_from s p cs perm :: ('x, unit) io)"
  using assms
proof (induction cs arbitrary: p)
  case (Cons c cs)
  let ?p = "p @ [c]"
  have IH: "steps_in (makes S) (mkdir_from s ?p cs perm :: ('x, unit) io)"
    using Cons.IH [of ?p] Cons.prems by simp
  have pre: "on_the_way S ?p"
    using Cons.prems unfolding on_the_way_def by (metis append_Cons append_Nil append_assoc append_prefixD)
  show ?case
  proof (rule steps_inI)
    fix w :: "'x world"
    show "makes S w (snd (mkdir_from s p (c # cs) perm w))"
    proof (cases "is_dir (files w) ?p \<or> is_file (files w) ?p")
      case True
      with IH show ?thesis
        by (auto simp: steps_in_def making.step_refl)
    next
      case False
      then have "fmlookup (files w) ?p = None"
        by (intro not_dir_not_file) auto
      then have "makes S w (snd (os_mkdir s ?p perm w))"
        using pre by (auto simp: makes_def os_mkdir_def syscall_def is_dir_iff is_file_iff split: option.splits)
      moreover obtain r w1 where "os_mkdir s ?p perm w = (r, w1)"
        by fastforce
      ultimately show ?thesis
        using IH False by (cases r) (auto simp: call_def steps_in_def intro: making.step_trans)
    qed
  qed
qed (simp add: making.in_ok)

lemma makes_os_WriteFile:
  assumes "elems s = metadata_path d" "d \<in> S"
  shows "steps_in (makes S) (os_WriteFile s c perm :: ('x, unit) io)"
proof -
  have "steps_in (makes S) (open_trunc s perm :: ('x, unit) io)"
  proof (rule steps_inI)
    fix w :: "'x world"
    show "makes S w (snd (open_trunc s perm w))"
    proof (cases "fmlookup (files w) (elems s)")
      case None
      then show ?thesis
        using assms by (auto simp: open_trunc_def syscall_def makes_def is_dir_iff is_file_iff split: option.splits)
    next
      case (Some n)
      then show ?thesis
        using assms
        by (cases n) (auto simp: open_trunc_def syscall_def makes_def is_dir_iff is_file_iff split: option.splits)
    qed
  qed
  moreover have "steps_in (makes S) (file_write s c :: ('x, unit) io)"
    by (rule steps_inI, rule makes_same_kinds)
      (simp_all add: file_write_def syscall_def kinds_append_file split: option.splits)
  ultimately show ?thesis
    unfolding os_WriteFile_def by (rule making.in_call)
qed

lemma makes_createClaimDirectory:
  assumes "plain n" "request_ok r" "claim_dir n r \<in> S"
  shows "steps_in (makes S) (createClaimDirectory lib n r d)"
proof -
  have "on_the_way S ([] @ elems (filepath_Join [baseDir, extractStableClaimName n, r]))"
    using assms by (auto simp: elems_claim_dir on_the_way_def)
  then have "steps_in (makes S) (os_MkdirAll (filepath_Join [baseDir, extractStableClaimName n, r]) 493)"
    unfolding os_MkdirAll_def by (rule makes_mkdir_from)
  then show ?thesis
    unfolding createClaimDirectory_def Let_def setup_dir_def os_Chown_def os_Chmod_def
    by (intro making.in_call making.in_wrap making.in_lift_result making.in_ok making.in_for_each
        makes_change_attrs makes_try_SetFileLabel makes_os_WriteFile [OF elems_metadata [OF assms(1,2)] assms(3)])
qed

text \<open>Names of requests never meet metadata files, so a clear world stays clear.\<close>

definition dirs_of :: "path set \<Rightarrow> bool" where
  "dirs_of S \<longleftrightarrow> (\<forall>d \<in> S. \<exists>n r. plain n \<and> request_ok r \<and> d = claim_dir n r)"

lemma metadata_not_prefix:
  assumes "request_ok r'" "request_ok r" "plain n'" "plain n"
  shows "\<not> prefix (metadata_path (claim_dir n r)) (claim_dir n' r')"
proof
  assume p: "prefix (metadata_path (claim_dir n r)) (claim_dir n' r')"
  then have "prefix ((extractStableClaimName n # Split (CHR ''/'') r) @ [''device.json''])
      (extractStableClaimName n' # Split (CHR ''/'') r')"
    by (simp add: metadata_path_def claim_dir_def claim_root_def base_path_def)
  then have "''device.json'' \<in> set (Split (CHR ''/'') r')"
    by (auto simp: prefix_def dest: arg_cong [where f = set])
  with assms(1) show False
    by (simp add: request_ok_def)
qed

lemma stays_clear:
  assumes "makes S w w'" "\<not> in_the_way S w" "dirs_of S"
  shows "\<not> in_the_way S w'"
proof
  assume "in_the_way S w'"
  then obtain d where d: "d \<in> S" "(\<exists>p. prefix p d \<and> is_file (files w') p) \<or> is_dir (files w') (metadata_path d)"
    by (auto simp: in_the_way_def)
  have apart: "\<not> prefix (metadata_path e) e'" if "e \<in> S" "e' \<in> S" for e e'
  proof -
    obtain n r n' r' where "plain n" "request_ok r" "e = claim_dir n r" "plain n'" "request_ok r'" "e' = claim_dir n' r'"
      using assms(3) \<open>e \<in> S\<close> \<open>e' \<in> S\<close> unfolding dirs_of_def by meson
    then show ?thesis
      using metadata_not_prefix by simp
  qed
  from d(2) show False
  proof (elim disjE exE conjE)
    fix p
    assume "prefix p d" "is_file (files w') p"
    moreover have "p \<notin> metadata_path ` S"
      using \<open>prefix p d\<close> d(1) apart by blast
    ultimately have "is_file (files w) p"
      using assms(1) unfolding makes_def by blast
    with assms(2) d(1) \<open>prefix p d\<close> show False
      by (auto simp: in_the_way_def)
  next
    assume "is_dir (files w') (metadata_path d)"
    moreover have "\<not> on_the_way S (metadata_path d)"
      using d(1) apart by (auto simp: on_the_way_def)
    ultimately have "is_dir (files w) (metadata_path d)"
      using assms(1) unfolding makes_def by blast
    with assms(2) d(1) show False
      by (auto simp: in_the_way_def)
  qed
qed

lemma try_SetFileLabel_calm: "calm w \<Longrightarrow> \<exists>w'. try_SetFileLabel lib s w = (Ok (), w') \<and> calm w'"
  by (cases "fst (selinux_SetFileLabel lib s container_file_label (ext w))")
    (auto simp: try_SetFileLabel_def effect_simps extern_err_calm calm_def)

lemma setup_dir_calm:
  assumes "calm w" "is_dir (files w) (elems s)" "elems s \<noteq> []"
  shows "\<exists>w'. setup_dir lib s w = (Ok (), w') \<and> calm w'"
proof -
  from assms obtain a where "fmlookup (files w) (elems s) = Some (Dir a)"
    by (auto simp: is_dir_iff)
  with assms(1) obtain w1 w2 where "os_Chown s qemuUID qemuGID w = (Ok (), w1)"
    "os_Chmod s 509 w1 = (Ok (), w2)" "calm w2"
    by (simp add: os_Chown_def os_Chmod_def change_attrs_calm)
  with try_SetFileLabel_calm [of w2 lib s] show ?thesis
    by (auto simp: setup_dir_def effect_simps)
qed

lemma write_metadata_calm:
  assumes "calm w" "\<not> is_dir (files w) (elems m)" "is_dir (files w) (butlast (elems m))"
  shows "\<exists>w1 w2 w3. os_WriteFile m c 420 w = (Ok (), w1) \<and> os_Chown m qemuUID qemuGID w1 = (Ok (), w2)
    \<and> try_SetFileLabel lib m w2 = (Ok (), w3) \<and> calm w3"
proof -
  obtain w1 where wr: "os_WriteFile m c 420 w = (Ok (), w1)" and c1: "calm w1"
    using os_WriteFile_calm [OF assms] by blast
  obtain a where "fmlookup (files w1) (elems m) = Some (File a c)"
    using os_WriteFile_Ok [OF wr] by blast
  then obtain w2 where ch: "os_Chown m qemuUID qemuGID w1 = (Ok (), w2)" and c2: "calm w2"
    using c1 by (simp add: os_Chown_def change_attrs_calm)
  with wr try_SetFileLabel_calm [OF c2] show ?thesis by blast
qed

lemma makes_setup_dir: "steps_in (makes S) (setup_dir lib s)"
  unfolding setup_dir_def os_Chown_def os_Chmod_def
  by (intro making.in_call making.in_wrap makes_change_attrs makes_try_SetFileLabel)

lemma createClaimDirectory_calm:
  assumes "calm w" "plain n" "request_ok r" "\<not> in_the_way {claim_dir n r} w"
  shows "\<exists>s w'. createClaimDirectory lib n r d w = (Ok s, w') \<and> calm w'"
proof -
  let ?dir = "filepath_Join [baseDir, extractStableClaimName n, r]"
  let ?root = "filepath_Join [baseDir, extractStableClaimName n]"
  let ?meta = "filepath_Join [?dir, ''device.json'']"
  let ?S = "{claim_dir n r}"
  have el: "elems ?dir = claim_dir n r" "elems ?root = claim_root n" "elems ?meta = metadata_path (claim_dir n r)"
    using elems_claim_dir elems_claim_root elems_metadata assms(2,3) by simp_all
  have ne: "claim_dir n r \<noteq> []" "claim_root n \<noteq> []"
    by (simp_all add: claim_dir_def claim_root_def base_path_def)
  have S: "dirs_of ?S"
    using assms(2,3) by (auto simp: dirs_of_def)
  obtain w1 where mk: "os_MkdirAll ?dir 493 w = (Ok (), w1)" and c1: "calm w1"
    using os_MkdirAll_calm [OF assms(1), of ?dir 493] assms(4) el(1) by (auto simp: in_the_way_def)
  have dirs1: "is_dir (files w1) (claim_dir n r)" "is_dir (files w1) (claim_root n)"
    using os_MkdirAll_Ok [OF mk] el(1) by (auto simp: claim_dir_def)
  have m1: "makes ?S w w1"
    by (rule steps_inD [OF makes_mkdir_from mk [unfolded os_MkdirAll_def]]) (simp add: el on_the_way_def)
  obtain w2 where root: "setup_dir lib ?root w1 = (Ok (), w2)" and c2: "calm w2"
    using setup_dir_calm [OF c1] dirs1 ne el by metis
  have m2: "makes ?S w1 w2"
    by (rule steps_inD [OF makes_setup_dir root])
  obtain w3 where dir: "setup_dir lib ?dir w2 = (Ok (), w3)" and c3: "calm w3"
    using setup_dir_calm [OF c2] m2 dirs1 ne el unfolding makes_def by metis
  have m3: "makes ?S w2 w3"
    by (rule steps_inD [OF makes_setup_dir dir])
  have "\<not> in_the_way ?S w3"
    using making.step_trans [OF making.step_trans [OF m1 m2] m3] assms(4) S by (rule stays_clear)
  then have "\<not> is_dir (files w3) (elems ?meta)" "is_dir (files w3) (butlast (elems ?meta))"
    using m2 m3 dirs1(1) by (auto simp: in_the_way_def makes_def el(3)) (simp add: metadata_path_def)
  note room = this
  obtain c where mm: "marshal_metadata \<lparr>DeviceID = d\<rparr> = Inr c"
    by (simp add: marshal_metadata_def)
  obtain w4 w5 w6 where "os_WriteFile ?meta c 420 w3 = (Ok (), w4)" "os_Chown ?meta qemuUID qemuGID w4 = (Ok (), w5)"
    "try_SetFileLabel lib ?meta w5 = (Ok (), w6)" "calm w6"
    using write_metadata_calm [OF c3 room] by blast
  with mk root dir mm show ?thesis
    by (simp add: createClaimDirectory_def Let_def effect_simps)
qed

section \<open>Properties\<close>

text \<open>The characters of a DNS name: letters, digits, dash and dot.\<close>

definition label_char :: "char \<Rightarrow> bool" where
  "label_char c \<longleftrightarrow> is_alnum c \<or> byte c = 45 \<or> byte c = 46"

lemma label_char_json: "label_char c \<Longrightarrow> byte c < 128 \<and> json_escape_byte c = [c]"
  by (auto simp: label_char_def json_escape_byte_def byte_class_defs)

lemma json_escape_label: "list_all label_char s \<Longrightarrow> json_escape s = s"
  by (induction s) (auto simp: decode_rune_ascii label_char_json)

lemma metadata_of_label:
  assumes "list_all label_char d"
  shows "marshal_metadata \<lparr>DeviceID = d\<rparr> =
    Inr (CHR ''{'' # CHR 10 # ''  '' @ CHR 0x22 # ''device_id'' @ CHR 0x22 # '': '' @ CHR 0x22 # d @ [CHR 0x22, CHR 10, CHR ''}''])"
proof -
  have "json_escape ''device_id'' = ''device_id''"
    by code_simp
  then show ?thesis
    using assms by (simp add: marshal_metadata_def json_string_def json_escape_label)
qed

lemma sample_stable_name: "extractStableClaimName ''claim'' = ''claim''"
  by (rule extract_unchanged) (simp add: HasPrefix_def virtLauncherPrefix_def)

text \<open>
  C20: A creation that returns without an error, in any environment, returns the path of the
  request's directory; that directory and the claim's belong to qemu and are group writable, and
  the metadata file belongs to qemu and holds the device's name as JSON.
\<close>

theorem claim_directory_created:
  assumes "createClaimDirectory lib name request device w = (Ok s, w')"
    and "plain name" "request_ok request" "list_all label_char device"
  shows "s = filepath_Join [''/var/run/kubevirt/cdi'', extractStableClaimName name, request]
    \<and> (\<exists>a. fmlookup (files w') (claim_root name) = Some (Dir a)
        \<and> owner_uid a = 107 \<and> owner_gid a = 107 \<and> mode a = 509)
    \<and> (\<exists>a. fmlookup (files w') (claim_dir name request) = Some (Dir a)
        \<and> owner_uid a = 107 \<and> owner_gid a = 107 \<and> mode a = 509)
    \<and> (\<exists>a. fmlookup (files w') (claim_dir name request @ [''device.json'']) = Some (File a
          (CHR ''{'' # CHR 10 # ''  '' @ CHR 0x22 # ''device_id'' @ CHR 0x22 # '': '' @ CHR 0x22 # device
            @ [CHR 0x22, CHR 10, CHR ''}'']))
        \<and> owner_uid a = 107 \<and> owner_gid a = 107)"
proof (intro conjI)
  note facts = createClaimDirectory_Ok [OF assms(1-3)]
  show "s = filepath_Join [''/var/run/kubevirt/cdi'', extractStableClaimName name, request]"
    by (rule facts)
  show "\<exists>a. fmlookup (files w') (claim_root name) = Some (Dir a)
      \<and> owner_uid a = 107 \<and> owner_gid a = 107 \<and> mode a = 509"
    using facts(3) by (simp add: dir_ready_iff owned_by_qemu_def qemuUID_def qemuGID_def)
  show "\<exists>a. fmlookup (files w') (claim_dir name request) = Some (Dir a)
      \<and> owner_uid a = 107 \<and> owner_gid a = 107 \<and> mode a = 509"
    using facts(2) by (simp add: claim_ready_def dir_ready_iff owned_by_qemu_def qemuUID_def qemuGID_def)
  have "file_ready (files w') (claim_dir name request @ [''device.json'']) device"
    using facts(2) by (simp add: claim_ready_def metadata_path_def)
  then show "\<exists>a. fmlookup (files w') (claim_dir name request @ [''device.json'']) = Some (File a
          (CHR ''{'' # CHR 10 # ''  '' @ CHR 0x22 # ''device_id'' @ CHR 0x22 # '': '' @ CHR 0x22 # device
            @ [CHR 0x22, CHR 10, CHR ''}'']))
        \<and> owner_uid a = 107 \<and> owner_gid a = 107"
    unfolding file_ready_iff metadata_of_label [OF assms(4)]
    by (auto simp: owned_by_qemu_def qemuUID_def qemuGID_def)
qed

lemma sample_creation:
  "\<exists>s w'. createClaimDirectory sample_libraries ''claim'' ''red'' ''network-1'' (fresh_world empty_ext) = (Ok s, w')
    \<and> calm w'"
  by (rule createClaimDirectory_calm)
    (auto simp: in_the_way_def is_file_iff is_dir_iff plain_def request_ok_def)

theorem claim_directory_created_witness:
  "\<exists>a. fmlookup (files (snd (createClaimDirectory sample_libraries
      ''claim'' ''red'' ''network-1'' (fresh_world empty_ext))))
    [''var'', ''run'', ''kubevirt'', ''cdi'', ''claim'', ''red''] = Some (Dir a) \<and> mode a = 509"
proof -
  let ?n = "''claim''"
  have ok: "plain ?n" "request_ok ''red''" "list_all label_char ''network-1''"
    by (simp_all add: plain_def request_ok_def label_char_def byte_class_defs)
  from sample_creation obtain s w' where
    run: "createClaimDirectory sample_libraries ?n ''red'' ''network-1'' (fresh_world empty_ext) = (Ok s, w')"
    by (elim exE conjE) (rule that)
  have dir: "claim_dir ?n ''red'' = [''var'', ''run'', ''kubevirt'', ''cdi'', ''claim'', ''red'']"
    by (simp add: claim_dir_def claim_root_def base_path_def sample_stable_name)
  obtain a where "fmlookup (files w') (claim_dir ?n ''red'') = Some (Dir a)" "mode a = 509"
    using claim_directory_created [OF run ok] by blast
  then show ?thesis
    unfolding run dir snd_conv by blast
qed

text \<open>
  C21: In every run, creating the directory of a request changes only that directory, those on the
  way to it, and its metadata file; and deleting it changes only the directory and what is below it.
\<close>

theorem claim_directory_confined:
  assumes "plain name" "request_ok request"
  shows "(p = [] \<or> \<not> prefix p (claim_dir name request) \<and> p \<noteq> metadata_path (claim_dir name request)
      \<longrightarrow> fmlookup (files (snd (createClaimDirectory lib name request device w))) p = fmlookup (files w) p)
    \<and> (\<not> prefix (claim_dir name request) p
      \<longrightarrow> fmlookup (files (snd (deleteClaimDirectory name request w))) p = fmlookup (files w) p)"
proof -
  have "touches (creation_path (claim_dir name request)) w (snd (createClaimDirectory lib name request device w))"
    by (rule steps_inD [OF touches_createClaimDirectory [OF assms(1,2)] prod.collapse [symmetric]])
  moreover have "touches (prefix (claim_dir name request)) w (snd (deleteClaimDirectory name request w))"
    by (rule steps_inD [OF touches_deleteClaimDirectory [OF assms(1,2)] prod.collapse [symmetric]])
  ultimately show ?thesis
    by (auto simp: touches_def creation_path_def)
qed

theorem claim_directory_confined_witness:
  "fmlookup (files (snd (createClaimDirectory sample_libraries ''claim'' ''red'' ''network-1'' (fresh_world empty_ext))))
      [''etc'', ''passwd''] = None
    \<and> fmlookup (files (snd (deleteClaimDirectory ''claim'' ''red'' (world_with_dirs [[''var'']] empty_ext)))) [''var''] = Some (Dir root_attrs)"
  using claim_directory_confined [of "''claim''" "''red''" "[''etc'', ''passwd'']" sample_libraries
      "''network-1''" "fresh_world empty_ext"]
    claim_directory_confined [of "''claim''" "''red''" "[''var'']" sample_libraries
      "''network-1''" "world_with_dirs [[''var'']] empty_ext"]
  by (simp add: plain_def request_ok_def claim_dir_def claim_root_def base_path_def metadata_path_def)

text \<open>
  The host path that the profile mounts for a device, computed by the other copy of the
  naming functions, is the directory that the driver created for its request.
\<close>

lemma mount_is_claim_directory:
  assumes "createClaimDirectory lib claim (Request result) (Device result) w = (Ok s, w')"
    and "result \<in> set results" "distinct (map Device results)"
    and "network_ApplyConfig claim config results = Inr edits"
  shows "map_option (map HostPath \<circ> Mounts) (fmlookup edits (Device result)) = Some [s]"
proof -
  have s: "s = filepath_Join [''/var/run/kubevirt/cdi'', extractStableClaimName claim, Request result]"
    using assms(1) by (auto simp: createClaimDirectory_def Let_def baseDir_def elim!: call_OkE)
  have edits: "edits = fold (\<lambda>result. fmupd (Device result)
      (network_edits (network_extractStableClaimName claim) result)) results fmempty"
    using assms(4) by (simp add: network_ApplyConfig_def Let_def)
  have "fmlookup edits (Device result) = Some (network_edits (network_extractStableClaimName claim) result)"
    unfolding edits by (rule fmlookup_fold_upd_distinct [OF assms(2,3)])
  moreover have "map HostPath (Mounts (network_edits (network_extractStableClaimName claim) result)) = [s]"
    by (simp add: network_edits_def s network_extractStableClaimName_eq HostBaseDir_def Let_def)
  ultimately show ?thesis by simp
qed

end
