(* ===== verification/Device_Config.thy ===== *)
theory Device_Config
  imports Claim_Dirs "HOL-Library.Multiset"
begin

text \<open>
  The devices of a claim and their configuration (\<open>state.go\<close>): which opaque configuration
  applies to each allocated device, and what is reported and mounted for it. The lemmas state
  that the configurations are considered in the order of their sources, the precedence that
  follows from it, and that the result is, up to the order that Go's maps leave
  open, one device for each result of this driver.
\<close>

section \<open>The state of the driver\<close>

text \<open>
  The fields of \<open>DeviceState\<close>; its mutex is in the world, and the client of the API server
  among the third-party functions.
\<close>

record 'o DeviceState =
  driverName :: string
  cdi :: CDIHandler
  driverResources :: DriverResources
  allocatable :: AllocatableDevices
  configDecoder :: "string \<Rightarrow> go_error + 'o"
  configHandler :: "'o ConfigHandler"
  checkpointPath :: string
  checkpointDecoder :: decoder
  checkpointEncoder :: encoder

text \<open>
  A decoded configuration is a reference: the address, which is what Go compares when the
  object is the key of a map, and the object at it. The nil interface is \<open>None\<close>.
\<close>

type_synonym 'o object = "(nat \<times> 'o) option"

definition same_object :: "'o object \<Rightarrow> 'o object \<Rightarrow> bool" where
  "same_object a b \<longleftrightarrow> map_option fst a = map_option fst b"

record 'o OpaqueDeviceConfig =
  cfg_Requests :: "string list"
  cfg_Config :: "'o object"

definition GetDevices :: "PreparedDevices \<Rightarrow> pb_Device list" where
  "GetDevices pds = map pb_Device.truncate pds"

section \<open>The configurations of the claim\<close>

text \<open>The loop that sorts the configurations by their source.\<close>

fun split_by_source :: "DeviceAllocationConfiguration list \<Rightarrow> DeviceAllocationConfiguration list
    \<Rightarrow> DeviceAllocationConfiguration list
    \<Rightarrow> go_error + DeviceAllocationConfiguration list \<times> DeviceAllocationConfiguration list" where
  "split_by_source [] classConfigs claimConfigs = Inr (classConfigs, claimConfigs)"
| "split_by_source (config # configs) classConfigs claimConfigs =
    (case Source config of
       FromClass \<Rightarrow> split_by_source configs (classConfigs @ [config]) claimConfigs
     | FromClaim \<Rightarrow> split_by_source configs classConfigs (claimConfigs @ [config])
     | OtherSource source \<Rightarrow> Inl (ErrorString (''invalid config source: '' @ source)))"

text \<open>The loop that decodes the driver's configurations; each decoded object is a new one.\<close>

fun decode_configs :: "(string \<Rightarrow> go_error + 'o) \<Rightarrow> string \<Rightarrow> DeviceAllocationConfiguration list
    \<Rightarrow> 'o OpaqueDeviceConfig list \<Rightarrow> go_error + 'o OpaqueDeviceConfig list" where
  "decode_configs decoder driver [] resultConfigs = Inr resultConfigs"
| "decode_configs decoder driver (config # configs) resultConfigs =
    (case Opaque config of
       None \<Rightarrow> Inl (ErrorString ''only opaque parameters are supported by this driver'')
     | Some opaque \<Rightarrow>
        (if opaque_Driver opaque \<noteq> driver then decode_configs decoder driver configs resultConfigs
         else (case decoder (Parameters_Raw opaque) of
            Inl err \<Rightarrow> Inl (Wrapf ''error decoding config parameters'' err)
          | Inr decodedConfig \<Rightarrow> decode_configs decoder driver configs
              (resultConfigs @ [\<lparr>cfg_Requests = Requests config,
                cfg_Config = Some (length resultConfigs, decodedConfig)\<rparr>]))))"

definition GetOpaqueDeviceConfigs :: "(string \<Rightarrow> go_error + 'o) \<Rightarrow> string
    \<Rightarrow> DeviceAllocationConfiguration list \<Rightarrow> go_error + 'o OpaqueDeviceConfig list" where
  "GetOpaqueDeviceConfigs decoder driver possibleConfigs =
    (case split_by_source possibleConfigs [] [] of
       Inl err \<Rightarrow> Inl err
     | Inr (classConfigs, claimConfigs) \<Rightarrow> decode_configs decoder driver (classConfigs @ claimConfigs) [])"

definition checkAdminAccess :: "ResourceClaim \<Rightarrow> bool" where
  "checkAdminAccess claim =
    (case Allocation claim of
       None \<Rightarrow> False
     | Some alloc \<Rightarrow> list_ex (\<lambda>result. AdminAccess result = Some True) (Results alloc))"

section \<open>The devices of the claim\<close>

text \<open>Looking through the configurations from the last to the first.\<close>

definition pick_config :: "'o OpaqueDeviceConfig list \<Rightarrow> string \<Rightarrow> 'o OpaqueDeviceConfig option" where
  "pick_config configs request =
    find (\<lambda>c. cfg_Requests c = [] \<or> request \<in> set (cfg_Requests c)) (rev configs)"

type_synonym 'o config_results = "('o object \<times> DeviceRequestAllocationResult list) list"

text \<open>\<open>m[config] = append(m[config], result)\<close> on a map kept as a list of its entries.\<close>

fun append_result :: "'o object \<Rightarrow> DeviceRequestAllocationResult \<Rightarrow> 'o config_results \<Rightarrow> 'o config_results" where
  "append_result config result [] = [(config, [result])]"
| "append_result config result ((config', results) # m) =
    (if same_object config config' then (config', results @ [result]) # m
     else (config', results) # append_result config result m)"

fun assign_configs :: "'o DeviceState \<Rightarrow> 'o OpaqueDeviceConfig list \<Rightarrow> DeviceRequestAllocationResult list
    \<Rightarrow> 'o config_results \<Rightarrow> go_error + 'o config_results" where
  "assign_configs s configs [] m = Inr m"
| "assign_configs s configs (result # results) m =
    (if Driver result \<noteq> driverName s then assign_configs s configs results m
     else if fmlookup (allocatable s) (Device result) = None
       then Inl (ErrorString (''requested device is not allocatable: '' @ Device result))
     else assign_configs s configs results
       (case pick_config configs (Request result) of
          None \<Rightarrow> m
        | Some c \<Rightarrow> append_result (cfg_Config c) result m))"

fun apply_configs :: "'o ConfigHandler \<Rightarrow> string \<Rightarrow> 'o config_results \<Rightarrow> PerDeviceCDIContainerEdits
    \<Rightarrow> go_error + PerDeviceCDIContainerEdits" where
  "apply_configs handler claimName [] perDevice = Inr perDevice"
| "apply_configs handler claimName ((config, results) # entries) perDevice =
    (case ApplyConfig handler claimName (map_option snd config) results of
       Inl err \<Rightarrow> Inl (Wrapf ''error applying config'' err)
     | Inr containerEdits \<Rightarrow> apply_configs handler claimName entries (perDevice ++\<^sub>f containerEdits))"

definition prepared_device :: "('x, 'o) libraries \<Rightarrow> 'o DeviceState \<Rightarrow> ResourceClaim
    \<Rightarrow> PerDeviceCDIContainerEdits \<Rightarrow> DeviceRequestAllocationResult \<Rightarrow> PreparedDevice" where
  "prepared_device lib s claim perDevice result =
    \<lparr>RequestNames = [Request result], PoolName = Pool result, DeviceName = Device result,
     CdiDeviceIds = GetClaimDevices lib (cdi s) (claim_UID claim) [Device result],
     pd_ContainerEdits = fmlookup perDevice (Device result),
     pd_AdminAccess = checkAdminAccess claim\<rparr>"

text \<open>The two loops over \<open>configResultsMap\<close> visit its entries in two unrelated orders.\<close>

definition computeDeviceConfig :: "('x, 'o) libraries \<Rightarrow> 'o DeviceState \<Rightarrow> ResourceClaim
    \<Rightarrow> ('x, PreparedDevices) io" where
  "computeDeviceConfig lib s claim =
    (case Allocation claim of
       None \<Rightarrow> fail (ErrorString ''claim not yet allocated'')
     | Some alloc \<Rightarrow>
       call (wrap (Errorf ''error getting opaque device configs'')
         (lift_result (GetOpaqueDeviceConfigs (configDecoder s) (driverName s) (Config alloc))))
       (\<lambda>configs. let configs = \<lparr>cfg_Requests = [], cfg_Config = None\<rparr> # configs in
       call (lift_result (assign_configs s configs (Results alloc) []))
       (\<lambda>configResultsMap. call (range_perm (length configResultsMap))
       (\<lambda>order. call (lift_result (apply_configs (configHandler s) (claim_Name claim)
           (map (nth configResultsMap) order) fmempty))
       (\<lambda>perDevice. call (range_perm (length configResultsMap))
       (\<lambda>order. ok (concat (map (\<lambda>(config, results). map (prepared_device lib s claim perDevice) results)
           (map (nth configResultsMap) order)))))))))"

section \<open>Precedence\<close>

definition class_configs :: "DeviceAllocationConfiguration list \<Rightarrow> DeviceAllocationConfiguration list" where
  "class_configs = filter (\<lambda>c. Source c = FromClass)"

definition claim_configs :: "DeviceAllocationConfiguration list \<Rightarrow> DeviceAllocationConfiguration list" where
  "claim_configs = filter (\<lambda>c. Source c = FromClaim)"

definition valid_source :: "DeviceAllocationConfiguration \<Rightarrow> bool" where
  "valid_source c \<longleftrightarrow> Source c \<in> {FromClass, FromClaim}"

lemma split_by_source_eq:
  "split_by_source cs a b =
    (case find (\<lambda>c. \<not> valid_source c) cs of
       Some c \<Rightarrow> Inl (ErrorString (''invalid config source: '' @ source_text (Source c)))
     | None \<Rightarrow> Inr (a @ class_configs cs, b @ claim_configs cs))"
  by (induction cs a b rule: split_by_source.induct)
    (auto simp: class_configs_def claim_configs_def valid_source_def split: AllocationConfigSource.splits option.splits)

lemma sort_by_source:
  "list_all valid_source cs \<Longrightarrow> sort_key Source cs = class_configs cs @ claim_configs cs"
proof (induction cs)
  case (Cons c cs)
  have front: "insort_key Source c (xs @ ys) = xs @ insort_key Source c ys"
    if "Source c = FromClaim" "\<forall>x \<in> set xs. Source x = FromClass" for xs ys
    using that(2) by (induction xs) (simp_all add: that(1))
  have first: "insort_key Source c xs = c # xs" if "\<forall>x \<in> set xs. Source c \<le> Source x" for xs
    using that by (cases xs) simp_all
  from Cons show ?case
    by (auto simp: valid_source_def class_configs_def claim_configs_def front first)
qed (simp add: class_configs_def claim_configs_def)

lemma split_by_source_Inr:
  "split_by_source cs a b = Inr (a', b') \<Longrightarrow> a' = a @ class_configs cs \<and> b' = b @ claim_configs cs"
  by (auto simp: split_by_source_eq split: option.splits)

definition ours :: "string \<Rightarrow> DeviceAllocationConfiguration \<Rightarrow> bool" where
  "ours driver c \<longleftrightarrow> map_option opaque_Driver (Opaque c) = Some driver"

definition raw_of :: "DeviceAllocationConfiguration \<Rightarrow> string" where
  "raw_of c = (case Opaque c of None \<Rightarrow> [] | Some p \<Rightarrow> Parameters_Raw p)"

text \<open>What decoding makes of one configuration, and of a list of them.\<close>

definition decodes_to :: "(string \<Rightarrow> go_error + 'o) \<Rightarrow> DeviceAllocationConfiguration \<Rightarrow> 'o OpaqueDeviceConfig \<Rightarrow> bool" where
  "decodes_to decoder c d \<longleftrightarrow> cfg_Requests d = Requests c
    \<and> (\<exists>n x. cfg_Config d = Some (n, x) \<and> decoder (raw_of c) = Inr x)"

lemma decode_configs_Inr:
  "decode_configs decoder driver cs acc = Inr ds \<Longrightarrow>
    \<exists>es. ds = acc @ es \<and> list_all2 (decodes_to decoder) (filter (ours driver) cs) es"
proof (induction cs arbitrary: acc)
  case (Cons c cs)
  show ?case
  proof (cases "ours driver c")
    case False
    with Cons show ?thesis
      by (auto simp: ours_def split: option.splits)
  next
    case True
    then obtain p where p: "Opaque c = Some p" "opaque_Driver p = driver"
      by (auto simp: ours_def)
    with Cons.prems obtain x where x: "decoder (Parameters_Raw p) = Inr x"
      by (auto split: sum.splits)
    let ?d = "\<lparr>cfg_Requests = Requests c, cfg_Config = Some (length acc, x)\<rparr>"
    have "decode_configs decoder driver cs (acc @ [?d]) = Inr ds"
      using Cons.prems p x by simp
    from Cons.IH [OF this] obtain es where
      es: "ds = (acc @ [?d]) @ es" "list_all2 (decodes_to decoder) (filter (ours driver) cs) es" by blast
    moreover have "decodes_to decoder c ?d"
      using p x by (simp add: decodes_to_def raw_of_def)
    ultimately show ?thesis
      using True by (intro exI [of _ "?d # es"]) simp
  qed
qed simp

lemma GetOpaqueDeviceConfigs_Inr:
  assumes "GetOpaqueDeviceConfigs decoder driver possible = Inr ds"
  shows "list_all2 (decodes_to decoder)
    (filter (ours driver) (class_configs possible @ claim_configs possible)) ds"
  using assms decode_configs_Inr [of decoder driver _ "[]" ds]
  by (fastforce simp: GetOpaqueDeviceConfigs_def split: sum.splits prod.splits dest: split_by_source_Inr)

text \<open>
  The configuration that applies to a request, as the documentation has it: the last one of the
  claim that is the driver's and covers the request, else the last one of the class, else the
  default.
\<close>

definition covers :: "string \<Rightarrow> DeviceAllocationConfiguration \<Rightarrow> bool" where
  "covers request c \<longleftrightarrow> Requests c = [] \<or> request \<in> set (Requests c)"

definition precedence :: "string \<Rightarrow> DeviceAllocationConfiguration list \<Rightarrow> string
    \<Rightarrow> DeviceAllocationConfiguration option" where
  "precedence driver possible request =
    (let applies = (\<lambda>c. ours driver c \<and> covers request c) in
     case find applies (rev (claim_configs possible)) of
       Some c \<Rightarrow> Some c
     | None \<Rightarrow> find applies (rev (class_configs possible)))"

lemma pick_config_precedence:
  assumes "GetOpaqueDeviceConfigs decoder driver possible = Inr ds"
  shows "case precedence driver possible request of
      None \<Rightarrow> pick_config (\<lparr>cfg_Requests = [], cfg_Config = None\<rparr> # ds) request
        = Some \<lparr>cfg_Requests = [], cfg_Config = None\<rparr>
    | Some c \<Rightarrow> \<exists>d. pick_config (\<lparr>cfg_Requests = [], cfg_Config = None\<rparr> # ds) request = Some d
        \<and> decodes_to decoder c d"
proof -
  let ?all = "filter (ours driver) (class_configs possible @ claim_configs possible)"
  have "list_all2 (decodes_to decoder) (rev ?all) (rev ds)"
    using GetOpaqueDeviceConfigs_Inr [OF assms] by (simp only: list_all2_rev)
  then have "rel_option (decodes_to decoder) (find (covers request) (rev ?all))
      (find (\<lambda>c. cfg_Requests c = [] \<or> request \<in> set (cfg_Requests c)) (rev ds))"
    by (rule find_list_all2) (auto simp: decodes_to_def covers_def)
  moreover have "find (covers request) (rev ?all) = precedence driver possible request"
    by (auto simp: precedence_def Let_def find_append find_filter rev_filter split: option.splits)
  ultimately show ?thesis
    by (auto simp: pick_config_def find_append split: option.splits elim: option.rel_cases)
qed

text \<open>
  Decoding, without the loop: the configurations that concern the driver (its own, and those
  without opaque parameters, which it cannot tell) are decoded in order up to the first error,
  and each decoded object is a new one.
\<close>

definition concerns :: "string \<Rightarrow> DeviceAllocationConfiguration \<Rightarrow> bool" where
  "concerns driver c \<longleftrightarrow> (case Opaque c of None \<Rightarrow> True | Some p \<Rightarrow> opaque_Driver p = driver)"

definition decode_config :: "(string \<Rightarrow> go_error + 'o) \<Rightarrow> DeviceAllocationConfiguration
    \<Rightarrow> go_error + string list \<times> 'o" where
  "decode_config decoder c =
    (case Opaque c of
       None \<Rightarrow> Inl (ErrorString ''only opaque parameters are supported by this driver'')
     | Some p \<Rightarrow> (case decoder (Parameters_Raw p) of
         Inl e \<Rightarrow> Inl (Wrapf ''error decoding config parameters'' e)
       | Inr x \<Rightarrow> Inr (Requests c, x)))"

definition numbered :: "nat \<Rightarrow> (string list \<times> 'o) list \<Rightarrow> 'o OpaqueDeviceConfig list" where
  "numbered n ds = map (\<lambda>(i, requests, x). \<lparr>cfg_Requests = requests, cfg_Config = Some (i, x)\<rparr>) (enumerate n ds)"

lemma decode_configs_eq:
  "decode_configs decoder driver cs acc =
    map_sum id (\<lambda>ds. acc @ numbered (length acc) ds) (traverse (decode_config decoder) (filter (concerns driver) cs))"
proof (induction decoder driver cs acc rule: decode_configs.induct)
  case (1 decoder driver resultConfigs)
  show ?case by (simp add: numbered_def)
next
  case (2 decoder driver config configs resultConfigs)
  then show ?case
    by (auto simp: concerns_def decode_config_def numbered_def sum.map_comp comp_def split: option.splits sum.splits)
qed

lemma pick_config_default: "\<exists>d. pick_config (\<lparr>cfg_Requests = [], cfg_Config = None\<rparr> # ds) request = Some d"
  by (auto simp: pick_config_def find_append split: option.splits)

section \<open>One group for each result\<close>

definition own_results :: "'o DeviceState \<Rightarrow> DeviceRequestAllocationResult list \<Rightarrow> DeviceRequestAllocationResult list" where
  "own_results s rs = filter (\<lambda>r. Driver r = driverName s) rs"

definition grouped :: "'o config_results \<Rightarrow> DeviceRequestAllocationResult list" where
  "grouped m = concat (map snd m)"

lemma mset_append_result: "mset (grouped (append_result k r m)) = add_mset r (mset (grouped m))"
  by (induction k r m rule: append_result.induct) (auto simp: grouped_def)

lemma assign_configs_Inr:
  assumes "assign_configs s (\<lparr>cfg_Requests = [], cfg_Config = None\<rparr> # ds) rs m = Inr m'"
  shows "mset (grouped m') = mset (grouped m) + mset (own_results s rs)"
    and "r \<in> set (own_results s rs) \<Longrightarrow> fmlookup (allocatable s) (Device r) \<noteq> None"
  using assms
proof (induction rs arbitrary: m)
  case (Cons x rs)
  obtain c where c: "pick_config (\<lparr>cfg_Requests = [], cfg_Config = None\<rparr> # ds) (Request x) = Some c"
    using pick_config_default by blast
  {
    case 1
    with Cons.IH(1) c show ?case
      by (auto simp: own_results_def mset_append_result split: if_splits)
  next
    case 2
    with Cons.IH(2) c show ?case
      by (auto simp: own_results_def split: if_splits)
  }
qed (simp_all add: own_results_def)

lemma assign_configs_total:
  assumes "\<And>r. r \<in> set (own_results s rs) \<Longrightarrow> fmlookup (allocatable s) (Device r) \<noteq> None"
  shows "\<exists>m'. assign_configs s configs rs m = Inr m'"
  using assms
proof (induction rs arbitrary: m)
  case (Cons a rs)
  have "\<exists>m'. assign_configs s configs rs m = Inr m'" for m
    using Cons.IH Cons.prems by (simp add: own_results_def)
  moreover have "fmlookup (allocatable s) (Device a) \<noteq> None" if "Driver a = driverName s"
    using Cons.prems [of a] that by (simp add: own_results_def)
  ultimately show ?case by auto
qed simp

lemma assign_configs_Inl:
  "assign_configs s configs rs m = Inl e \<Longrightarrow>
    \<exists>r \<in> set (own_results s rs). fmlookup (allocatable s) (Device r) = None
      \<and> e = ErrorString (''requested device is not allocatable: '' @ Device r)"
  by (induction rs arbitrary: m) (auto simp: own_results_def split: if_splits)

text \<open>Every permutation of the entries shows the same results.\<close>

lemma range_perm_result:
  obtains order w' where "range_perm n w = (Ok order, w')" "mset order = mset [0..<n]"
    "files w' = files w" "ext w' = ext w" "env w' = env w" "mutex w' = mutex w"
proof -
  let ?o = "range_order (env w) (ticks w) n"
  let ?order = "if sort ?o = [0..<n] then ?o else [0..<n]"
  have "mset ?order = mset [0..<n]"
    by (cases "sort ?o = [0..<n]") (simp_all del: mset_upt, metis mset_sort)
  with that [of ?order "tick w"] show thesis
    by (simp add: range_perm_def Let_def)
qed

lemma mset_permuted: "mset order = mset [0..<length xs] \<Longrightarrow> mset (map (nth xs) order) = mset xs"
  by (metis map_nth mset_map)

lemma mset_concat_permuted: "mset xss = mset yss \<Longrightarrow> mset (concat xss) = mset (concat yss)"
  by (metis mset_concat mset_map sum_mset_sum_list)

lemma mset_grouped_permuted: "mset gs = mset m \<Longrightarrow> mset (grouped gs) = mset (grouped m)"
  unfolding grouped_def by (rule mset_concat_permuted) simp

lemma concat_map_groups: "concat (map (\<lambda>(c, rs). map f rs) gs) = map f (grouped gs)"
  by (induction gs) (auto simp: grouped_def)

section \<open>The merged edits\<close>

context config_handler
begin

text \<open>
  Where no device is named twice, merging the edits of the groups loses none of them and mixes
  none up, in whichever order the groups come.
\<close>

lemma merged_edits:
  assumes "ApplyConfig h = apply_config" "apply_configs h name gs e0 = Inr e"
    and "distinct (map Device (grouped gs))" "(c, rs) \<in> set gs" "r \<in> set rs"
    and "apply_config name (map_option snd c) rs = Inr eg" "fmlookup eg (Device r) = Some x"
  shows "fmlookup e (Device r) = Some x"
  using assms(2-4)
proof (induction gs arbitrary: e0)
  case (Cons g gs)
  obtain k ks where g: "g = (k, ks)" by fastforce
  with Cons.prems(1) assms(1) obtain eg' where eg': "apply_config name (map_option snd k) ks = Inr eg'"
    and rest: "apply_configs h name gs (e0 ++\<^sub>f eg') = Inr e"
    by (auto split: sum.splits)
  have others: "Device r' \<noteq> Device r" if "r \<in> set ks" "r' \<in> set (grouped gs)" for r'
    using Cons.prems(2) g that by (auto simp: grouped_def)
  have later: "fmlookup e d = fmlookup e1 d"
    if "apply_configs h name hs e1 = Inr e" "d \<notin> Device ` set (grouped hs)" for hs e1 d
    using that
  proof (induction hs arbitrary: e1)
    case (Cons a hs)
    obtain k' ks' where a: "a = (k', ks')" by fastforce
    with Cons.prems(1) assms(1) obtain ea where ea: "apply_config name (map_option snd k') ks' = Inr ea"
      and r: "apply_configs h name hs (e1 ++\<^sub>f ea) = Inr e"
      by (auto split: sum.splits)
    have "d \<notin> fmdom' ea"
      using edits_of_results [OF ea] Cons.prems(2) a by (auto simp: grouped_def)
    then have "d |\<notin>| fmdom ea"
      by (simp add: fmdom'_alt_def)
    with Cons.IH [OF r] Cons.prems(2) a show ?case
      by (simp add: grouped_def image_Un)
  qed simp
  show ?case
  proof (cases "(c, rs) = g")
    case True
    with g eg' assms(6) have "eg' = eg" "ks = rs" by auto
    have "Device r \<notin> Device ` set (grouped gs)"
      using others assms(5) \<open>ks = rs\<close> by force
    then have "fmlookup e (Device r) = fmlookup (e0 ++\<^sub>f eg') (Device r)"
      by (rule later [OF rest])
    with \<open>eg' = eg\<close> assms(7) show ?thesis
      by (auto dest: fmdomI)
  next
    case False
    with Cons.IH [OF rest] Cons.prems(2,3) g show ?thesis
      by (auto simp: grouped_def)
  qed
qed simp

end

lemma apply_configs_network_total: "\<exists>e. apply_configs network_handler name gs e0 = Inr e"
  by (induction gs arbitrary: e0) (auto simp: network_handler_def network_ApplyConfig_def Let_def)

lemma apply_configs_network:
  assumes "apply_configs network_handler name gs e0 = Inr e" "distinct (map Device (grouped gs))"
    and "r \<in> set (grouped gs)"
  shows "fmlookup e (Device r) = Some (network_edits (extractStableClaimName name) r)"
proof -
  from assms(3) obtain c rs where g: "(c, rs) \<in> set gs" "r \<in> set rs"
    by (auto simp: grouped_def)
  from split_list [OF g(1)] have "distinct (map Device rs)"
    using assms(2) by (auto simp: grouped_def)
  then have "fmlookup (fold (\<lambda>r. fmupd (Device r) (network_edits (extractStableClaimName name) r)) rs fmempty) (Device r)
      = Some (network_edits (extractStableClaimName name) r)"
    using g(2) by (intro fmlookup_fold_upd_distinct)
  then show ?thesis
    by (intro network.merged_edits [OF _ assms(1,2) g])
      (simp_all add: network_handler_def network_ApplyConfig_def Let_def network_extractStableClaimName_eq)
qed

section \<open>The result of the computation\<close>

lemma touches_computeDeviceConfig [effect_rules]: "steps_in (touches P) (computeDeviceConfig lib s claim)"
  unfolding computeDeviceConfig_def Let_def
  by (auto intro!: touch.in_rules touches_range_perm split: option.splits)

lemma keeps_ext_computeDeviceConfig [effect_rules]: "steps_in keeps_ext (computeDeviceConfig lib s claim)"
  unfolding computeDeviceConfig_def Let_def
  by (auto intro!: kext.in_rules keeps_ext_range_perm split: option.splits)

text \<open>The identity the kubelet is told for a result of this driver.\<close>

definition reported :: "('x, 'o) libraries \<Rightarrow> 'o DeviceState \<Rightarrow> ResourceClaim \<Rightarrow> DeviceRequestAllocationResult \<Rightarrow> pb_Device" where
  "reported lib s claim r = \<lparr>RequestNames = [Request r], PoolName = Pool r, DeviceName = Device r,
    CdiDeviceIds = map (cdi_QualifiedName lib (vendor (cdi s)) (cdi_class (cdi s)))
      [''common'', claim_UID claim @ ''-'' @ Device r]\<rparr>"

lemma truncate_prepared_device: "pb_Device.truncate (prepared_device lib s claim e r) = reported lib s claim r"
  by (simp add: prepared_device_def pb_Device.truncate_def reported_def GetClaimDevices_eq cdiCommonDeviceName_def)

lemma computeDeviceConfig_Ok:
  assumes "computeDeviceConfig lib s claim w = (Ok ds, w')"
  obtains alloc configs m gs e where "Allocation claim = Some alloc"
    "GetOpaqueDeviceConfigs (configDecoder s) (driverName s) (Config alloc) = Inr configs"
    "assign_configs s (\<lparr>cfg_Requests = [], cfg_Config = None\<rparr> # configs) (Results alloc) [] = Inr m"
    "mset gs = mset m" "apply_configs (configHandler s) (claim_Name claim) gs fmempty = Inr e"
    "mset ds = mset (map (prepared_device lib s claim e) (grouped m))"
proof -
  from assms obtain alloc where alloc: "Allocation claim = Some alloc"
    by (auto simp: computeDeviceConfig_def split: option.splits)
  let ?dec = "GetOpaqueDeviceConfigs (configDecoder s) (driverName s) (Config alloc)"
  from assms alloc obtain configs where configs: "?dec = Inr configs"
    by (cases ?dec) (auto simp: computeDeviceConfig_def elim!: call_OkE)
  let ?as = "assign_configs s (\<lparr>cfg_Requests = [], cfg_Config = None\<rparr> # configs) (Results alloc) []"
  from assms alloc configs obtain m where m: "?as = Inr m"
    by (cases ?as) (auto simp: computeDeviceConfig_def effect_simps)
  obtain o1 w1 where o1: "range_perm (length m) w = (Ok o1, w1)" "mset o1 = mset [0..<length m]"
    using range_perm_result by metis
  let ?gs = "map (nth m) o1"
  let ?ap = "apply_configs (configHandler s) (claim_Name claim) ?gs fmempty"
  from assms alloc configs m o1(1) obtain e where e: "?ap = Inr e"
    by (cases ?ap) (auto simp: computeDeviceConfig_def effect_simps)
  obtain o2 w2 where o2: "range_perm (length m) w1 = (Ok o2, w2)" "mset o2 = mset [0..<length m]"
    using range_perm_result by metis
  have "ds = map (prepared_device lib s claim e) (grouped (map (nth m) o2))"
    using assms alloc configs m o1(1) e o2(1)
    by (simp add: computeDeviceConfig_def effect_simps concat_map_groups del: map_map list.map_comp)
  then have "mset ds = mset (map (prepared_device lib s claim e) (grouped m))"
    using mset_grouped_permuted [OF mset_permuted [OF o2(2)]] by simp
  then show thesis
    using that [OF alloc configs m mset_permuted [OF o1(2)] e] by blast
qed

lemma compute_network_returns:
  assumes "configHandler s = network_handler" "Allocation claim = Some alloc"
    and "GetOpaqueDeviceConfigs (configDecoder s) (driverName s) (Config alloc) = Inr configs"
    and "list_all (\<lambda>r. fmlookup (allocatable s) (Device r) \<noteq> None) (own_results s (Results alloc))"
  shows "\<exists>ds w'. computeDeviceConfig lib s claim w = (Ok ds, w') \<and> files w' = files w \<and> ext w' = ext w"
proof -
  let ?cs = "\<lparr>cfg_Requests = [], cfg_Config = None\<rparr> # configs"
  obtain m where m: "assign_configs s ?cs (Results alloc) [] = Inr m"
    using assign_configs_total [of s "Results alloc" ?cs "[]"] assms(4) by (auto simp: list_all_iff)
  obtain o1 w1 where o1: "range_perm (length m) w = (Ok o1, w1)"
    using range_perm_result by metis
  obtain o2 w2 where o2: "range_perm (length m) w1 = (Ok o2, w2)"
    using range_perm_result by metis
  obtain e where e: "apply_configs network_handler (claim_Name claim) (map (nth m) o1) fmempty = Inr e"
    using apply_configs_network_total by blast
  obtain ds where run: "computeDeviceConfig lib s claim w = (Ok ds, w2)"
    using assms(1-3) m o1(1) e o2 by (simp add: computeDeviceConfig_def effect_simps)
  moreover have "files w2 = files w" "ext w2 = ext w"
    using steps_inD [OF touches_computeDeviceConfig run] steps_inD [OF keeps_ext_computeDeviceConfig run]
    by (simp_all add: touches_nothing keeps_ext_def)
  ultimately show ?thesis by blast
qed

text \<open>What the network profile's driver prepares for a result.\<close>

definition network_prepared :: "('x, 'o) libraries \<Rightarrow> 'o DeviceState \<Rightarrow> ResourceClaim \<Rightarrow> DeviceRequestAllocationResult \<Rightarrow> PreparedDevice" where
  "network_prepared lib s claim r =
    \<lparr>RequestNames = [Request r], PoolName = Pool r, DeviceName = Device r,
     CdiDeviceIds = GetClaimDevices lib (cdi s) (claim_UID claim) [Device r],
     pd_ContainerEdits = Some (network_edits (extractStableClaimName (claim_Name claim)) r),
     pd_AdminAccess = checkAdminAccess claim\<rparr>"

text \<open>Where no device is named twice, each computed device has the edits of its own result.\<close>

lemma computed_network_mset:
  assumes "computeDeviceConfig lib s claim w = (Ok ds, w')" "configHandler s = network_handler"
    and "Allocation claim = Some alloc" "distinct (map Device (own_results s (Results alloc)))"
  shows "mset ds = mset (map (network_prepared lib s claim) (own_results s (Results alloc)))"
proof -
  obtain configs m gs e where m: "assign_configs s (\<lparr>cfg_Requests = [], cfg_Config = None\<rparr> # configs) (Results alloc) [] = Inr m"
    and gs: "mset gs = mset m" "apply_configs network_handler (claim_Name claim) gs fmempty = Inr e"
    and ds: "mset ds = mset (map (prepared_device lib s claim e) (grouped m))"
    using computeDeviceConfig_Ok [OF assms(1)] assms(2,3) by (metis option.inject)
  have own: "mset (grouped m) = mset (own_results s (Results alloc))"
    using assign_configs_Inr(1) [OF m] by (simp add: grouped_def)
  then have gown: "mset (grouped gs) = mset (own_results s (Results alloc))"
    using mset_grouped_permuted [OF gs(1)] by simp
  then have "distinct (map Device (grouped gs))" "set (grouped gs) = set (own_results s (Results alloc))"
    using assms(4) by (metis mset_eq_imp_distinct_iff mset_map, metis set_mset_mset)
  then have "fmlookup e (Device r) = Some (network_edits (extractStableClaimName (claim_Name claim)) r)"
    if "r \<in> set (own_results s (Results alloc))" for r
    using apply_configs_network [OF gs(2)] that by simp
  then have "map (prepared_device lib s claim e) (own_results s (Results alloc))
      = map (network_prepared lib s claim) (own_results s (Results alloc))"
    by (simp add: prepared_device_def network_prepared_def)
  moreover have "mset ds = mset (map (prepared_device lib s claim e) (own_results s (Results alloc)))"
    using ds own by simp
  ultimately show ?thesis by metis
qed

section \<open>Properties\<close>

text \<open>
  C17: The configuration applied to a request follows the documented precedence, whatever order
  the configurations come in: the last configuration of the claim that is the driver's and covers
  the request, else the last such one of the device class, else the default.
\<close>

theorem config_precedence:
  assumes "GetOpaqueDeviceConfigs decoder driver possible = Inr configs"
  shows "\<exists>c. pick_config (\<lparr>cfg_Requests = [], cfg_Config = None\<rparr> # configs) request = Some c
    \<and> (case precedence driver possible request of
        None \<Rightarrow> cfg_Config c = None
      | Some raw \<Rightarrow> \<exists>n x. cfg_Config c = Some (n, x) \<and> decoder (raw_of raw) = Inr x)"
  using pick_config_precedence [OF assms, of request]
  by (auto simp: decodes_to_def split: option.splits)

definition opaque_config :: "AllocationConfigSource \<Rightarrow> string list \<Rightarrow> string \<Rightarrow> DeviceAllocationConfiguration" where
  "opaque_config source requests raw = \<lparr>Source = source, Requests = requests,
    Opaque = Some \<lparr>opaque_Driver = ''network.example.com'', Parameters_Raw = raw\<rparr>\<rparr>"

theorem config_precedence_witness:
  "\<exists>c. pick_config (\<lparr>cfg_Requests = [], cfg_Config = None\<rparr>
      # projr (GetOpaqueDeviceConfigs (\<lambda>raw. Inr raw) ''network.example.com''
        [opaque_config FromClaim [] ''a'', opaque_config FromClaim [''red''] ''b'', opaque_config FromClass [] ''c'']))
      ''red'' = Some c
    \<and> map_option snd (cfg_Config c) = Some ''b''"
proof -
  let ?cs = "[opaque_config FromClaim [] ''a'', opaque_config FromClaim [''red''] ''b'', opaque_config FromClass [] ''c'']"
  let ?run = "GetOpaqueDeviceConfigs (\<lambda>raw. Inr raw) ''network.example.com'' ?cs"
  have "\<exists>ds. ?run = Inr ds"
    by (simp add: GetOpaqueDeviceConfigs_def opaque_config_def)
  then obtain ds where ds: "?run = Inr ds" by blast
  have prec: "precedence ''network.example.com'' ?cs ''red'' = Some (opaque_config FromClaim [''red''] ''b'')"
    by (simp add: precedence_def opaque_config_def claim_configs_def ours_def covers_def)
  have raw: "raw_of (opaque_config FromClaim [''red''] ''b'') = ''b''"
    by (simp add: raw_of_def opaque_config_def)
  show ?thesis
    using config_precedence [OF ds, of "''red''"] unfolding prec ds sum.sel(2) by (auto simp: raw)
qed

text \<open>
  C18: What the driver makes of the configurations of a claim, on every input and with every error:
  it is the reference that sorts them stably by their source, the device class before the claim,
  keeps those that concern the driver and decodes them one by one up to the first error; a
  configuration of an unknown source is refused before anything is decoded.
\<close>

theorem configs_in_order:
  "GetOpaqueDeviceConfigs decoder driver cs =
    (case find (\<lambda>c. Source c \<noteq> FromClass \<and> Source c \<noteq> FromClaim) cs of
       Some c \<Rightarrow> Inl (ErrorString (''invalid config source: '' @ source_text (Source c)))
     | None \<Rightarrow> map_sum id (numbered 0)
         (traverse (decode_config decoder) (filter (concerns driver) (sort_key Source cs))))"
proof (cases "find (\<lambda>c. \<not> valid_source c) cs")
  case None
  then have "list_all valid_source cs"
    by (auto simp: find_None_iff list_all_iff)
  with None show ?thesis
    by (simp add: GetOpaqueDeviceConfigs_def split_by_source_eq decode_configs_eq sort_by_source valid_source_def)
next
  case (Some c)
  then show ?thesis
    by (simp add: GetOpaqueDeviceConfigs_def split_by_source_eq valid_source_def)
qed

lemma computed_mset:
  assumes "computeDeviceConfig lib s claim w = (Ok ds, w')" "Allocation claim = Some alloc"
  shows "mset (GetDevices ds) = mset (map (reported lib s claim) (own_results s (Results alloc)))"
proof -
  obtain configs m e where m: "assign_configs s (\<lparr>cfg_Requests = [], cfg_Config = None\<rparr> # configs) (Results alloc) [] = Inr m"
    and ds: "mset ds = mset (map (prepared_device lib s claim e) (grouped m))"
    using computeDeviceConfig_Ok [OF assms(1)] assms(2) by (metis option.inject)
  have own: "mset (grouped m) = mset (own_results s (Results alloc))"
    using assign_configs_Inr(1) [OF m] by (simp add: grouped_def)
  have "mset (GetDevices ds) = image_mset (pb_Device.truncate \<circ> prepared_device lib s claim e) (mset (grouped m))"
    using ds by (simp add: GetDevices_def multiset.map_comp)
  also have "\<dots> = mset (map (reported lib s claim) (own_results s (Results alloc)))"
    using own by (simp add: comp_def truncate_prepared_device)
  finally show ?thesis .
qed

text \<open>A driver with three network devices, and a claim for two of them.\<close>

definition sample_state :: "string DeviceState" where
  "sample_state = \<lparr>driverName = ''network.example.com'', cdi = sample_cdi,
    driverResources = \<lparr>Pools = fmap_of_list [(''node-a'', \<lparr>Slices = [\<lparr>slice_Devices = enumerate_from 0 3 []\<rparr>]\<rparr>)]\<rparr>,
    allocatable = fmap_of_list (map (\<lambda>d. (device_Name d, d)) (map network_device [0, 1, 2])),
    configDecoder = config_Decode sample_libraries [], configHandler = network_handler,
    checkpointPath = sample_path, checkpointDecoder = sample_decoder, checkpointEncoder = sample_encoder\<rparr>"

definition sample_claim :: ResourceClaim where
  "sample_claim = \<lparr>claim_UID = ''123'', claim_Name = ''claim'', claim_Namespace = ''default'',
    Allocation = Some \<lparr>Results = [sample_result ''red'' ''network-0'', sample_result ''blue'' ''network-1''], Config = []\<rparr>,
    Status_Devices = []\<rparr>"

lemma sample_state_simps [simp]:
  "driverName sample_state = ''network.example.com''" "cdi sample_state = sample_cdi"
  "configHandler sample_state = network_handler" "checkpointPath sample_state = sample_path"
  "checkpointDecoder sample_state = sample_decoder" "checkpointEncoder sample_state = sample_encoder"
  by (simp_all add: sample_state_def)

lemma sample_claim_simps [simp]:
  "claim_UID sample_claim = ''123''" "claim_Name sample_claim = ''claim''"
  "Allocation sample_claim = Some \<lparr>Results = [sample_result ''red'' ''network-0'', sample_result ''blue'' ''network-1''], Config = []\<rparr>"
  by (simp_all add: sample_claim_def)

lemma sample_result_simps [simp]:
  "Request (sample_result r d) = r" "Driver (sample_result r d) = ''network.example.com''"
  "Pool (sample_result r d) = ''node-a''" "Device (sample_result r d) = d" "AdminAccess (sample_result r d) = None"
  by (simp_all add: sample_result_def)

lemma sample_allocatable:
  "fmlookup (allocatable sample_state) ''network-0'' \<noteq> None" "fmlookup (allocatable sample_state) ''network-1'' \<noteq> None"
proof -
  have "device_Name (network_device 0) = ''network-0''" "device_Name (network_device 1) = ''network-1''"
    by code_simp+
  then show "fmlookup (allocatable sample_state) ''network-0'' \<noteq> None" "fmlookup (allocatable sample_state) ''network-1'' \<noteq> None"
    by (simp_all add: sample_state_def)
qed

lemma sample_own_results:
  "own_results sample_state [sample_result ''red'' ''network-0'', sample_result ''blue'' ''network-1'']
    = [sample_result ''red'' ''network-0'', sample_result ''blue'' ''network-1'']"
  by (simp add: own_results_def)

text \<open>
  C19: For every profile and every order of Go's maps, the devices computed for a claim are, as a
  multiset, one for each result of this driver (with its request, pool and CDI identifiers) and
  none for the results of other drivers; every one of them is a device the driver advertises, and
  all carry the claim's admin access.
\<close>

theorem computed_devices_reported:
  assumes "computeDeviceConfig lib s claim w = (Ok ds, w')"
  shows "\<exists>alloc. Allocation claim = Some alloc
    \<and> mset (GetDevices ds) = mset (map (reported lib s claim) (filter (\<lambda>r. Driver r = driverName s) (Results alloc)))
    \<and> (\<forall>d \<in> set ds. fmlookup (allocatable s) (DeviceName d) \<noteq> None
        \<and> pd_AdminAccess d = list_ex (\<lambda>r. AdminAccess r = Some True) (Results alloc))"
proof -
  obtain alloc configs m gs e where alloc: "Allocation claim = Some alloc"
    and m: "assign_configs s (\<lparr>cfg_Requests = [], cfg_Config = None\<rparr> # configs) (Results alloc) [] = Inr m"
    and ds: "mset ds = mset (map (prepared_device lib s claim e) (grouped m))"
    using assms by (rule computeDeviceConfig_Ok)
  have own: "mset (grouped m) = mset (own_results s (Results alloc))"
    using assign_configs_Inr(1) [OF m] by (simp add: grouped_def)
  have rep: "mset (GetDevices ds) = mset (map (reported lib s claim) (own_results s (Results alloc)))"
    using assms alloc by (rule computed_mset)
  have members: "d \<in> prepared_device lib s claim e ` set (own_results s (Results alloc))" if "d \<in> set ds" for d
  proof -
    have "set ds = prepared_device lib s claim e ` set (grouped m)"
      using ds by (metis list.set_map set_mset_mset)
    moreover have "set (grouped m) = set (own_results s (Results alloc))"
      using own by (metis set_mset_mset)
    ultimately show ?thesis using that by simp
  qed
  have "fmlookup (allocatable s) (DeviceName d) \<noteq> None
      \<and> pd_AdminAccess d = list_ex (\<lambda>r. AdminAccess r = Some True) (Results alloc)" if "d \<in> set ds" for d
    using members [OF that] assign_configs_Inr(2) [OF m] alloc
    by (auto simp: prepared_device_def checkAdminAccess_def)
  with alloc rep show ?thesis
    by (auto simp: own_results_def)
qed

text \<open>
  With the network profile the computation returns, in every environment, whenever the
  claim's configurations decode and its devices are advertised; where no device is named twice,
  the devices are the same multiset whatever orders Go's maps take, each with the edits of its own
  result; and nothing but the clock is changed.
\<close>

lemma compute_network_devices:
  assumes "configHandler s = network_handler" "Allocation claim = Some alloc"
    and "GetOpaqueDeviceConfigs (configDecoder s) (driverName s) (Config alloc) = Inr configs"
    and "list_all (\<lambda>r. fmlookup (allocatable s) (Device r) \<noteq> None) (own_results s (Results alloc))"
    and "distinct (map Device (own_results s (Results alloc)))"
  shows "\<exists>ds w'. computeDeviceConfig lib s claim w = (Ok ds, w')
    \<and> files w' = files w \<and> ext w' = ext w
    \<and> mset ds = mset (map (network_prepared lib s claim) (own_results s (Results alloc)))"
  using compute_network_returns [OF assms(1-4)] computed_network_mset [OF _ assms(1,2,5)] by blast

lemma sample_compute_hyps:
  "GetOpaqueDeviceConfigs (configDecoder sample_state) (driverName sample_state)
    (Config \<lparr>Results = [sample_result ''red'' ''network-0'', sample_result ''blue'' ''network-1''], Config = []\<rparr>) = Inr []"
  "list_all (\<lambda>r. fmlookup (allocatable sample_state) (Device r) \<noteq> None) (own_results sample_state
    (Results \<lparr>Results = [sample_result ''red'' ''network-0'', sample_result ''blue'' ''network-1''], Config = []\<rparr>))"
  "distinct (map Device (own_results sample_state
    (Results \<lparr>Results = [sample_result ''red'' ''network-0'', sample_result ''blue'' ''network-1''], Config = []\<rparr>)))"
  using sample_allocatable by (simp_all add: GetOpaqueDeviceConfigs_def sample_own_results)

theorem computed_devices_reported_witness:
  "\<exists>ds. fst (computeDeviceConfig sample_libraries sample_state sample_claim (fresh_world empty_ext)) = Ok ds
    \<and> mset (GetDevices ds) = {#reported sample_libraries sample_state sample_claim (sample_result ''red'' ''network-0''),
      reported sample_libraries sample_state sample_claim (sample_result ''blue'' ''network-1'')#}"
proof -
  from compute_network_returns [OF sample_state_simps(3) sample_claim_simps(3) sample_compute_hyps(1,2),
      of sample_libraries "fresh_world empty_ext"]
  obtain ds w' where
    run: "computeDeviceConfig sample_libraries sample_state sample_claim (fresh_world empty_ext) = (Ok ds, w')"
    by (elim exE conjE) (rule that)
  from computed_devices_reported [OF run] have
    "mset (GetDevices ds) = {#reported sample_libraries sample_state sample_claim (sample_result ''red'' ''network-0''),
      reported sample_libraries sample_state sample_claim (sample_result ''blue'' ''network-1'')#}"
    by (elim exE conjE) simp
  then show ?thesis
    unfolding run by (intro exI conjI) simp_all
qed

end
