(* ===== verification/Float_Conversion.thy ===== *)
theory Float_Conversion
  imports "HOL-Library.Word" "HOL-Library.Log_Nat"
begin

text \<open>
  Go's conversion \<open>float32(x)\<close> of a \<open>float64\<close>, on the bits of the two formats of IEEE 754, with
  rounding to the nearest value, ties to even. A finite value is given in units of the smallest
  positive one of its format, \<open>2^-1074\<close> and \<open>2^-149\<close>, so that all of it is arithmetic of integers.
\<close>

type_synonym float64 = "64 word"
type_synonym float32 = "32 word"

section \<open>The formats\<close>

definition f64_exp :: "float64 \<Rightarrow> nat" where
  "f64_exp x = unat x div 2 ^ 52 mod 2 ^ 11"

definition f64_frac :: "float64 \<Rightarrow> nat" where
  "f64_frac x = unat x mod 2 ^ 52"

definition f64_negative :: "float64 \<Rightarrow> bool" where
  "f64_negative x \<longleftrightarrow> 2 ^ 63 \<le> unat x"

definition f64_mantissa :: "float64 \<Rightarrow> nat" where
  "f64_mantissa x = (if f64_exp x = 0 then f64_frac x else 2 ^ 52 + f64_frac x)"

definition f64_units :: "float64 \<Rightarrow> int" where
  "f64_units x = (if f64_negative x then - 1 else 1) * int (f64_mantissa x * 2 ^ (f64_exp x - 1))"

definition f32_units :: "float32 \<Rightarrow> int" where
  "f32_units y = (let e = unat y div 2 ^ 23 mod 2 ^ 8; f = unat y mod 2 ^ 23 in
    (if 2 ^ 31 \<le> unat y then - 1 else 1) * int ((if e = 0 then f else 2 ^ 23 + f) * 2 ^ (e - 1)))"

section \<open>The conversion\<close>

text \<open>\<open>m / 2^k\<close>, to the nearest integer, ties to even.\<close>

definition round_even :: "nat \<Rightarrow> nat \<Rightarrow> nat" where
  "round_even m k = (let q = m div 2 ^ k; r = m mod 2 ^ k in
    if 2 ^ k < 2 * r \<or> 2 ^ k = 2 * r \<and> odd q then q + 1 else q)"

text \<open>
  The bits of the result without the sign: infinities and quiet NaNs, zero, and otherwise the
  mantissa rounded to 24 bits, or to the smallest unit of the narrow format. A mantissa that is
  rounded up to \<open>2^24\<close> carries into the exponent; beyond the range the result is infinite.
\<close>

definition float32_magnitude :: "float64 \<Rightarrow> nat" where
  "float32_magnitude x =
    (let e = f64_exp x; m = f64_mantissa x in
     if e = 2047 then (if f64_frac x = 0 then 255 * 2 ^ 23 else 255 * 2 ^ 23 + 2 ^ 22 + f64_frac x div 2 ^ 29 mod 2 ^ 22)
     else if m = 0 then 0
     else (let s = e - 1; unit = max (floorlog 2 m + s - 24) 925 in
       min ((unit - 925) * 2 ^ 23 + round_even m (unit - s)) (255 * 2 ^ 23)))"

definition float32_of :: "float64 \<Rightarrow> float32" where
  "float32_of x = word_of_nat ((if f64_negative x then 2 ^ 31 else 0) + float32_magnitude x)"

section \<open>The rounding error\<close>

lemma round_even_bounds:
  "2 * \<bar>int (round_even m k * 2 ^ k) - int m\<bar> \<le> int (2 ^ k)"
proof -
  define b q r where bqr: "b = (2::nat) ^ k" "q = m div b" "r = m mod b"
  have m: "m = q * b + r"
    unfolding bqr by (rule div_mult_mod_eq [symmetric])
  have r: "r < b"
    unfolding bqr by simp
  have e: "round_even m k = (if b < 2 * r \<or> b = 2 * r \<and> odd q then q + 1 else q)"
    by (simp only: round_even_def Let_def bqr)
  have "2 * \<bar>int (round_even m k * b) - int m\<bar> \<le> int b"
  proof (cases "b < 2 * r \<or> b = 2 * r \<and> odd q")
    case True
    then have up: "round_even m k = q + 1"
      using e by auto
    have "int ((q + 1) * b) - int (q * b + r) = int b - int r"
      by (simp add: algebra_simps)
    then have "2 * \<bar>int ((q + 1) * b) - int (q * b + r)\<bar> \<le> int b"
      using True r by auto
    then show ?thesis
      unfolding up by (subst m)
  next
    case False
    then have down: "round_even m k = q"
      using e by auto
    have "2 * \<bar>int (q * b) - int (q * b + r)\<bar> \<le> int b"
      using False by simp
    then show ?thesis
      unfolding down by (subst m)
  qed
  then show ?thesis by (simp add: bqr(1))
qed

lemma round_even_range:
  assumes "2 ^ (a + k) \<le> m" "m < 2 ^ (Suc a + k)"
  shows "2 ^ a \<le> round_even m k" "round_even m k \<le> 2 ^ Suc a"
proof -
  have "2 ^ a \<le> m div 2 ^ k"
    using assms(1) by (simp add: less_eq_div_iff_mult_less_eq power_add)
  then show "2 ^ a \<le> round_even m k"
    by (simp add: round_even_def Let_def)
  have "m div 2 ^ k < 2 ^ Suc a"
    using assms(2) by (simp add: div_less_iff_less_mult power_add)
  then show "round_even m k \<le> 2 ^ Suc a"
    by (simp add: round_even_def Let_def)
qed

text \<open>The value of the bits of a narrow number without its sign.\<close>

definition f32_abs :: "nat \<Rightarrow> nat" where
  "f32_abs b = (if b div 2 ^ 23 = 0 then b mod 2 ^ 23 else 2 ^ 23 + b mod 2 ^ 23) * 2 ^ (b div 2 ^ 23 - 1)"

lemma f32_abs_normal:
  assumes "2 ^ 23 \<le> n" "n \<le> 2 ^ 24"
  shows "f32_abs (d * 2 ^ 23 + n) = n * 2 ^ d"
proof (cases "n = 2 ^ 24")
  case True
  then have "d * 2 ^ 23 + n = (d + 2) * 2 ^ 23" by simp
  then have "(d * 2 ^ 23 + n) div 2 ^ 23 = d + 2" "(d * 2 ^ 23 + n) mod 2 ^ 23 = 0"
    by simp_all
  then show ?thesis
    unfolding f32_abs_def using True by simp
next
  case False
  define r where "r = n - 2 ^ 23"
  have n: "n = 2 ^ 23 + r" and r: "r < 2 ^ 23"
    using assms False by (simp_all add: r_def)
  have eq: "d * 2 ^ 23 + n = r + (d + 1) * 2 ^ 23"
    by (simp add: n)
  have "(d * 2 ^ 23 + n) div 2 ^ 23 = d + 1"
    unfolding eq using r by (subst div_mult_self1) simp_all
  moreover have "(d * 2 ^ 23 + n) mod 2 ^ 23 = r"
    unfolding eq using r by (subst mod_mult_self1) simp
  ultimately show ?thesis
    unfolding f32_abs_def by (simp add: n)
qed

lemma f32_units_of:
  assumes "n < 2 ^ 31"
  shows "f32_units (word_of_nat ((if neg then 2 ^ 31 else 0) + n)) = (if neg then - 1 else 1) * int (f32_abs n)"
proof -
  let ?b = "(if neg then 2 ^ 31 else 0) + n"
  have u: "unat (word_of_nat ?b :: float32) = ?b"
    unfolding unat_of_nat using assms by auto
  have "n div 2 ^ 23 < 2 ^ 8"
    using assms by (simp add: div_less_iff_less_mult)
  moreover have "?b div 2 ^ 23 = n div 2 ^ 23 + (if neg then 2 ^ 8 else 0)"
    by auto
  ultimately have "?b div 2 ^ 23 mod 2 ^ 8 = n div 2 ^ 23"
    by auto
  moreover have "?b mod 2 ^ 23 = n mod 2 ^ 23"
    by (auto simp: mod_add_left_eq [symmetric])
  ultimately show ?thesis
    unfolding f32_units_def Let_def u f32_abs_def using assms by auto
qed


lemma f64_mantissa_normal: "f64_exp x \<noteq> 0 \<Longrightarrow> 2 ^ 52 \<le> f64_mantissa x \<and> f64_mantissa x < 2 ^ 53"
  using mod_less_divisor [of "2 ^ 52" "unat x"] by (simp add: f64_mantissa_def f64_frac_def)

lemma power_int_nat: "2 ^ a \<le> int n \<longleftrightarrow> 2 ^ a \<le> n" "int n < 2 ^ a \<longleftrightarrow> n < 2 ^ a"
  by (metis of_nat_le_iff of_nat_numeral of_nat_power) (metis of_nat_less_iff of_nat_numeral of_nat_power)

lemma power_two_mono: "(2::nat) ^ a \<le> x \<Longrightarrow> x < 2 ^ b \<Longrightarrow> a < b"
  by (metis le_less_trans one_less_numeral_iff power_less_imp_less_exp semiring_norm(76))

text \<open>A value in the normal range of the narrow format, in terms of its mantissa and exponent.\<close>

lemma normal_range:
  assumes "2 ^ 948 \<le> \<bar>f64_units x\<bar>" "\<bar>f64_units x\<bar> < 2 ^ 1201"
  shows "897 \<le> f64_exp x" "f64_exp x \<le> 1149" "floorlog 2 (f64_mantissa x) = 53"
proof -
  let ?m = "f64_mantissa x" and ?s = "f64_exp x - 1"
  have abs: "\<bar>f64_units x\<bar> = int (?m * 2 ^ ?s)"
    by (simp add: f64_units_def abs_mult)
  have lo: "2 ^ 948 \<le> ?m * 2 ^ ?s" and hi: "?m * 2 ^ ?s < 2 ^ 1201"
    using assms unfolding abs power_int_nat .
  have e: "f64_exp x \<noteq> 0"
  proof
    assume z: "f64_exp x = 0"
    then have "?m < 2 ^ 52"
      by (simp add: f64_mantissa_def f64_frac_def)
    moreover have "?m * 2 ^ ?s = ?m"
      using z by simp
    then have "2 ^ 948 \<le> ?m"
      using lo by (simp only:)
    ultimately show False
      using power_two_mono [of 948 ?m 52] by simp
  qed
  note m = f64_mantissa_normal [OF e]
  have "2 ^ (52 + ?s) \<le> ?m * 2 ^ ?s" "?m * 2 ^ ?s < 2 ^ (53 + ?s)"
    using m by (simp_all add: power_add)
  from power_two_mono [OF this(1) hi] power_two_mono [OF lo this(2)]
  show "897 \<le> f64_exp x" "f64_exp x \<le> 1149" by simp_all
  have "floorlog 2 ?m \<le> 53"
    using m by (intro floorlog_leI) simp_all
  moreover have "\<not> floorlog 2 ?m \<le> 52"
    using m floorlog_leD [of 2 ?m 52] by auto
  ultimately show "floorlog 2 ?m = 53" by simp
qed

text \<open>
  In the normal range of the narrow format the rounding error is at most \<open>2^-24\<close> of the value.
\<close>

lemma float32_of_error:
  assumes "2 ^ 948 \<le> \<bar>f64_units x\<bar>" "\<bar>f64_units x\<bar> < 2 ^ 1201"
  shows "2 ^ 24 * \<bar>f32_units (float32_of x) * 2 ^ 925 - f64_units x\<bar> \<le> \<bar>f64_units x\<bar>"
proof -
  note n = normal_range [OF assms]
  define m R d where mRd: "m = f64_mantissa x" "R = round_even m 29" "d = f64_exp x - 897"
  have e: "f64_exp x \<noteq> 0" "f64_exp x - 1 = 896 + d"
    using n by (simp_all add: mRd)
  have m: "2 ^ 52 \<le> m" "m < 2 ^ 53"
    using f64_mantissa_normal [OF e(1)] by (simp_all add: mRd)
  have R: "2 ^ 23 \<le> R" "R \<le> 2 ^ 24"
    using round_even_range [of 23 29 m] m by (simp_all add: mRd)
  have "float32_magnitude x = min (d * 2 ^ 23 + R) (255 * 2 ^ 23)"
    using n m by (simp add: float32_magnitude_def Let_def mRd)
  moreover have "d * 2 ^ 23 + R \<le> 255 * 2 ^ 23"
    using n(2) R(2) by (simp add: mRd)
  ultimately have mag: "float32_magnitude x = d * 2 ^ 23 + R"
    by simp
  have f32: "f32_units (float32_of x) = (if f64_negative x then - 1 else 1) * int (R * 2 ^ d)"
    unfolding float32_of_def mag using f32_abs_normal [OF R, of d] n(2) R(2)
    by (subst f32_units_of) (simp_all add: mRd)
  define sg p where "sg = (if f64_negative x then - 1 else 1 :: int)" and "p = (2 :: int) ^ (896 + d)"
  then have sg: "\<bar>sg\<bar> = 1" and p: "0 < p" "int (2 ^ (896 + d)) = p" "int (2 ^ d) * 2 ^ 925 = 2 ^ 29 * p"
    by (simp_all add: power_add)
  have f64: "f64_units x = sg * (int m * p)"
    unfolding f64_units_def e(2) by (simp only: mRd(1) sg_def of_nat_mult p(2))
  have "f32_units (float32_of x) * 2 ^ 925 = sg * (int R * (int (2 ^ d) * 2 ^ 925))"
    unfolding f32 by (simp only: sg_def of_nat_mult mult.assoc)
  also have "\<dots> = sg * (int (R * 2 ^ 29) * p)"
    unfolding p(3) by simp
  finally have "f32_units (float32_of x) * 2 ^ 925 - f64_units x = sg * ((int (R * 2 ^ 29) - int m) * p)"
    unfolding f64 by (simp only: left_diff_distrib right_diff_distrib)
  then have "\<bar>f32_units (float32_of x) * 2 ^ 925 - f64_units x\<bar> = \<bar>int (R * 2 ^ 29) - int m\<bar> * p"
    using sg p(1) by (simp only: abs_mult abs_of_pos mult_1)
  moreover have "2 ^ 24 * \<bar>int (R * 2 ^ 29) - int m\<bar> \<le> int m"
    using round_even_bounds [of m 29] m(1) unfolding mRd(2) by simp
  then have "2 ^ 24 * (\<bar>int (R * 2 ^ 29) - int m\<bar> * p) \<le> int m * p"
    using p(1) by (simp only: mult.assoc [symmetric] mult_right_mono less_imp_le)
  moreover have "\<bar>f64_units x\<bar> = int m * p"
    unfolding f64 using sg p(1) by (simp only: abs_mult abs_of_pos mult_1 abs_of_nat)
  ultimately show ?thesis
    by (simp only:)
qed

text \<open>
  Below the normal range, zero included, the error is at most half of the smallest unit of the
  narrow format.
\<close>

lemma f32_abs_small: "n \<le> 2 ^ 23 \<Longrightarrow> f32_abs n = n"
  using f32_abs_normal [of n 0] by (cases "n = 2 ^ 23") (simp_all add: f32_abs_def)

lemma float32_of_error_small:
  assumes "\<bar>f64_units x\<bar> < 2 ^ 948"
  shows "2 * \<bar>f32_units (float32_of x) * 2 ^ 925 - f64_units x\<bar> \<le> 2 ^ 925"
proof -
  define m s R where msR: "m = f64_mantissa x" "s = f64_exp x - 1" "R = round_even m (925 - s)"
  define sg where "sg = (if f64_negative x then - 1 else 1 :: int)"
  have u: "f64_units x = sg * int (m * 2 ^ s)"
    by (simp add: f64_units_def msR sg_def)
  have "\<bar>f64_units x\<bar> = int (m * 2 ^ s)"
    unfolding u by (simp add: sg_def abs_mult)
  then have hi: "m * 2 ^ s < 2 ^ 948"
    using assms power_int_nat(2) by metis
  show ?thesis
  proof (cases "m = 0")
    case True
    have "f64_exp x = 0"
      using True f64_mantissa_normal [of x] by (cases "f64_exp x = 0") (simp_all add: msR)
    then have "float32_magnitude x = 0"
      using True by (simp add: float32_magnitude_def msR)
    then have "f32_units (float32_of x) = 0"
      unfolding float32_of_def using f32_units_of [of 0 "f64_negative x"] by (simp add: f32_abs_def)
    then show ?thesis
      by (simp add: u True)
  next
    case False
    have "2 ^ (floorlog 2 m - 1) * 2 ^ s \<le> m * 2 ^ s"
      using floorlog_bounds [of m 2] False by simp
    then have "(2::nat) ^ (floorlog 2 m - 1 + s) \<le> m * 2 ^ s"
      by (simp only: power_add)
    then have L: "floorlog 2 m - 1 + s < 948"
      using hi by (rule power_two_mono)
    have "0 < floorlog 2 m"
      using False floorlog_eq_zero_iff [of 2 m] by auto
    then have unit: "max (floorlog 2 m + s - 24) 925 = 925"
      using L by simp
    have s: "s \<le> 925"
    proof (rule ccontr)
      assume "\<not> s \<le> 925"
      then have "f64_exp x \<noteq> 0"
        by (auto simp: msR)
      then have "2 ^ 52 \<le> m"
        using f64_mantissa_normal by (simp add: msR)
      then have "2 ^ 52 * 2 ^ s \<le> m * 2 ^ s" by simp
      then have "(2::nat) ^ (52 + s) \<le> m * 2 ^ s"
        by (simp only: power_add)
      from power_two_mono [OF this hi] \<open>\<not> s \<le> 925\<close> show False by simp
    qed
    have "m * 2 ^ s < 2 ^ (948 - s) * 2 ^ s"
      using hi s by (simp flip: power_add)
    then have "m < 2 ^ (23 + (925 - s))"
      using s by simp
    then have "m div 2 ^ (925 - s) < 2 ^ 23"
      by (simp add: div_less_iff_less_mult power_add)
    then have R: "R \<le> 2 ^ 23"
      by (simp add: msR(3) round_even_def Let_def)
    have "f64_exp x \<noteq> 2047"
      using s by (auto simp: msR)
    then have "float32_magnitude x = R"
      using False unit R by (simp add: float32_magnitude_def Let_def msR)
    then have f32: "f32_units (float32_of x) = sg * int R"
      unfolding float32_of_def using R f32_units_of [of R "f64_negative x"] f32_abs_small [OF R] by (simp add: sg_def)
    have p: "(2::int) ^ (925 - s) * 2 ^ s = 2 ^ 925"
      using s by (simp flip: power_add)
    have "f32_units (float32_of x) * 2 ^ 925 - f64_units x = sg * ((int (R * 2 ^ (925 - s)) - int m) * 2 ^ s)"
      unfolding f32 u p [symmetric] by (simp add: algebra_simps)
    then have "\<bar>f32_units (float32_of x) * 2 ^ 925 - f64_units x\<bar> = \<bar>int (R * 2 ^ (925 - s)) - int m\<bar> * 2 ^ s"
      by (simp add: abs_mult sg_def)
    moreover have "2 * \<bar>int (R * 2 ^ (925 - s)) - int m\<bar> * 2 ^ s \<le> 2 ^ (925 - s) * 2 ^ s"
      using round_even_bounds [of m "925 - s"] unfolding msR(3) by (intro mult_right_mono) simp_all
    ultimately show ?thesis
      unfolding p by (simp only: mult.assoc)
  qed
qed

lemma float32_of_zero: "float32_of 0 = 0"
  by (simp add: float32_of_def float32_magnitude_def f64_negative_def f64_exp_def f64_frac_def f64_mantissa_def)

lemma float32_of_five: "float32_of 0x4014000000000000 = 0x40A00000"
proof -
  have "\<not> floorlog 2 0x14000000000000 \<le> 52"
    using floorlog_leD [of 2 "0x14000000000000" 52] by auto
  then have "floorlog 2 (0x14000000000000 :: nat) = 53"
    by (intro antisym floorlog_leI) simp_all
  then show ?thesis
    by (simp add: float32_of_def float32_magnitude_def f64_negative_def f64_exp_def f64_frac_def f64_mantissa_def
        round_even_def)
qed

end
