(* ===== verification/Client_Flags.thy ===== *)
theory Client_Flags
  imports Libraries Float_Conversion
begin

text \<open>
  The package \<open>pkg/flags\<close>: the flags of the Kubernetes client and the client made from them
  (\<open>kubeclient.go\<close>), and the flags of the logging libraries (\<open>logging.go\<close>). A flag is data, as
  the package of the command line takes it; the client and the logging libraries are third-party
  code, the records \<open>client_library\<close> and \<open>logging_library\<close>.
\<close>

section \<open>Flags as data\<close>

text \<open>
  The default value of a flag with its destination. A destination is a pointer into the flags of
  the program, of type \<open>'s\<close>: the function that stores a value there. A generic flag has a value
  of a third-party type that is its own destination.
\<close>

datatype ('s, 'v) flag_value =
    StringFlag string "string \<Rightarrow> 's \<Rightarrow> 's"
  | IntFlag int "int \<Rightarrow> 's \<Rightarrow> 's"
  | Float64Flag float64 "float64 \<Rightarrow> 's \<Rightarrow> 's"
  | GenericFlag 'v

record ('s, 'v) cli_flag =
  cli_Category :: string
  cli_Name :: string
  cli_Usage :: string
  cli_Required :: bool
  cli_Value :: "('s, 'v) flag_value"
  cli_EnvVars :: "string list"

section \<open>The client\<close>

record KubeClientConfig =
  KubeConfig :: string
  KubeAPIQPS :: float64
  KubeAPIBurst :: int

record 'c ClientSets =
  Core :: 'c

text \<open>\<open>rest.Config\<close>, of which the program sets two fields.\<close>

record 'r rest_Config =
  QPS :: float32
  Burst :: int
  rest_fields :: 'r

record ('x, 'r, 'c) client_library =
  rest_InClusterConfig :: "'x \<Rightarrow> (go_error + 'r rest_Config) \<times> 'x"
  clientcmd_BuildConfigFromFlags :: "string \<Rightarrow> string \<Rightarrow> 'x \<Rightarrow> (go_error + 'r rest_Config) \<times> 'x"
  coreclientset_NewForConfig :: "'r rest_Config \<Rightarrow> 'x \<Rightarrow> (go_error + 'c) \<times> 'x"

definition extern_result :: "('x \<Rightarrow> (go_error + 'a) \<times> 'x) \<Rightarrow> ('x, 'a) io" where
  "extern_result f = call (extern f) lift_result"

text \<open>The method on a pointer \<open>k\<close>, given as the function that updates what it points to. 5 is \<open>0x4014000000000000\<close>.\<close>

definition KubeClientConfig_Flags :: "((KubeClientConfig \<Rightarrow> KubeClientConfig) \<Rightarrow> 's \<Rightarrow> 's) \<Rightarrow> ('s, 'v) cli_flag list" where
  "KubeClientConfig_Flags k =
    [\<lparr>cli_Category = ''Kubernetes client:'', cli_Name = ''kubeconfig'',
      cli_Usage = ''Absolute path to the `KUBECONFIG` file. Either this flag or the KUBECONFIG env variable need to be set if the driver is being run out of cluster.'',
      cli_Required = False, cli_Value = StringFlag [] (\<lambda>v. k (\<lambda>c. c\<lparr>KubeConfig := v\<rparr>)),
      cli_EnvVars = [''KUBECONFIG'']\<rparr>,
     \<lparr>cli_Category = ''Kubernetes client:'', cli_Name = ''kube-api-qps'',
      cli_Usage = ''`QPS` to use while communicating with the Kubernetes apiserver.'',
      cli_Required = False, cli_Value = Float64Flag 0x4014000000000000 (\<lambda>v. k (\<lambda>c. c\<lparr>KubeAPIQPS := v\<rparr>)),
      cli_EnvVars = [''KUBE_API_QPS'']\<rparr>,
     \<lparr>cli_Category = ''Kubernetes client:'', cli_Name = ''kube-api-burst'',
      cli_Usage = ''`Burst` to use while communicating with the Kubernetes apiserver.'',
      cli_Required = False, cli_Value = IntFlag 10 (\<lambda>v. k (\<lambda>c. c\<lparr>KubeAPIBurst := v\<rparr>)),
      cli_EnvVars = [''KUBE_API_BURST'']\<rparr>]"

definition NewClientSetConfig :: "('x, 'r, 'c) client_library \<Rightarrow> KubeClientConfig \<Rightarrow> ('x, 'r rest_Config) io" where
  "NewClientSetConfig lib k =
    call (if KubeConfig k = []
      then wrap (Errorf ''create in-cluster client configuration'') (extern_result (rest_InClusterConfig lib))
      else wrap (Errorf ''create out-of-cluster client configuration'')
        (extern_result (clientcmd_BuildConfigFromFlags lib [] (KubeConfig k))))
    (\<lambda>csconfig. ok (csconfig\<lparr>QPS := float32_of (KubeAPIQPS k), Burst := KubeAPIBurst k\<rparr>))"

definition NewClientSets :: "('x, 'r, 'c) client_library \<Rightarrow> KubeClientConfig \<Rightarrow> ('x, 'c ClientSets) io" where
  "NewClientSets lib k =
    call (wrap (Errorf ''create client configuration'') (NewClientSetConfig lib k))
    (\<lambda>csconfig. call (wrap (Errorf ''create core client'') (extern_result (coreclientset_NewForConfig lib csconfig)))
    (\<lambda>coreclient. ok \<lparr>Core = coreclient\<rparr>))"

section \<open>Logging\<close>

text \<open>
  The feature gate and the configuration of the logging libraries are third-party objects; their
  state is a part of the third-party state.
\<close>

record 'v pflag =
  pflag_Name :: string
  pflag_Usage :: string
  pflag_Value :: 'v

record ('x, 'v) logging_library =
  featuregate_NewFeatureGate :: "'x \<Rightarrow> unit \<times> 'x"
  logsapi_NewLoggingConfiguration :: "'x \<Rightarrow> unit \<times> 'x"
  logsapi_AddFeatureGates :: "'x \<Rightarrow> go_error option \<times> 'x"
  featuregate_SetFromMap :: "(string \<times> bool) list \<Rightarrow> 'x \<Rightarrow> go_error option \<times> 'x"
  logsapi_ContextualLogging :: string
  logsapi_ValidateAndApply :: "'x \<Rightarrow> go_error option \<times> 'x"
  logsapi_AddFlags :: "'v pflag list \<Rightarrow> 'x \<Rightarrow> 'v pflag list \<times> 'x"
  featuregate_KnownFeatures :: "'x \<Rightarrow> string list \<times> 'x"
  featuregate_Value :: 'v
  pflag_AddFlag :: "'v pflag list \<Rightarrow> 'v pflag \<Rightarrow> 'v pflag list"
  pflag_VisitAll :: "'v pflag list \<Rightarrow> 'v pflag list"

text \<open>\<open>utilruntime.Must\<close> panics on an error.\<close>

definition Must :: "('x, unit) io \<Rightarrow> ('x, unit) io" where
  "Must m = on_err m (\<lambda>e. abort Panicked)"

definition NewLoggingConfig :: "('x, 'v) logging_library \<Rightarrow> ('x, unit) io" where
  "NewLoggingConfig lib =
    call (extern (featuregate_NewFeatureGate lib))
    (\<lambda>_. call (extern (logsapi_NewLoggingConfiguration lib))
    (\<lambda>_. call (Must (extern_err (logsapi_AddFeatureGates lib)))
    (\<lambda>_. Must (extern_err (featuregate_SetFromMap lib [(logsapi_ContextualLogging lib, True)])))))"

definition LoggingConfig_Apply :: "('x, 'v) logging_library \<Rightarrow> ('x, unit) io" where
  "LoggingConfig_Apply lib = extern_err (logsapi_ValidateAndApply lib)"

definition pflagToCLI :: "'v pflag \<Rightarrow> string \<Rightarrow> ('s, 'v) cli_flag" where
  "pflagToCLI flag category =
    \<lparr>cli_Category = category, cli_Name = pflag_Name flag, cli_Usage = pflag_Usage flag, cli_Required = False,
     cli_Value = GenericFlag (pflag_Value flag),
     cli_EnvVars = [ToUpper (ReplaceAll_char (pflag_Name flag) CHR ''-'' CHR ''_'')]\<rparr>"

definition LoggingConfig_Flags :: "('x, 'v) logging_library \<Rightarrow> ('x, ('s, 'v) cli_flag list) io" where
  "LoggingConfig_Flags lib =
    call (extern (logsapi_AddFlags lib []))
    (\<lambda>fs. call (extern (featuregate_KnownFeatures lib))
    (\<lambda>known. let fs = pflag_AddFlag lib fs
        \<lparr>pflag_Name = ''feature-gates'',
         pflag_Usage = ''A set of key=value pairs that describe feature gates for alpha/experimental features. ''
           @ ''Options are:'' @ [CHR 10] @ ''     '' @ Join known ([CHR 10] @ ''     ''),
         pflag_Value = featuregate_Value lib\<rparr> in
      ok (map (\<lambda>flag. pflagToCLI flag ''Logging:'') (pflag_VisitAll lib fs))))"

section \<open>Environment variables\<close>

text \<open>The environment variable of every flag is its name in capitals, with underscores for hyphens.\<close>

definition env_of_name :: "('s, 'v) cli_flag \<Rightarrow> bool" where
  "env_of_name f \<longleftrightarrow> cli_EnvVars f = [ToUpper (ReplaceAll_char (cli_Name f) CHR ''-'' CHR ''_'')]"

lemmas upper_simps = ToUpper_def ReplaceAll_char_def upper_byte_def is_lower_def char_of_def bit_0

lemma env_KubeClientConfig_Flags: "list_all env_of_name (KubeClientConfig_Flags k)"
  by (simp add: KubeClientConfig_Flags_def env_of_name_def upper_simps)

lemma env_pflagToCLI: "env_of_name (pflagToCLI flag category)"
  by (simp add: pflagToCLI_def env_of_name_def)

lemma env_LoggingConfig_Flags: "LoggingConfig_Flags lib w = (Ok fs, w') \<Longrightarrow> list_all env_of_name fs"
  by (auto simp: LoggingConfig_Flags_def Let_def list_all_iff env_pflagToCLI elim!: call_OkE)

section \<open>A client library for the examples\<close>

definition sample_client_library :: "('x, string, string) client_library" where
  "sample_client_library = \<lparr>
     rest_InClusterConfig = \<lambda>x. (Inr \<lparr>QPS = 0, Burst = 0, rest_fields = ''in-cluster''\<rparr>, x),
     clientcmd_BuildConfigFromFlags = \<lambda>u p x. (Inr \<lparr>QPS = 0, Burst = 0, rest_fields = p\<rparr>, x),
     coreclientset_NewForConfig = \<lambda>c x. (Inr (rest_fields c), x)\<rparr>"

section \<open>Properties\<close>

text \<open>
  C39: The configuration of the client has exactly the configured burst. The queries per second are
  the configured number rounded to \<open>float32\<close>: in the normal range of the narrow format, below
  \<open>2^127\<close>, the value, in units of the smallest positive \<open>float64\<close>, is off by at most \<open>2^-24\<close> of itself;
  below that range by at most half of the smallest positive \<open>float32\<close>; and \<open>+0\<close> stays \<open>+0\<close>.
\<close>

theorem client_config_rounding:
  assumes "NewClientSetConfig lib k w = (Ok c, w')"
  shows "Burst c = KubeAPIBurst k \<and> QPS c = float32_of (KubeAPIQPS k)
    \<and> (2 ^ 948 \<le> \<bar>f64_units (KubeAPIQPS k)\<bar> \<and> \<bar>f64_units (KubeAPIQPS k)\<bar> < 2 ^ 1201 \<longrightarrow>
        2 ^ 24 * \<bar>f32_units (QPS c) * 2 ^ 925 - f64_units (KubeAPIQPS k)\<bar> \<le> \<bar>f64_units (KubeAPIQPS k)\<bar>)
    \<and> (\<bar>f64_units (KubeAPIQPS k)\<bar> < 2 ^ 948 \<longrightarrow>
        2 * \<bar>f32_units (QPS c) * 2 ^ 925 - f64_units (KubeAPIQPS k)\<bar> \<le> 2 ^ 925)
    \<and> (KubeAPIQPS k = 0 \<longrightarrow> QPS c = 0)"
proof -
  have "QPS c = float32_of (KubeAPIQPS k)" "Burst c = KubeAPIBurst k"
    using assms by (auto simp: NewClientSetConfig_def elim!: call_OkE)
  with float32_of_error float32_of_error_small float32_of_zero show ?thesis by simp
qed

text \<open>At 0.1, which no \<open>float32\<close> is equal to.\<close>

theorem client_config_rounding_witness:
  "\<exists>c. fst (NewClientSetConfig sample_client_library \<lparr>KubeConfig = [], KubeAPIQPS = 0x3FB999999999999A, KubeAPIBurst = 10\<rparr>
        (fresh_world ())) = Ok c
    \<and> Burst c = 10
    \<and> 2 ^ 24 * \<bar>f32_units (QPS c) * 2 ^ 925 - f64_units 0x3FB999999999999A\<bar> \<le> \<bar>f64_units 0x3FB999999999999A\<bar>"
proof -
  let ?k = "\<lparr>KubeConfig = [], KubeAPIQPS = 0x3FB999999999999A, KubeAPIBurst = 10\<rparr>"
  obtain c w' where run: "NewClientSetConfig sample_client_library ?k (fresh_world ()) = (Ok c, w')"
    by (simp add: NewClientSetConfig_def sample_client_library_def extern_result_def effect_simps)
  have "f64_units (KubeAPIQPS ?k) = 0x1999999999999A * 2 ^ 1018"
    by (simp add: f64_units_def f64_negative_def f64_mantissa_def f64_exp_def f64_frac_def)
  then have "2 ^ 948 \<le> \<bar>f64_units (KubeAPIQPS ?k)\<bar> \<and> \<bar>f64_units (KubeAPIQPS ?k)\<bar> < 2 ^ 1201"
    by simp
  with client_config_rounding [OF run] have "Burst c = KubeAPIBurst ?k"
    "2 ^ 24 * \<bar>f32_units (QPS c) * 2 ^ 925 - f64_units (KubeAPIQPS ?k)\<bar> \<le> \<bar>f64_units (KubeAPIQPS ?k)\<bar>"
    by blast+
  then show ?thesis
    unfolding run fst_conv KubeClientConfig.select_convs by (intro exI [of _ c] conjI refl)
qed

end
