(* ===== verification/Plugin_Config.thy ===== *)
theory Plugin_Config
  imports Network_Profile Client_Flags
begin

text \<open>
  The flags and the configuration of the plugin, and its table of profiles (\<open>main.go\<close>).
\<close>

section \<open>Flags and configuration\<close>

definition DriverPluginCheckpointFile :: string where
  "DriverPluginCheckpointFile = ''checkpoint.json''"

text \<open>
  \<open>Flags\<close>. What \<open>loggingConfig\<close> points to belongs to the third-party state.
\<close>

record Flags =
  flag_kubeClientConfig :: KubeClientConfig
  flag_nodeName :: string
  flag_cdiRoot :: string
  flag_numDevices :: int
  flag_kubeletRegistrarDirectoryPath :: string
  flag_kubeletPluginsDirectoryPath :: string
  flag_healthcheckPort :: int
  flag_profile :: string
  flag_driverName :: string
  flag_podUID :: string

text \<open>\<open>Config\<close>; the client and the cancel function belong to the third-party state.\<close>

record ('x, 'o) Config =
  flags :: Flags
  profile :: "('x, 'o) Profile"

definition DriverPluginPath :: "('x, 'o) Config \<Rightarrow> string" where
  "DriverPluginPath c =
    filepath_Join [flag_kubeletPluginsDirectoryPath (flags c), flag_driverName (flags c)]"

definition validProfiles :: "(string \<times> (Flags \<Rightarrow> ('x, 'o) Profile)) list" where
  "validProfiles = [(ProfileName, \<lambda>flags. network_Profile (NewProfile (flag_nodeName flags) (flag_numDevices flags)))]"

definition validProfileNames :: "string list" where
  "validProfileNames = map fst (validProfiles :: (string \<times> (Flags \<Rightarrow> (unit, unit) Profile)) list)"

section \<open>A configuration for the examples\<close>

definition sample_flags :: Flags where
  "sample_flags = \<lparr>flag_kubeClientConfig = \<lparr>KubeConfig = [], KubeAPIQPS = 0x4014000000000000, KubeAPIBurst = 10\<rparr>,
    flag_nodeName = ''node-a'', flag_cdiRoot = ''/etc/cdi'', flag_numDevices = 3,
    flag_kubeletRegistrarDirectoryPath = ''/var/lib/kubelet/plugins_registry'',
    flag_kubeletPluginsDirectoryPath = ''/var/lib/kubelet/plugins'', flag_healthcheckPort = 51515,
    flag_profile = ''network'', flag_driverName = ''network.example.com'', flag_podUID = ''u1''\<rparr>"

definition sample_config :: "('x, string) Config" where
  "sample_config = \<lparr>flags = sample_flags, profile = network_Profile (NewProfile ''node-a'' 3)\<rparr>"

end
