(* ===== verification/Device_State.thy ===== *)
theory Device_State
  imports Device_Config Plugin_Config
begin

text \<open>
  The state of the driver (\<open>state.go\<close>): preparing and unpreparing a claim, under the
  mutex, against the checkpoint, the CDI specs and the directories on the host. The lemmas give
  what each operation does to the store of prepared claims, to the specs and to the files, in
  every environment.
\<close>

section \<open>Creating the state\<close>

definition allocatable_of :: "DriverResources \<Rightarrow> string \<Rightarrow> AllocatableDevices" where
  "allocatable_of resources node =
    fold (\<lambda>slice m. fold (\<lambda>device. fmupd (device_Name device) device) (slice_Devices slice) m)
      (case fmlookup (Pools resources) node of None \<Rightarrow> [] | Some pool \<Rightarrow> Slices pool) fmempty"

lemma allocatable_of_eq:
  "allocatable_of resources node = fold (\<lambda>device. fmupd (device_Name device) device) (advertised resources node) fmempty"
proof -
  have "fold (\<lambda>slice m. fold f (slice_Devices slice) m) slices m0 = fold f (concat (map slice_Devices slices)) m0"
    for f :: "AdvertisedDevice \<Rightarrow> AllocatableDevices \<Rightarrow> AllocatableDevices" and slices :: "Slice list" and m0
    by (induction slices arbitrary: m0) simp_all
  then show ?thesis
    by (simp add: allocatable_of_def advertised_def split: option.splits)
qed

context device_profile
begin

text \<open>The driver allocates the devices the profile advertises, each under its own name.\<close>

lemma allocatable_iff:
  assumes "enumerate_devices w = (Ok r, w')"
  shows "fmlookup (allocatable_of r node) name = Some d \<longleftrightarrow> d \<in> set (advertised r node) \<and> device_Name d = name"
proof
  assume "d \<in> set (advertised r node) \<and> device_Name d = name"
  then show "fmlookup (allocatable_of r node) name = Some d"
    using fmlookup_fold_upd_distinct [OF _ names_distinct [OF assms]] by (auto simp: allocatable_of_eq)
next
  assume "fmlookup (allocatable_of r node) name = Some d"
  then show "d \<in> set (advertised r node) \<and> device_Name d = name"
    by (auto simp: allocatable_of_eq fmlookup_fold_upd find_Some_iff split: option.splits)
      (metis nth_mem set_rev length_rev)
qed

end

definition NewDeviceState :: "('x, 'o) libraries \<Rightarrow> ('x, 'o) Config \<Rightarrow> ('x, 'o DeviceState) io" where
  "NewDeviceState lib config =
    call (wrap (Errorf ''error enumerating all possible devices'') (EnumerateDevices (profile config)))
    (\<lambda>resources. call (wrap (Errorf ''unable to create CDI handler'')
      (NewCDIHandler lib (flag_cdiRoot (flags config)) (flag_driverName (flags config)) (flag_profile (flags config))))
    (\<lambda>cdi. call (wrap (Errorf ''unable to create CDI spec file for common edits'') (CreateCommonSpecFile lib cdi))
    (\<lambda>_. let handler = ConfigHandler.truncate (profile config); sb = SchemeBuilder handler in
     (case scheme_AddToScheme lib sb of
        Some err \<Rightarrow> fail (Wrapf ''create config scheme'' err)
      | None \<Rightarrow>
        (let (decoder, encoder) = checkpointSerializer (checkpoint_codec lib) in
         ok \<lparr>driverName = flag_driverName (flags config), cdi = cdi, driverResources = resources,
           allocatable = allocatable_of resources (flag_nodeName (flags config)),
           configDecoder = config_Decode lib sb, configHandler = handler,
           checkpointPath = filepath_Join [DriverPluginPath config, DriverPluginCheckpointFile],
           checkpointDecoder = decoder, checkpointEncoder = encoder\<rparr>)))))"

section \<open>The checkpoint in memory\<close>

definition checkpoint_entry :: "ResourceClaim \<Rightarrow> PreparedClaim" where
  "checkpoint_entry claim =
    (let results = (case Allocation claim of None \<Rightarrow> [] | Some alloc \<Rightarrow> Results alloc) in
     \<lparr>UID = claim_UID claim, Name = claim_Name claim, Devices = map Device results,
      DeviceRequests = fold (\<lambda>result. fmupd (Device result) (Request result)) results fmempty\<rparr>)"

definition addClaimToCheckpoint :: "Checkpoint \<Rightarrow> ResourceClaim \<Rightarrow> Checkpoint" where
  "addClaimToCheckpoint checkpoint claim =
    checkpoint\<lparr>PreparedClaims := PreparedClaims checkpoint @ [checkpoint_entry claim]\<rparr>"

definition removeClaimFromCheckpoint :: "Checkpoint \<Rightarrow> UID \<Rightarrow> Checkpoint" where
  "removeClaimFromCheckpoint checkpoint claimUID =
    checkpoint\<lparr>PreparedClaims := filter (\<lambda>c. UID c \<noteq> claimUID) (PreparedClaims checkpoint)\<rparr>"

definition restoreClaimFromCheckpoint ::
  "('x, 'o) libraries \<Rightarrow> 'o DeviceState \<Rightarrow> Checkpoint \<Rightarrow> ResourceClaim \<Rightarrow> ('x, PreparedDevices) io" where
  "restoreClaimFromCheckpoint lib s checkpoint claim =
    (if list_ex (\<lambda>c. UID c = claim_UID claim) (PreparedClaims checkpoint)
     then computeDeviceConfig lib s claim else ok [])"

section \<open>Setting up and taking down\<close>

definition updateDeviceStatus ::
  "('x, 'o) libraries \<Rightarrow> string \<Rightarrow> string \<Rightarrow> AllocatedDeviceStatus list \<Rightarrow> ('x, unit) io" where
  "updateDeviceStatus lib ns name devices =
    extern_err (RetryOnConflict lib (\<lambda>x.
      (case claims_Get lib ns name x of
         (Inl err, x') \<Rightarrow> (Some err, x')
       | (Inr claim, x') \<Rightarrow> claims_UpdateStatus lib ns (claim\<lparr>Status_Devices := devices\<rparr>) x')))"

text \<open>
  The second half of \<open>prepareDevices\<close>: the statuses of the devices, when the profile
  builds any; that they cannot be published is logged and passed over.
\<close>

definition publish_status :: "('x, 'o) libraries \<Rightarrow> 'o DeviceState \<Rightarrow> ResourceClaim
    \<Rightarrow> DeviceRequestAllocationResult list \<Rightarrow> ('x, unit) io" where
  "publish_status lib s claim results =
    (case BuildDeviceStatus (configHandler s) of
       None \<Rightarrow> ok ()
     | Some build \<Rightarrow>
       (let deviceStatuses = List.map_filter
           (\<lambda>result. if Driver result \<noteq> driverName s then None else build (allocatable s) result) results in
        if deviceStatuses \<noteq> []
        then on_err (updateDeviceStatus lib (claim_Namespace claim) (claim_Name claim) deviceStatuses) (\<lambda>_. ok ())
        else ok ()))"

text \<open>Reading the results of a claim that has no allocation dereferences nil.\<close>

definition prepareDevices :: "('x, 'o) libraries \<Rightarrow> 'o DeviceState \<Rightarrow> ResourceClaim \<Rightarrow> ('x, PreparedDevices) io" where
  "prepareDevices lib s claim =
    (case Allocation claim of
       None \<Rightarrow> abort NilDeref
     | Some alloc \<Rightarrow>
       call (for_each (\<lambda>result.
           if Driver result \<noteq> driverName s then ok ()
           else call (wrap (Wrapf ''failed to create claim directory'')
               (createClaimDirectory lib (claim_Name claim) (Request result) (Device result))) (\<lambda>claimDir. ok ()))
         (Results alloc))
       (\<lambda>_. call (computeDeviceConfig lib s claim)
       (\<lambda>preparedDevices. call (publish_status lib s claim (Results alloc))
       (\<lambda>_. ok preparedDevices))))"

text \<open>A missing key of \<open>DeviceRequests\<close> reads as the empty string.\<close>

definition recorded_request :: "PreparedClaim \<Rightarrow> string \<Rightarrow> string" where
  "recorded_request c deviceName = (case fmlookup (DeviceRequests c) deviceName of None \<Rightarrow> [] | Some r \<Rightarrow> r)"

text \<open>The checkpoint is a pointer; ranging over the claims of a nil one dereferences it.\<close>

definition unprepareDevices :: "UID \<Rightarrow> Checkpoint option \<Rightarrow> ('x, unit) io" where
  "unprepareDevices claimUID checkpoint =
    (case checkpoint of
       None \<Rightarrow> abort NilDeref
     | Some c \<Rightarrow>
       (case find (\<lambda>preparedClaim. UID preparedClaim = claimUID) (PreparedClaims c) of
          None \<Rightarrow> ok ()
        | Some preparedClaim \<Rightarrow>
          for_each (\<lambda>deviceName. let requestName = recorded_request preparedClaim deviceName in
              on_err (deleteClaimDirectory (Name preparedClaim) requestName) (\<lambda>_. ok ()))
            (Devices preparedClaim)))"

section \<open>Prepare and Unprepare\<close>

text \<open>
  \<open>s.Lock()\<close> and the deferred \<open>s.Unlock()\<close>, which also runs when the goroutine panics. A
  lock that is held is waited for; the run of another goroutine is not part of this one.
\<close>

definition locked :: "('x, 'a) io \<Rightarrow> ('x, 'a) io" where
  "locked m = (\<lambda>w.
    (if mutex w then (Abort Deadlock, w)
     else (case m (w\<lparr>mutex := True\<rparr>) of (r, w') \<Rightarrow> (r, w'\<lparr>mutex := False\<rparr>))))"

definition prepare_body :: "('x, 'o) libraries \<Rightarrow> 'o DeviceState \<Rightarrow> ResourceClaim \<Rightarrow> ('x, pb_Device list) io" where
  "prepare_body lib s claim =
    call (wrap (Errorf ''unable to sync from checkpoint'') (readCheckpoint (checkpointPath s) (checkpointDecoder s)))
    (\<lambda>checkpoint. call (wrap (Errorf ''unable to restore from checkpoint'')
      (restoreClaimFromCheckpoint lib s checkpoint claim))
    (\<lambda>restoredDevices.
      if restoredDevices \<noteq> [] then ok (GetDevices restoredDevices)
      else call (wrap (Errorf ''prepare failed'') (prepareDevices lib s claim))
      (\<lambda>preparedDevices. let checkpoint = addClaimToCheckpoint checkpoint claim in
       call (wrap (Errorf ''unable to create CDI spec file for claim'')
         (CreateClaimSpecFile lib (cdi s) (claim_UID claim) preparedDevices))
       (\<lambda>_. call (wrap (Errorf ''unable to sync to checkpoint'')
         (writeCheckpoint (checkpointPath s) (checkpointEncoder s) checkpoint))
       (\<lambda>_. ok (GetDevices preparedDevices))))))"

definition Prepare :: "('x, 'o) libraries \<Rightarrow> 'o DeviceState \<Rightarrow> ResourceClaim \<Rightarrow> ('x, pb_Device list) io" where
  "Prepare lib s claim = locked (prepare_body lib s claim)"

text \<open>
  When the checkpoint cannot be read, an empty one is written, but the variable stays nil.
\<close>

definition unprepare_body :: "('x, 'o) libraries \<Rightarrow> 'o DeviceState \<Rightarrow> UID \<Rightarrow> ('x, unit) io" where
  "unprepare_body lib s claimUID =
    call (on_err (call (readCheckpoint (checkpointPath s) (checkpointDecoder s)) (\<lambda>c. ok (Some c)))
      (\<lambda>err. call (wrap (Errorf ''unable to create new checkpoint'')
          (writeCheckpoint (checkpointPath s) (checkpointEncoder s) new_Checkpoint))
        (\<lambda>_. ok None)))
    (\<lambda>checkpoint. call (wrap (Errorf ''unprepare failed'') (unprepareDevices claimUID checkpoint))
    (\<lambda>_. (case checkpoint of
       None \<Rightarrow> abort NilDeref
     | Some c \<Rightarrow>
       (let c = removeClaimFromCheckpoint c claimUID in
        call (wrap (Errorf ''unable to delete CDI spec file for claim'') (DeleteClaimSpecFile lib (cdi s) claimUID))
        (\<lambda>_. call (wrap (Errorf ''unable to sync to checkpoint'')
          (writeCheckpoint (checkpointPath s) (checkpointEncoder s) c))
        (\<lambda>_. ok ()))))))"

definition Unprepare :: "('x, 'o) libraries \<Rightarrow> 'o DeviceState \<Rightarrow> UID \<Rightarrow> ('x, unit) io" where
  "Unprepare lib s claimUID = locked (unprepare_body lib s claimUID)"

section \<open>Names and paths\<close>

text \<open>
  The claims the API server admits, the entries of the checkpoint they lead to, and a checkpoint
  path that is apart from the directories of the claims.
\<close>

definition claim_ok :: "ResourceClaim \<Rightarrow> bool" where
  "claim_ok claim \<longleftrightarrow> plain (claim_Name claim) \<and> uid_ok (claim_UID claim)
    \<and> (case Allocation claim of None \<Rightarrow> True | Some alloc \<Rightarrow> list_all (\<lambda>r. request_ok (Request r)) (Results alloc))"

definition entry_ok :: "PreparedClaim \<Rightarrow> bool" where
  "entry_ok c \<longleftrightarrow> plain (Name c) \<and> uid_ok (UID c)
    \<and> list_all (\<lambda>d. case fmlookup (DeviceRequests c) d of None \<Rightarrow> False | Some r \<Rightarrow> request_ok r) (Devices c)"

definition in_base :: "path \<Rightarrow> bool" where
  "in_base p \<longleftrightarrow> prefix p base_path \<or> prefix base_path p"

definition apart_from_claims :: "string \<Rightarrow> bool" where
  "apart_from_claims path \<longleftrightarrow> \<not> prefix base_path (elems path) \<and> \<not> prefix (butlast (elems path)) base_path"

lemma store_path_apart: "apart_from_claims path \<Longrightarrow> store_path path p \<Longrightarrow> \<not> in_base p"
proof
  assume a: "apart_from_claims path" "store_path path p" "in_base p"
  then obtain x where p: "p = butlast (elems path) @ [x]"
    by (metis append_butlast_last_id store_path_def)
  from a(3) show False
    unfolding in_base_def
  proof
    assume "prefix p base_path"
    then have "prefix (butlast (elems path)) base_path"
      unfolding p by (rule append_prefixD)
    with a(1) show False by (simp add: apart_from_claims_def)
  next
    assume "prefix base_path p"
    then have "prefix base_path (butlast (elems path)) \<or> base_path = p"
      unfolding p by auto
    moreover have "prefix (butlast (elems path)) (elems path)"
      by (metis prefixeq_butlast)
    ultimately show False
      using a(1) p unfolding apart_from_claims_def by (metis prefixI prefix_order.trans)
  qed
qed

lemma creation_path_in_base: "creation_path (claim_dir n r) p \<Longrightarrow> in_base p"
proof -
  assume a: "creation_path (claim_dir n r) p"
  have "prefix base_path (claim_dir n r)" "prefix base_path (metadata_path (claim_dir n r))"
    by (simp_all add: claim_dir_def claim_root_def metadata_path_def)
  with a show ?thesis
    unfolding creation_path_def in_base_def by (metis prefix_same_cases)
qed

lemma claim_dir_in_base: "prefix (claim_dir n r) p \<Longrightarrow> in_base p"
  by (auto simp: in_base_def claim_dir_def claim_root_def prefix_def)

lemma touches_create_in_base:
  assumes "plain n" "request_ok r"
  shows "steps_in (touches in_base) (createClaimDirectory lib n r d)"
  using touches_createClaimDirectory [OF assms] by (rule steps_touches_mono) (rule creation_path_in_base)

lemma touches_delete_in_base:
  assumes "plain n" "request_ok r"
  shows "steps_in (touches in_base) (deleteClaimDirectory n r)"
  using touches_deleteClaimDirectory [OF assms] by (rule steps_touches_mono) (rule claim_dir_in_base)

lemma entry_ok_checkpoint_entry:
  assumes "claim_ok claim"
  shows "entry_ok (checkpoint_entry claim)"
proof -
  let ?rs = "case Allocation claim of None \<Rightarrow> [] | Some alloc \<Rightarrow> Results alloc"
  have ok: "request_ok (Request r)" if "r \<in> set ?rs" for r
    using assms that by (auto simp: claim_ok_def list_all_iff split: option.splits)
  have "case fmlookup (fold (\<lambda>r. fmupd (Device r) (Request r)) ?rs fmempty) d of None \<Rightarrow> False | Some q \<Rightarrow> request_ok q"
    if "d \<in> Device ` set ?rs" for d
  proof -
    from that obtain r where "r \<in> set ?rs" "Device r = d" by blast
    from fmlookup_fold_upd_in [where k = Device and v = Request and m = fmempty, OF this] obtain q where
      "q \<in> set ?rs" "fmlookup (fold (\<lambda>r. fmupd (Device r) (Request r)) ?rs fmempty) d = Some (Request q)"
      by blast
    with ok show ?thesis by simp
  qed
  with assms show ?thesis
    by (simp add: entry_ok_def checkpoint_entry_def Let_def claim_ok_def list_all_iff)
qed

lemma checkpoint_entry_UID [simp]: "UID (checkpoint_entry claim) = claim_UID claim"
  by (simp add: checkpoint_entry_def Let_def)

lemma listed_iff: "list_ex (\<lambda>c. UID c = u) cs \<longleftrightarrow> u \<in> UID ` set cs"
  by (induction cs) auto

section \<open>What each part can touch\<close>

lemma touches_updateDeviceStatus [effect_rules]: "steps_in (touches P) (updateDeviceStatus lib ns name ds)"
  unfolding updateDeviceStatus_def by (rule touches_extern_err)

lemma touches_restoreClaimFromCheckpoint [effect_rules]:
  "steps_in (touches P) (restoreClaimFromCheckpoint lib s c claim)"
  unfolding restoreClaimFromCheckpoint_def by (auto intro: touches_computeDeviceConfig touch.in_ok)

lemma keeps_ext_restoreClaimFromCheckpoint [effect_rules]:
  "steps_in keeps_ext (restoreClaimFromCheckpoint lib s c claim)"
  unfolding restoreClaimFromCheckpoint_def by (auto intro: keeps_ext_computeDeviceConfig kext.in_ok)

lemma touches_publish_status [effect_rules]: "steps_in (touches P) (publish_status lib s claim rs)"
  unfolding publish_status_def
  by (auto intro!: touch.in_rules touches_updateDeviceStatus simp: Let_def split: option.splits)

lemma touches_prepareDevices:
  assumes "claim_ok claim"
  shows "steps_in (touches in_base) (prepareDevices lib s claim)"
proof -
  have "steps_in (touches in_base) (createClaimDirectory lib (claim_Name claim) (Request r) d)"
    if "Allocation claim = Some alloc" "r \<in> set (Results alloc)" for alloc r d
    using assms that by (intro touches_create_in_base) (auto simp: claim_ok_def list_all_iff)
  then show ?thesis
    unfolding prepareDevices_def
    by (auto intro!: touch.in_rules touches_computeDeviceConfig touches_publish_status
        split: option.splits)
qed

lemma touches_unprepareDevices:
  assumes "\<And>c. checkpoint = Some c \<Longrightarrow> list_all entry_ok (PreparedClaims c)"
  shows "steps_in (touches in_base) (unprepareDevices uid checkpoint :: ('x, unit) io)"
proof -
  have "steps_in (touches in_base) (deleteClaimDirectory (Name p) (recorded_request p d) :: ('x, unit) io)"
    if "entry_ok p" "d \<in> set (Devices p)" for p d
    using that by (intro touches_delete_in_base) (auto simp: entry_ok_def recorded_request_def list_all_iff split: option.splits)
  moreover have "entry_ok p" if "checkpoint = Some c" "find Q (PreparedClaims c) = Some p" for c p Q
    using assms that by (auto simp: list_all_iff find_Some_iff)
  ultimately show ?thesis
    unfolding unprepareDevices_def
    by (auto intro!: touch.in_rules simp: Let_def split: option.splits)
qed

text \<open>Time only goes on, so a calm world stays calm.\<close>

lemma touches_everything: "steps_in (touches P) m \<Longrightarrow> steps_in (touches (\<lambda>_. True)) m"
  by (rule steps_touches_mono) auto

text \<open>The mutex is released on every way out, and nothing happens while it is held.\<close>

lemma locked_run: "\<not> mutex w \<Longrightarrow> locked m w = (case m (w\<lparr>mutex := True\<rparr>) of (r, w') \<Rightarrow> (r, w'\<lparr>mutex := False\<rparr>))"
  by (simp add: locked_def)

lemma locked_result:
  assumes "locked m w = (r, w')" "\<not> mutex w"
  obtains w1 where "m (w\<lparr>mutex := True\<rparr>) = (r, w1)" "w' = w1\<lparr>mutex := False\<rparr>"
  using assms by (auto simp: locked_run split: prod.splits)

lemma stored_claims_mutex [simp]: "stored_claims dec path (w\<lparr>mutex := b\<rparr>) = stored_claims dec path w"
  by (simp add: stored_claims_def)

section \<open>The store of prepared claims\<close>

text \<open>The configurations under which the driver works: a usable checkpoint path and codec.\<close>

definition state_ok :: "'o DeviceState \<Rightarrow> bool" where
  "state_ok s \<longleftrightarrow> checkpoint_path (checkpointPath s) \<and> apart_from_claims (checkpointPath s)
    \<and> faithful (checkpointDecoder s) (checkpointEncoder s)"

definition stored :: "'o DeviceState \<Rightarrow> 'x world \<Rightarrow> PreparedClaim list option" where
  "stored s w = stored_claims (checkpointDecoder s) (checkpointPath s) w"

lemma stored_mutex [simp]: "stored s (w\<lparr>mutex := b\<rparr>) = stored s w"
  by (simp add: stored_def)

lemma stored_same_files: "files w' = files w \<Longrightarrow> stored s w' = stored s w"
  by (simp add: stored_def stored_claims_def)

lemma state_ok_usable:
  "state_ok s \<Longrightarrow> checkpoint_path (checkpointPath s) \<and> faithful (checkpointDecoder s) (checkpointEncoder s)"
  by (simp add: state_ok_def)

lemma stored_others:
  assumes "state_ok s" "steps_in (touches in_base) m" "m w = (r, w')"
  shows "stored s w' = stored s w"
  unfolding stored_def
  by (rule file_store.others_keep [OF state_ok_usable [OF assms(1)] assms(2) _ assms(3)])
    (use assms(1) store_path_apart in \<open>auto simp: state_ok_def\<close>)

text \<open>The part of Prepare after the look into the checkpoint: set up, write the spec, record.\<close>

definition prepare_anew :: "('x, 'o) libraries \<Rightarrow> 'o DeviceState \<Rightarrow> ResourceClaim \<Rightarrow> Checkpoint \<Rightarrow> ('x, PreparedDevice list) io" where
  "prepare_anew lib s claim checkpoint =
    call (wrap (Errorf ''prepare failed'') (prepareDevices lib s claim))
    (\<lambda>devices. call (wrap (Errorf ''unable to create CDI spec file for claim'')
        (CreateClaimSpecFile lib (cdi s) (claim_UID claim) devices)) (\<lambda>_. ok devices))"

lemma prepare_body_eq:
  "prepare_body lib s claim =
    call (wrap (Errorf ''unable to sync from checkpoint'') (readCheckpoint (checkpointPath s) (checkpointDecoder s)))
    (\<lambda>checkpoint. call (wrap (Errorf ''unable to restore from checkpoint'') (restoreClaimFromCheckpoint lib s checkpoint claim))
    (\<lambda>restored. if restored \<noteq> [] then ok (GetDevices restored)
      else call (prepare_anew lib s claim checkpoint)
        (\<lambda>devices. call (wrap (Errorf ''unable to sync to checkpoint'')
            (writeCheckpoint (checkpointPath s) (checkpointEncoder s) (addClaimToCheckpoint checkpoint claim)))
          (\<lambda>_. ok (GetDevices devices)))))"
  by (simp add: prepare_body_def prepare_anew_def Let_def call_assoc cong: if_cong)

lemma touches_prepare_anew:
  assumes "claim_ok claim"
  shows "steps_in (touches in_base) (prepare_anew lib s claim c)"
  unfolding prepare_anew_def
  by (intro touch.in_call touch.in_wrap touch.in_ok touches_prepareDevices assms touches_CDI)

lemma wrap_result: "wrap f m w = (r, w') \<Longrightarrow> \<exists>r1. m w = (r1, w') \<and> (r = Ok x \<longleftrightarrow> r1 = Ok x)"
  by (auto simp: effect_simps split: prod.splits outcome.splits)

text \<open>
  The three ways a preparation can take: it ends with the reading, the claim is restored from the
  checkpoint, or it is prepared anew from a world that differs in the clock only.
\<close>

lemma prepare_body_cases:
  assumes "prepare_body lib s claim w = (r, w')"
  obtains (failed) "files w' = files w" "ext w' = ext w" "\<forall>ds. r \<noteq> Ok ds"
  | (restored) c ds w1 where "stored s w = Some (PreparedClaims c)" "files w' = files w" "ext w' = ext w"
      "restoreClaimFromCheckpoint lib s c claim w1 = (Ok ds, w')" "ds \<noteq> []" "r = Ok (GetDevices ds)"
  | (anew) c w1 w2 where "stored s w = Some (PreparedClaims c)" "files w2 = files w" "ext w2 = ext w"
      "restoreClaimFromCheckpoint lib s c claim w1 = (Ok [], w2)"
      "call (prepare_anew lib s claim c)
        (\<lambda>devices. call (wrap (Errorf ''unable to sync to checkpoint'')
          (writeCheckpoint (checkpointPath s) (checkpointEncoder s) (addClaimToCheckpoint c claim)))
        (\<lambda>_. ok (GetDevices devices))) w2 = (r, w')"
proof -
  note run = assms [unfolded prepare_body_eq]
  obtain r1 w1 where read: "readCheckpoint (checkpointPath s) (checkpointDecoder s) w = (r1, w1)" by fastforce
  have same1: "files w1 = files w" "ext w1 = ext w"
    using touches_nothing [OF steps_inD [OF touches_readCheckpoint read]]
      steps_inD [OF keeps_ext_readCheckpoint read] by (simp_all add: keeps_ext_def)
  show thesis
  proof (cases r1)
    case (Ok c)
    have st: "stored s w = Some (PreparedClaims c)"
      using read Ok by (auto simp: stored_def dest: readCheckpoint_Ok)
    obtain r2 w2 where res: "restoreClaimFromCheckpoint lib s c claim w1 = (r2, w2)" by fastforce
    have same2: "files w2 = files w" "ext w2 = ext w"
      using touches_nothing [OF steps_inD [OF touches_restoreClaimFromCheckpoint res]]
        steps_inD [OF keeps_ext_restoreClaimFromCheckpoint res] same1 by (simp_all add: keeps_ext_def)
    show thesis
    proof (cases r2)
      case (Ok ds)
      show thesis
      proof (cases "ds = []")
        case True
        with run read \<open>r1 = Ok c\<close> res Ok anew [OF st same2] show thesis by (simp add: effect_simps)
      next
        case False
        with run read \<open>r1 = Ok c\<close> res Ok have "r = Ok (GetDevices ds)" "w' = w2"
          by (auto simp: effect_simps)
        with restored [OF st] same2 res Ok False show thesis by simp
      qed
    qed (use run read Ok res same2 failed in \<open>auto simp: effect_simps\<close>)
  qed (use run read same1 failed in \<open>auto simp: effect_simps\<close>)
qed

text \<open>What is restored is listed, and what is listed is restored.\<close>

lemma restored_listed:
  assumes "restoreClaimFromCheckpoint lib s c claim w = (Ok ds, w')" "ds \<noteq> []"
  shows "claim_UID claim \<in> UID ` set (PreparedClaims c)"
  using assms by (auto simp: restoreClaimFromCheckpoint_def listed_iff split: if_splits)

lemma listed_restored:
  assumes "restoreClaimFromCheckpoint lib s c claim w = (Ok ds, w')" "claim_UID claim \<in> UID ` set (PreparedClaims c)"
  shows "computeDeviceConfig lib s claim w = (Ok ds, w')"
  using assms by (simp add: restoreClaimFromCheckpoint_def listed_iff)

text \<open>What Prepare can do to the store, in every run.\<close>

lemma prepare_body_store:
  assumes "state_ok s" "claim_ok claim" "prepare_body lib s claim w = (r, w')"
  shows "stored s w' = stored s w \<and> (\<forall>ds. r = Ok ds \<longrightarrow>
      (\<exists>cs. stored s w = Some cs \<and> claim_UID claim \<in> UID ` set cs \<and> files w' = files w \<and> ext w' = ext w))
    \<or> (\<exists>cs. stored s w = Some cs \<and> stored s w' = Some (cs @ [checkpoint_entry claim]))"
  using assms(3)
proof (cases rule: prepare_body_cases)
  case failed
  then show ?thesis by (simp add: stored_def stored_claims_def)
next
  case restored
  then show ?thesis
    using restored_listed [OF restored(4,5)] by (simp add: stored_def stored_claims_def)
next
  case (anew c w1 w2)
  have "stored s w' = stored s w2 \<and> (\<forall>y. r \<noteq> Ok y)
    \<or> stored s w' = Some (PreparedClaims (addClaimToCheckpoint c claim))"
    unfolding stored_def
    by (rule file_store.transaction [OF state_ok_usable [OF assms(1)] anew(5) touches_prepare_anew [OF assms(2)]])
      (use assms(1) store_path_apart in \<open>auto simp: state_ok_def\<close>)
  moreover have "stored s w2 = stored s w"
    using anew(2) by (simp add: stored_def stored_claims_def)
  ultimately show ?thesis
    using anew(1) by (auto simp: addClaimToCheckpoint_def)
qed

text \<open>The part of Unprepare after the checkpoint was read.\<close>

definition unprepare_from :: "('x, 'o) libraries \<Rightarrow> 'o DeviceState \<Rightarrow> UID \<Rightarrow> Checkpoint \<Rightarrow> ('x, unit) io" where
  "unprepare_from lib s uid c =
    call (wrap (Errorf ''unprepare failed'') (unprepareDevices uid (Some c)))
    (\<lambda>_. wrap (Errorf ''unable to delete CDI spec file for claim'') (DeleteClaimSpecFile lib (cdi s) uid))"

lemma unprepare_body_eq:
  "unprepare_body lib s uid w =
    (case readCheckpoint (checkpointPath s) (checkpointDecoder s) w of
       (Ok c, w1) \<Rightarrow> call (unprepare_from lib s uid c)
          (\<lambda>_. call (wrap (Errorf ''unable to sync to checkpoint'')
            (writeCheckpoint (checkpointPath s) (checkpointEncoder s) (removeClaimFromCheckpoint c uid))) (\<lambda>_. ok ())) w1
     | (Err e, w1) \<Rightarrow> call (wrap (Errorf ''unable to create new checkpoint'')
          (writeCheckpoint (checkpointPath s) (checkpointEncoder s) new_Checkpoint)) (\<lambda>_. abort NilDeref) w1
     | (Abort a, w1) \<Rightarrow> (Abort a, w1))"
proof -
  obtain r w1 where read: "readCheckpoint (checkpointPath s) (checkpointDecoder s) w = (r, w1)"
    by fastforce
  show ?thesis
  proof (cases r)
    case (Ok c)
    then show ?thesis
      using read by (simp add: unprepare_body_def unprepare_from_def call_assoc Let_def)
        (simp add: effect_simps)
  next
    case (Err e)
    obtain r2 w2 where wr: "wrap (Errorf ''unable to create new checkpoint'')
        (writeCheckpoint (checkpointPath s) (checkpointEncoder s) new_Checkpoint) w1 = (r2, w2)"
      by fastforce
    have "on_err (call (readCheckpoint (checkpointPath s) (checkpointDecoder s)) (\<lambda>c. ok (Some c)))
      (\<lambda>err. call (wrap (Errorf ''unable to create new checkpoint'')
          (writeCheckpoint (checkpointPath s) (checkpointEncoder s) new_Checkpoint)) (\<lambda>_. ok None)) w
      = (case r2 of Ok u \<Rightarrow> (Ok None, w2) | Err e \<Rightarrow> (Err e, w2) | Abort a \<Rightarrow> (Abort a, w2))"
      using read Err wr by (cases r2) (simp_all add: on_err_run call_run ok_run del: wrap_Ok_iff)
    then show ?thesis
      using read Err wr
      by (cases r2) (simp_all add: unprepare_body_def call_run [of "on_err _ _"] unprepareDevices_def
          effect_simps del: wrap_Ok_iff)
  next
    case (Abort a)
    then show ?thesis
      using read by (simp add: unprepare_body_def effect_simps)
  qed
qed

lemma touches_unprepare_from:
  assumes "list_all entry_ok (PreparedClaims c)"
  shows "steps_in (touches in_base) (unprepare_from lib s uid c)"
  unfolding unprepare_from_def
  by (intro touch.in_call touch.in_wrap touches_unprepareDevices touches_CDI) (use assms in auto)

definition without :: "UID \<Rightarrow> PreparedClaim list \<Rightarrow> PreparedClaim list" where
  "without uid cs = filter (\<lambda>c. UID c \<noteq> uid) cs"

text \<open>
  The three ways an unprepare can take: it ends with the reading, the checkpoint cannot be read
  and is written anew, or the claim is taken down.
\<close>

lemma unprepare_body_cases:
  assumes "unprepare_body lib s uid w = (r, w')"
  obtains (ended) a where "readCheckpoint (checkpointPath s) (checkpointDecoder s) w = (Abort a, w')"
      "r = Abort a" "files w' = files w" "ext w' = ext w"
  | (unreadable) e w1 r1 where "readCheckpoint (checkpointPath s) (checkpointDecoder s) w = (Err e, w1)"
      "files w1 = files w" "ext w1 = ext w"
      "writeCheckpoint (checkpointPath s) (checkpointEncoder s) new_Checkpoint w1 = (r1, w')"
      "r = (case r1 of Ok u \<Rightarrow> Abort NilDeref | Err e \<Rightarrow> Err (Errorf ''unable to create new checkpoint'' e) | Abort a \<Rightarrow> Abort a)"
  | (readable) c w1 where "readCheckpoint (checkpointPath s) (checkpointDecoder s) w = (Ok c, w1)"
      "stored s w = Some (PreparedClaims c)" "files w1 = files w" "ext w1 = ext w"
      "call (unprepare_from lib s uid c) (\<lambda>_. call (wrap (Errorf ''unable to sync to checkpoint'')
        (writeCheckpoint (checkpointPath s) (checkpointEncoder s) (removeClaimFromCheckpoint c uid))) (\<lambda>_. ok ())) w1
        = (r, w')"
proof -
  note run = assms [unfolded unprepare_body_eq]
  obtain r1 w1 where read: "readCheckpoint (checkpointPath s) (checkpointDecoder s) w = (r1, w1)" by fastforce
  have same: "files w1 = files w" "ext w1 = ext w"
    using touches_nothing [OF steps_inD [OF touches_readCheckpoint read]]
      steps_inD [OF keeps_ext_readCheckpoint read] by (simp_all add: keeps_ext_def)
  show thesis
  proof (cases r1)
    case (Ok c)
    then have "stored s w = Some (PreparedClaims c)"
      using read by (auto simp: stored_def dest: readCheckpoint_Ok)
    with readable read Ok same run show thesis by simp
  next
    case (Err e)
    obtain r2 w2 where wr: "writeCheckpoint (checkpointPath s) (checkpointEncoder s) new_Checkpoint w1 = (r2, w2)" by fastforce
    with run read Err have "w2 = w'"
      "r = (case r2 of Ok u \<Rightarrow> Abort NilDeref | Err e \<Rightarrow> Err (Errorf ''unable to create new checkpoint'' e) | Abort a \<Rightarrow> Abort a)"
      by (auto simp: effect_simps split: outcome.splits)
    with unreadable read Err same wr show thesis by simp
  next
    case (Abort a)
    with ended run read same show thesis by simp
  qed
qed

text \<open>
  What Unprepare can do to the store: nothing, remove the claim, or, after a read that failed,
  empty it.
\<close>

lemma unprepare_body_store:
  assumes "state_ok s" "unprepare_body lib s uid w = (r, w')"
    and "\<And>cs. stored s w = Some cs \<Longrightarrow> list_all entry_ok cs"
  shows "stored s w' = stored s w \<and> r \<noteq> Ok ()
    \<or> (\<exists>cs. stored s w = Some cs \<and> stored s w' = Some (without uid cs))
      \<and> (\<forall>e. fst (readCheckpoint (checkpointPath s) (checkpointDecoder s) w) \<noteq> Err e)
    \<or> (\<exists>e. fst (readCheckpoint (checkpointPath s) (checkpointDecoder s) w) = Err e)
      \<and> stored s w' = Some [] \<and> (\<forall>e. r \<noteq> Ok ())"
  using assms(2)
proof (cases rule: unprepare_body_cases)
  case (ended a)
  then show ?thesis using stored_same_files [OF ended(3), of s] by simp
next
  case (unreadable e w1 r1)
  have "stored s w' = stored s w1 \<or> stored s w' = Some []"
    using file_store.save_claims [OF state_ok_usable [OF assms(1)] unreadable(4)] by (auto simp: stored_def new_Checkpoint_def)
  moreover have "r \<noteq> Ok ()"
    using unreadable(5) by (simp split: outcome.splits)
  ultimately show ?thesis
    using unreadable(1) stored_same_files [OF unreadable(2)] by auto
next
  case (readable c w1)
  have "stored s w' = stored s w1 \<and> (\<forall>y. r \<noteq> Ok y)
      \<or> stored s w' = Some (PreparedClaims (removeClaimFromCheckpoint c uid))"
    unfolding stored_def
    by (rule file_store.transaction [OF state_ok_usable [OF assms(1)] readable(5) touches_unprepare_from [OF assms(3) [OF readable(2)]]])
      (use assms(1) store_path_apart in \<open>auto simp: state_ok_def\<close>)
  then show ?thesis
    using readable(1,2) stored_same_files [OF readable(3), of s] by (auto simp: removeClaimFromCheckpoint_def without_def)
qed

section \<open>What a fresh preparation leaves\<close>

definition create_for :: "('x, 'o) libraries \<Rightarrow> string \<Rightarrow> string \<Rightarrow> string \<Rightarrow> ('x, string) io" where
  "create_for lib n r d = wrap (Wrapf ''failed to create claim directory'') (createClaimDirectory lib n r d)"

interpretation prepare_dirs: claim_directories
  "create_for lib" deleteClaimDirectory claim_dir claim_ready names_ok for lib
proof unfold_locales
  show "claim_ready (files w') (claim_dir n r) d" if "names_ok n r" "create_for lib n r d w = (Ok s, w')"
    for n r d w s w'
    using host_dirs.create_ready [OF that(1)] that(2) unfolding create_for_def wrap_Ok_iff by blast
  show "claim_ready (files w') (claim_dir n' r') d'"
    if a: "names_ok n r" "names_ok n' r'" "claim_dir n r \<noteq> claim_dir n' r'"
      and run: "create_for lib n r d w = (x, w')" and ready: "claim_ready (files w) (claim_dir n' r') d'"
    for n r n' r' d d' w w' x
  proof -
    obtain x1 where "createClaimDirectory lib n r d w = (x1, w')"
      using wrap_result [OF run [unfolded create_for_def]] by blast
    then show ?thesis
      using host_dirs.create_keeps [OF a _ ready] by blast
  qed
qed (rule host_dirs.delete_gone)

lemma claim_dir_inject [simp]: "claim_dir n r = claim_dir n r' \<longleftrightarrow> r = r'"
  by (auto simp: claim_dir_def dest: Split_inject)

definition set_up_dirs :: "('x, 'o) libraries \<Rightarrow> string \<Rightarrow> DeviceRequestAllocationResult list \<Rightarrow> ('x, unit) io" where
  "set_up_dirs lib n rs = for_each (\<lambda>r. call (create_for lib n (Request r) (Device r)) (\<lambda>_. ok ())) rs"

lemma prepareDevices_eq:
  assumes "Allocation claim = Some alloc"
  shows "prepareDevices lib s claim =
    call (set_up_dirs lib (claim_Name claim) (own_results s (Results alloc)))
    (\<lambda>_. call (computeDeviceConfig lib s claim)
    (\<lambda>devices. call (publish_status lib s claim (Results alloc)) (\<lambda>_. ok devices)))"
  using assms
  by (simp add: prepareDevices_def set_up_dirs_def for_each_filter own_results_def create_for_def)

text \<open>The last result of a request decides what its directory shows.\<close>

definition last_of_request :: "DeviceRequestAllocationResult \<Rightarrow> DeviceRequestAllocationResult list \<Rightarrow> bool" where
  "last_of_request r rs \<longleftrightarrow> find (\<lambda>r'. Request r' = Request r) (rev rs) = Some r"

lemma last_of_request_split:
  assumes "last_of_request r rs"
  obtains xs ys where "rs = xs @ r # ys" "\<forall>y \<in> set ys. Request y \<noteq> Request r"
proof -
  have "\<exists>xs ys. rs = xs @ r # ys \<and> (\<forall>y \<in> set ys. Request y \<noteq> Request r)"
    using assms unfolding last_of_request_def
  proof (induction rs rule: rev_induct)
    case (snoc x rs)
    show ?case
    proof (cases "Request x = Request r")
      case True
      with snoc.prems have "x = r" by simp
      then show ?thesis by fastforce
    next
      case False
      with snoc obtain xs ys where "rs = xs @ r # ys" "\<forall>y \<in> set ys. Request y \<noteq> Request r" by auto
      with False show ?thesis by (intro exI [of _ xs] exI [of _ "ys @ [x]"]) auto
    qed
  qed simp
  then show thesis by (elim exE conjE) (rule that)
qed

lemma set_up_dirs_ready:
  assumes "set_up_dirs lib n rs w = (Ok (), w')" "plain n" "list_all (\<lambda>r. request_ok (Request r)) rs"
    and "last_of_request r rs"
  shows "claim_ready (files w') (claim_dir n (Request r)) (Device r)"
proof -
  obtain xs ys where rs: "rs = xs @ r # ys" and later: "\<forall>y \<in> set ys. Request y \<noteq> Request r"
    using assms(4) by (rule last_of_request_split)
  show ?thesis
    by (rule prepare_dirs.creations_ready [OF _ _ assms(1) [unfolded rs set_up_dirs_def]])
      (use assms(2,3) rs later in \<open>auto simp: names_ok_def list_all_iff\<close>)
qed

lemma prepareDevices_Ok:
  assumes "prepareDevices lib s claim w = (Ok ds, w')"
  obtains alloc w1 w2 where "Allocation claim = Some alloc"
    "set_up_dirs lib (claim_Name claim) (own_results s (Results alloc)) w = (Ok (), w1)"
    "computeDeviceConfig lib s claim w1 = (Ok ds, w2)" "files w' = files w1"
proof -
  obtain alloc where alloc: "Allocation claim = Some alloc"
    using assms by (cases "Allocation claim") (auto simp: prepareDevices_def abort_def)
  from assms obtain w1 w2 w3 where
    sd: "set_up_dirs lib (claim_Name claim) (own_results s (Results alloc)) w = (Ok (), w1)" and
    co: "computeDeviceConfig lib s claim w1 = (Ok ds, w2)" and
    pu: "publish_status lib s claim (Results alloc) w2 = (Ok (), w')"
    unfolding prepareDevices_eq [OF alloc] by (auto elim!: call_OkE)
  have "files w2 = files w1" "files w' = files w2"
    by (rule touches_nothing [OF steps_inD [OF touches_computeDeviceConfig co]],
      rule touches_nothing [OF steps_inD [OF touches_publish_status pu]])
  with alloc sd co that show thesis by simp
qed

end
