(* ===== verification/Prepare_Claims.thy ===== *)
theory Prepare_Claims
  imports Device_State
begin

text \<open>
  The correctness of \<open>Prepare\<close>: what it does to the store of prepared claims in every run,
  what holds when it returns devices, that a claim prepared before is answered from the
  checkpoint without a change, and that it succeeds when nothing disturbs it.
\<close>

section \<open>The run of Prepare\<close>

lemma Prepare_unlocks:
  "\<not> mutex w \<Longrightarrow> Prepare lib s claim w = (r, w') \<Longrightarrow> \<not> mutex w'"
  unfolding Prepare_def by (erule locked_result) auto

lemma Prepare_body:
  assumes "\<not> mutex w" "Prepare lib s claim w = (r, w')"
  obtains w1 where "prepare_body lib s claim (w\<lparr>mutex := True\<rparr>) = (r, w1)" "w' = w1\<lparr>mutex := False\<rparr>"
  using assms(2,1) unfolding Prepare_def by (rule locked_result)

text \<open>A fresh preparation that returns devices went through all its steps.\<close>

lemma prepare_body_fresh:
  assumes "prepare_body lib s claim w = (Ok pds, w')" "stored s w = Some cs" "claim_UID claim \<notin> UID ` set cs"
  obtains c ds w1 w2 w3 where "files w1 = files w" "ext w1 = ext w"
    "prepareDevices lib s claim w1 = (Ok ds, w2)"
    "CreateClaimSpecFile lib (cdi s) (claim_UID claim) ds w2 = (Ok (), w3)"
    "writeCheckpoint (checkpointPath s) (checkpointEncoder s) (addClaimToCheckpoint c claim) w3 = (Ok (), w')"
    "PreparedClaims c = cs" "pds = GetDevices ds"
  using assms(1)
proof (cases rule: prepare_body_cases)
  case (anew c w0 w1)
  from anew(5) obtain ds w2 w3 where "prepareDevices lib s claim w1 = (Ok ds, w2)"
    "CreateClaimSpecFile lib (cdi s) (claim_UID claim) ds w2 = (Ok (), w3)"
    "writeCheckpoint (checkpointPath s) (checkpointEncoder s) (addClaimToCheckpoint c claim) w3 = (Ok (), w')"
    "pds = GetDevices ds"
    unfolding prepare_anew_def by (auto elim!: call_OkE)
  with that anew(1-3) assms(2) show thesis by simp
next
  case restored
  with restored_listed [OF restored(4,5)] assms(2,3) show thesis by simp
qed (use assms(2,3) in auto)

text \<open>A claim that is in the store is answered from it, and nothing changes.\<close>

lemma prepare_body_listed:
  assumes "stored s w = Some cs" "claim_UID claim \<in> UID ` set cs"
    and "Allocation claim = Some alloc" "own_results s (Results alloc) \<noteq> []"
    and "prepare_body lib s claim w = (r, w')"
  shows "files w' = files w \<and> ext w' = ext w
    \<and> (case r of Ok pds \<Rightarrow> mset pds = mset (map (reported lib s claim) (own_results s (Results alloc))) | _ \<Rightarrow> True)"
  using assms(5)
proof (cases rule: prepare_body_cases)
  case failed
  then show ?thesis by (simp split: outcome.splits)
next
  case (restored c ds w1)
  have "computeDeviceConfig lib s claim w1 = (Ok ds, w')"
    using restored(1,4) assms(1,2) by (intro listed_restored) simp_all
  from computed_mset [OF this assms(3)] restored show ?thesis by simp
next
  case (anew c w1 w2)
  have "computeDeviceConfig lib s claim w1 = (Ok [], w2)"
    using anew(1,4) assms(1,2) by (intro listed_restored) simp_all
  from computed_mset [OF this assms(3)] assms(4) show ?thesis by (simp add: GetDevices_def)
qed

text \<open>The same of whole calls, which begin and end with the mutex free.\<close>

lemma Prepare_store:
  assumes "state_ok s" "claim_ok claim" "\<not> mutex w" "Prepare lib s claim w = (r, w')"
  shows "\<not> mutex w' \<and> (stored s w' = stored s w
        \<and> (\<forall>ds. r = Ok ds \<longrightarrow> (\<exists>cs. stored s w = Some cs \<and> claim_UID claim \<in> UID ` set cs))
      \<or> (\<exists>cs. stored s w = Some cs \<and> stored s w' = Some (cs @ [checkpoint_entry claim])))"
proof -
  obtain wa where body: "prepare_body lib s claim (w\<lparr>mutex := True\<rparr>) = (r, wa)" and w': "w' = wa\<lparr>mutex := False\<rparr>"
    using assms(3,4) by (rule Prepare_body)
  show ?thesis
    using prepare_body_store [OF assms(1,2) body] w' by auto
qed

lemma Prepare_listed:
  assumes "stored s w = Some cs" "claim_UID claim \<in> UID ` set cs"
    and "Allocation claim = Some alloc" "own_results s (Results alloc) \<noteq> []"
    and "\<not> mutex w" "Prepare lib s claim w = (r, w')"
  shows "\<not> mutex w' \<and> files w' = files w \<and> ext w' = ext w
    \<and> (case r of Ok pds \<Rightarrow> mset pds = mset (map (reported lib s claim) (own_results s (Results alloc))) | _ \<Rightarrow> True)"
proof -
  obtain wa where body: "prepare_body lib s claim (w\<lparr>mutex := True\<rparr>) = (r, wa)" and w': "w' = wa\<lparr>mutex := False\<rparr>"
    using assms(5,6) by (rule Prepare_body)
  have "stored s (w\<lparr>mutex := True\<rparr>) = Some cs"
    using assms(1) by simp
  from prepare_body_listed [OF this assms(2-4) body] w' show ?thesis by simp
qed

text \<open>The directories of the claims are not the store's.\<close>

lemma claim_ready_kept:
  assumes "\<And>p. in_base p \<Longrightarrow> fmlookup fs' p = fmlookup fs p" "claim_ready fs (claim_dir n r) d"
  shows "claim_ready fs' (claim_dir n r) d"
proof -
  have "in_base (claim_dir n r)" "in_base (metadata_path (claim_dir n r))"
    by (auto simp: metadata_path_def intro!: claim_dir_in_base)
  with assms show ?thesis
    by (simp add: claim_ready_def dir_ready_def file_ready_def)
qed

text \<open>What a fresh preparation leaves.\<close>

lemma Prepare_fresh:
  assumes "state_ok s" "claim_ok claim" "cdi_laws lib specs" "\<not> mutex w"
    and "stored s w = Some cs" "claim_UID claim \<notin> UID ` set cs" "Prepare lib s claim w = (Ok pds, w')"
  shows "\<exists>alloc spec. Allocation claim = Some alloc
    \<and> mset pds = mset (map (reported lib s claim) (own_results s (Results alloc)))
    \<and> stored s w' = Some (cs @ [checkpoint_entry claim])
    \<and> (\<forall>r. last_of_request r (own_results s (Results alloc)) \<longrightarrow>
        claim_ready (files w') (claim_dir (claim_Name claim) (Request r)) (Device r))
    \<and> claim_spec_of lib specs (cdi s) (ext w') (claim_UID claim) = Some spec
    \<and> map cdi_Name (spec_Devices spec) = map (\<lambda>d. claim_UID claim @ ''-'' @ DeviceName d) pds"
proof -
  obtain wa where body: "prepare_body lib s claim (w\<lparr>mutex := True\<rparr>) = (Ok pds, wa)" and w': "w' = wa\<lparr>mutex := False\<rparr>"
    using assms(4,7) by (rule Prepare_body)
  have "stored s (w\<lparr>mutex := True\<rparr>) = Some cs"
    using assms(5) by simp
  from prepare_body_fresh [OF body this assms(6)] obtain c ds w1 w2 w3 where
    prep: "prepareDevices lib s claim w1 = (Ok ds, w2)" and
    spec: "CreateClaimSpecFile lib (cdi s) (claim_UID claim) ds w2 = (Ok (), w3)" and
    wr: "writeCheckpoint (checkpointPath s) (checkpointEncoder s) (addClaimToCheckpoint c claim) w3 = (Ok (), wa)" and
    c: "PreparedClaims c = cs" and pds: "pds = GetDevices ds"
    by metis
  from prepareDevices_Ok [OF prep] obtain alloc wb wc where alloc: "Allocation claim = Some alloc" and
    sd: "set_up_dirs lib (claim_Name claim) (own_results s (Results alloc)) wb = (Ok (), wc)"
      "files w2 = files wc" and
    co: "\<exists>u v. computeDeviceConfig lib s claim u = (Ok ds, v)"
    by metis
  have names: "plain (claim_Name claim)" "list_all (\<lambda>r. request_ok (Request r)) (own_results s (Results alloc))"
    using assms(2) alloc by (auto simp: claim_ok_def own_results_def list_all_iff)
  have t: "touches (store_path (checkpointPath s)) w3 wa" and f3: "files w3 = files wc"
    using steps_inD [OF touches_writeCheckpoint wr] assms(1) touches_nothing [OF steps_inD [OF touches_CDI(1) spec]] sd(2)
    by (simp_all add: state_ok_def)
  have kept: "fmlookup (files w') p = fmlookup (files wc) p" if "in_base p" for p
    using touches_lookup [OF t, of p] f3 w' that assms(1) store_path_apart [of "checkpointPath s" p]
    by (auto simp: state_ok_def)
  obtain sp where sp: "claim_spec_of lib specs (cdi s) (ext w3) (claim_UID claim) = Some sp"
    "spec_for lib (cdi s) (claim_UID claim) ds sp"
    using cdi_specs.create_spec [OF assms(3) spec] by blast
  have "stored s w' = Some (cs @ [checkpoint_entry claim])"
    using file_store.save_Ok [OF state_ok_usable [OF assms(1)] wr] c w'
    by (simp add: stored_def addClaimToCheckpoint_def)
  moreover have "claim_ready (files w') (claim_dir (claim_Name claim) (Request r)) (Device r)"
    if "last_of_request r (own_results s (Results alloc))" for r
    using claim_ready_kept [OF kept set_up_dirs_ready [OF sd(1) names that]] .
  moreover have "ext w' = ext w3"
    using steps_inD [OF keeps_ext_writeCheckpoint wr] w' by (simp add: keeps_ext_def)
  moreover have "map cdi_Name (spec_Devices sp) = map (\<lambda>d. claim_UID claim @ ''-'' @ DeviceName d) pds"
    using sp(2) by (simp add: spec_for_def pds GetDevices_def claim_device_def Let_def pb_Device.truncate_def)
  moreover have "mset pds = mset (map (reported lib s claim) (own_results s (Results alloc)))"
    using co computed_mset alloc pds by (metis option.inject)
  ultimately show ?thesis
    using alloc sp(1) by (intro exI [of _ alloc] exI [of _ sp]) simp
qed

section \<open>Success in a calm world\<close>

lemma set_up_dirs_calm:
  assumes "calm w" "plain n" "list_all (\<lambda>r. request_ok (Request r)) rs"
    and "\<not> in_the_way (claim_dir n ` Request ` set rs) w"
  shows "\<exists>w'. set_up_dirs lib n rs w = (Ok (), w') \<and> calm w'"
proof -
  let ?S = "claim_dir n ` Request ` set rs"
  have S: "dirs_of ?S"
    using assms(2,3) by (auto simp: dirs_of_def list_all_iff)
  have "\<exists>w'. set_up_dirs lib n xs w = (Ok (), w') \<and> calm w'"
    if "set xs \<subseteq> set rs" "calm w" "\<not> in_the_way ?S w" for xs w
    using that
  proof (induction xs arbitrary: w)
    case Nil
    then show ?case by (simp add: set_up_dirs_def)
  next
    case (Cons x xs)
    then have x: "request_ok (Request x)" "claim_dir n (Request x) \<in> ?S"
      using assms(3) by (auto simp: list_all_iff)
    have "\<not> in_the_way {claim_dir n (Request x)} w"
      using Cons.prems(3) x(2) by (auto simp: in_the_way_def)
    then obtain p w1 where mk: "createClaimDirectory lib n (Request x) (Device x) w = (Ok p, w1)" "calm w1"
      using createClaimDirectory_calm [OF Cons.prems(2) assms(2) x(1)] by blast
    have "makes ?S w w1"
      by (rule steps_inD [OF makes_createClaimDirectory mk(1)]) (use assms(2) x in auto)
    then have "\<not> in_the_way ?S w1"
      using Cons.prems(3) S by (rule stays_clear)
    with Cons mk(2) obtain w' where "set_up_dirs lib n xs w1 = (Ok (), w')" "calm w'"
      by auto
    moreover have "create_for lib n (Request x) (Device x) w = (Ok p, w1)"
      using mk(1) by (simp add: create_for_def)
    ultimately show ?case
      by (simp add: set_up_dirs_def effect_simps)
  qed
  with assms(1,4) show ?thesis by blast
qed

lemma publish_status_calm: "calm w \<Longrightarrow> \<exists>w'. publish_status lib s claim rs w = (Ok (), w')"
proof -
  assume calm: "calm w"
  have "\<exists>w'. on_err (updateDeviceStatus lib ns n us) (\<lambda>_. ok ()) w = (Ok (), w')" for ns n us
    using calm by (simp add: updateDeviceStatus_def on_err_run extern_err_calm ok_def
        split: option.splits outcome.splits)
  then show ?thesis
    by (auto simp: publish_status_def Let_def split: option.splits)
qed

text \<open>
  The CDI package refuses the spec of a claim: no version of the specification has all its fields,
  or the cache, in the state \<open>x\<close>, does not write it.
\<close>

definition spec_refused :: "('x, 'o) libraries \<Rightarrow> CDIHandler \<Rightarrow> string \<Rightarrow> PreparedDevices \<Rightarrow> 'x \<Rightarrow> go_error \<Rightarrow> bool" where
  "spec_refused lib h uid ds x e \<longleftrightarrow>
    (case cdi_MinimumRequiredVersion lib (claim_spec lib h uid ds) of
       Inl e' \<Rightarrow> e = Errorf ''failed to get minimum required CDI spec version'' e'
     | Inr v \<Rightarrow> fst (cdi_WriteSpec lib (cache h) ((claim_spec lib h uid ds)\<lparr>Version := v\<rparr>)
         (claim_spec_name lib h uid) x) = Some e)"

lemma CreateClaimSpecFile_calm:
  assumes "calm w"
  obtains w' where "CreateClaimSpecFile lib h uid ds w = (Ok (), w')"
  | e w' where "CreateClaimSpecFile lib h uid ds w = (Err e, w')" "spec_refused lib h uid ds (ext w) e"
proof (cases "cdi_MinimumRequiredVersion lib (claim_spec lib h uid ds)")
  case (Inl e)
  then show thesis
    by (intro that(2)) (simp_all add: CreateClaimSpecFile_def Let_def effect_simps spec_refused_def)
next
  case (Inr v)
  then show thesis
    using that
    by (cases "fst (cdi_WriteSpec lib (cache h) ((claim_spec lib h uid ds)\<lparr>Version := v\<rparr>) (claim_spec_name lib h uid) (ext w))")
      (simp_all add: CreateClaimSpecFile_def Let_def effect_simps extern_err_calm [OF assms] spec_refused_def)
qed

text \<open>Temporary names stay free while only the directories of the claims change.\<close>

lemma tmp_free_kept:
  assumes "tmp_free path w" "touches in_base w w'" "apart_from_claims path"
  shows "tmp_free path w'"
  unfolding tmp_free_def
proof (intro allI impI)
  fix n
  assume n: "ticks w' \<le> n"
  let ?p = "butlast (elems path) @ [''tmp-checkpoint-'' @ Itoa (tmp_number (env w') n)]"
  have "store_path path ?p"
    by (simp add: store_path_def)
  with assms(3) have "\<not> in_base ?p"
    by (rule store_path_apart)
  with assms(1,2) n show "fmlookup (files w') ?p = None"
    by (simp add: tmp_free_def touches_def)
qed

lemma store_dir_kept:
  assumes "touches in_base w w'" "apart_from_claims path" "checkpoint_path path"
  shows "is_dir (files w') (elems path) = is_dir (files w) (elems path)"
    and "is_dir (files w) (butlast (elems path)) \<Longrightarrow> is_dir (files w') (butlast (elems path))"
proof -
  have "\<not> in_base (elems path)"
    using store_path_apart [OF assms(2) store_path_checkpoint [OF assms(3)]] .
  then show "is_dir (files w') (elems path) = is_dir (files w) (elems path)"
    using assms(1) by (simp add: is_dir_def touches_lookup)
  have "\<not> in_base (butlast (elems path))"
  proof
    assume "in_base (butlast (elems path))"
    then have "prefix base_path (butlast (elems path))"
      using assms(2) by (auto simp: in_base_def apart_from_claims_def)
    then have "prefix base_path (elems path)"
      by (meson prefix_order.trans prefixeq_butlast)
    with assms(2) show False
      by (simp add: apart_from_claims_def)
  qed
  then show "is_dir (files w) (butlast (elems path)) \<Longrightarrow> is_dir (files w') (butlast (elems path))"
    using assms(1) by (simp add: is_dir_def touches_lookup)
qed

text \<open>The conditions on a claim under which the network profile's driver can prepare it.\<close>

definition preparable :: "'o DeviceState \<Rightarrow> ResourceClaim \<Rightarrow> bool" where
  "preparable s claim \<longleftrightarrow> (case Allocation claim of
     None \<Rightarrow> False
   | Some alloc \<Rightarrow>
      list_all (\<lambda>r. fmlookup (allocatable s) (Device r) \<noteq> None) (own_results s (Results alloc))
      \<and> (case GetOpaqueDeviceConfigs (configDecoder s) (driverName s) (Config alloc) of
          Inl e \<Rightarrow> False | Inr configs \<Rightarrow> True))"

definition claim_dirs :: "'o DeviceState \<Rightarrow> ResourceClaim \<Rightarrow> path set" where
  "claim_dirs s claim = (case Allocation claim of None \<Rightarrow> {}
    | Some alloc \<Rightarrow> claim_dir (claim_Name claim) ` Request ` set (own_results s (Results alloc)))"

lemma prepare_anew_calm:
  assumes "calm w" "claim_ok claim" "configHandler s = network_handler" "preparable s claim"
    and "\<not> in_the_way (claim_dirs s claim) w" "Allocation claim = Some alloc"
  obtains ds w1 w' where "mset (GetDevices ds) = mset (map (reported lib s claim) (own_results s (Results alloc)))"
    and "CreateClaimSpecFile lib (cdi s) (claim_UID claim) ds w1 = (Ok (), w')" "prepare_anew lib s claim c w = (Ok ds, w')"
  | ds w1 e w' where "mset (GetDevices ds) = mset (map (reported lib s claim) (own_results s (Results alloc)))"
    and "CreateClaimSpecFile lib (cdi s) (claim_UID claim) ds w1 = (Err e, w')" "spec_refused lib (cdi s) (claim_UID claim) ds (ext w1) e"
    and "prepare_anew lib s claim c w = (Err (Errorf ''unable to create CDI spec file for claim'' e), w')"
proof -
  note alloc = assms(6)
  obtain configs where configs: "GetOpaqueDeviceConfigs (configDecoder s) (driverName s) (Config alloc) = Inr configs"
    and avail: "list_all (\<lambda>r. fmlookup (allocatable s) (Device r) \<noteq> None) (own_results s (Results alloc))"
    using assms(4) alloc by (auto simp: preparable_def split: option.splits sum.splits)
  let ?own = "own_results s (Results alloc)"
  have "list_all (\<lambda>r. request_ok (Request r)) ?own" "plain (claim_Name claim)"
    using assms(2) alloc by (auto simp: claim_ok_def own_results_def list_all_iff)
  moreover have "\<not> in_the_way (claim_dir (claim_Name claim) ` Request ` set ?own) w"
    using assms(5) alloc by (simp add: claim_dirs_def)
  ultimately obtain w1 where sd: "set_up_dirs lib (claim_Name claim) ?own w = (Ok (), w1)" and c1: "calm w1"
    using set_up_dirs_calm [OF assms(1)] by blast
  obtain ds w2 where co: "computeDeviceConfig lib s claim w1 = (Ok ds, w2)"
    using compute_network_returns [OF assms(3) alloc configs avail] by blast
  have c2: "calm w2"
    by (rule touches_calm [OF steps_inD [OF touches_computeDeviceConfig co] c1])
  obtain w3 where pu: "publish_status lib s claim (Results alloc) w2 = (Ok (), w3)"
    using publish_status_calm [OF c2] by blast
  have c3: "calm w3"
    by (rule touches_calm [OF steps_inD [OF touches_publish_status pu] c2])
  have run: "prepare_anew lib s claim c w = call (wrap (Errorf ''unable to create CDI spec file for claim'')
      (CreateClaimSpecFile lib (cdi s) (claim_UID claim) ds)) (\<lambda>_. ok ds) w3"
    using sd co pu by (simp add: prepare_anew_def prepareDevices_eq [OF alloc] effect_simps)
  note ds = computed_mset [OF co alloc]
  show thesis
    by (rule CreateClaimSpecFile_calm [OF c3]) (rule that(1) [OF ds] that(2) [OF ds], assumption+, simp add: run effect_simps)+
qed

definition room_for_checkpoint :: "'o DeviceState \<Rightarrow> 'x world \<Rightarrow> bool" where
  "room_for_checkpoint s w \<longleftrightarrow> tmp_free (checkpointPath s) w \<and> is_dir (files w) (butlast (elems (checkpointPath s)))"

lemma room_kept:
  assumes "state_ok s" "room_for_checkpoint s w" "touches in_base w w'"
  shows "room_for_checkpoint s w'"
  using assms tmp_free_kept store_dir_kept(2) by (auto simp: room_for_checkpoint_def state_ok_def)

lemma save_calm:
  assumes "calm w" "state_ok s" "room_for_checkpoint s w" "stored s w \<noteq> None"
  shows "\<exists>w'. writeCheckpoint (checkpointPath s) (checkpointEncoder s) c w = (Ok (), w')"
proof -
  obtain t where "checkpointEncoder s c = Inr t"
    using assms(2) by (auto simp: state_ok_def faithful_def)
  moreover have "elems (checkpointPath s) \<noteq> []"
    using assms(2) by (simp add: state_ok_def checkpoint_path_def)
  then have "\<not> is_dir (files w) (elems (checkpointPath s))"
    using assms(4) by (auto simp: stored_def stored_claims_def is_dir_iff)
  ultimately show ?thesis
    using writeCheckpoint_calm [of w "checkpointPath s" "checkpointEncoder s" c t] assms(1-3)
    by (auto simp: state_ok_def room_for_checkpoint_def)
qed

text \<open>After a write that returned without an error there is room for the next one.\<close>

lemma room_saved:
  assumes "state_ok s" "room_for_checkpoint s w"
    and "writeCheckpoint (checkpointPath s) (checkpointEncoder s) c w = (Ok (), w')"
  shows "room_for_checkpoint s w'"
proof -
  let ?p = "elems (checkpointPath s)"
  have "touches (store_path (checkpointPath s)) w w'"
    using assms(1) by (intro steps_inD [OF touches_writeCheckpoint assms(3)]) (simp add: state_ok_def)
  moreover have "butlast ?p \<noteq> ?p"
    using assms(1) by (metis append_butlast_last_id append_self_conv checkpoint_path_def not_Cons_self2 state_ok_def)
  moreover have "butlast ?p @ [''tmp-checkpoint-'' @ Itoa n] \<noteq> ?p" for n
    using assms(1) by (metis checkpoint_path_def last_snoc prefixI state_ok_def)
  ultimately show ?thesis
    using assms(2) writeCheckpoint_Ok_only [OF assms(3)]
    by (simp add: room_for_checkpoint_def tmp_free_def is_dir_def touches_def)
qed

lemma prepare_body_calm:
  assumes "calm w" "state_ok s" "claim_ok claim" "configHandler s = network_handler" "preparable s claim"
    and "\<not> in_the_way (claim_dirs s claim) w" "room_for_checkpoint s w" "stored s w = Some cs"
    and "Allocation claim = Some alloc" "prepare_body lib s claim w = (r, w')"
  shows "case r of
      Ok pds \<Rightarrow> mset pds = mset (map (reported lib s claim) (own_results s (Results alloc)))
    | Err e \<Rightarrow> \<exists>ds w1 e1. mset (GetDevices ds) = mset (map (reported lib s claim) (own_results s (Results alloc)))
        \<and> CreateClaimSpecFile lib (cdi s) (claim_UID claim) ds w1 = (Err e1, w')
        \<and> spec_refused lib (cdi s) (claim_UID claim) ds (ext w1) e1
        \<and> e = Errorf ''unable to create CDI spec file for claim'' e1
    | Abort a \<Rightarrow> False"
proof -
  have ne: "elems (checkpointPath s) \<noteq> []"
    using assms(2) by (simp add: state_ok_def checkpoint_path_def)
  obtain c where read: "readCheckpoint (checkpointPath s) (checkpointDecoder s) w = (Ok c, tick w)"
    using readCheckpoint_calm [OF assms(1) ne assms(8) [unfolded stored_def]] by blast
  have c1: "calm (tick w)"
    using assms(1) by simp
  note alloc = assms(9)
  obtain configs where configs: "GetOpaqueDeviceConfigs (configDecoder s) (driverName s) (Config alloc) = Inr configs"
    and avail: "list_all (\<lambda>r. fmlookup (allocatable s) (Device r) \<noteq> None) (own_results s (Results alloc))"
    using assms(5) alloc by (auto simp: preparable_def split: option.splits sum.splits)
  obtain rs w2 where res: "restoreClaimFromCheckpoint lib s c claim (tick w) = (Ok rs, w2)"
    using compute_network_returns [OF assms(4) alloc configs avail, of lib "tick w"]
    by (cases "list_ex (\<lambda>c. UID c = claim_UID claim) (PreparedClaims c)") (auto simp: restoreClaimFromCheckpoint_def)
  note t2 = steps_inD [OF touches_restoreClaimFromCheckpoint res]
  have c2: "calm w2"
    by (rule touches_calm [OF t2 c1])
  have f2: "files w2 = files w"
    using touches_nothing [OF t2] by simp
  have room2: "room_for_checkpoint s w2"
    using t2 [of in_base] assms(7) by (intro room_kept [OF assms(2) assms(7)]) (simp add: touches_def)
  show ?thesis
  proof (cases "rs = []")
    case False
    with res have "computeDeviceConfig lib s claim (tick w) = (Ok rs, w2)"
      by (auto simp: restoreClaimFromCheckpoint_def split: if_splits)
    with False read res computed_mset [OF this alloc] assms(10) show ?thesis
      by (auto simp: prepare_body_eq effect_simps)
  next
    case True
    have clear: "\<not> in_the_way (claim_dirs s claim) w2"
      using assms(6) f2 by (simp add: in_the_way_def)
    show ?thesis
    proof (rule prepare_anew_calm [OF c2 assms(3-5) clear alloc, of lib c])
      fix ds w1 w3
      assume anew: "prepare_anew lib s claim c w2 = (Ok ds, w3)"
        and ds: "mset (GetDevices ds) = mset (map (reported lib s claim) (own_results s (Results alloc)))"
      note t3 = steps_inD [OF touches_prepare_anew [OF assms(3)] anew]
      have "stored s w3 = stored s w"
        using stored_others [OF assms(2) touches_prepare_anew [OF assms(3)] anew] f2
        by (simp add: stored_def stored_claims_def)
      then obtain w4 where "writeCheckpoint (checkpointPath s) (checkpointEncoder s) (addClaimToCheckpoint c claim) w3 = (Ok (), w4)"
        using save_calm [OF touches_calm [OF t3 c2] assms(2) room_kept [OF assms(2) room2 t3]] assms(8) by auto
      with read res True anew ds assms(10) show ?thesis
        by (auto simp: prepare_body_eq effect_simps)
    next
      fix ds w1 e w3
      assume "prepare_anew lib s claim c w2 = (Err (Errorf ''unable to create CDI spec file for claim'' e), w3)"
        and rest: "mset (GetDevices ds) = mset (map (reported lib s claim) (own_results s (Results alloc)))"
          "CreateClaimSpecFile lib (cdi s) (claim_UID claim) ds w1 = (Err e, w3)"
          "spec_refused lib (cdi s) (claim_UID claim) ds (ext w1) e"
      with read res True assms(10) have "r = Err (Errorf ''unable to create CDI spec file for claim'' e)" "w' = w3"
        by (simp_all add: prepare_body_eq effect_simps)
      with rest show ?thesis by auto
    qed
  qed
qed

section \<open>A driver at work\<close>

definition sample_world :: "sample_ext world" where
  "sample_world = world_with_dirs [butlast (elems sample_path)] empty_ext"

lemma sample_world_simps [simp]:
  "calm sample_world" "mutex sample_world = False" "ext sample_world = empty_ext"
  by (simp_all add: sample_world_def)

lemma sample_world_files: "fmlookup (files sample_world) p = (if p = butlast (elems sample_path) then Some (Dir root_attrs) else None)"
  by (simp add: sample_world_def)

lemma sample_state_ok: "state_ok sample_state"
  by (simp add: state_ok_def sample_checkpoint_path sample_faithful apart_from_claims_def elems_sample_path base_path_def)

lemma sample_claim_ok: "claim_ok sample_claim"
  by (simp add: claim_ok_def plain_def uid_ok_def request_ok_def)

lemma sample_preparable: "preparable sample_state sample_claim"
  using sample_compute_hyps(1,2) by (simp add: preparable_def)

lemma sample_clear: "\<not> in_the_way (claim_dirs sample_state sample_claim) sample_world"
proof -
  have "metadata_path (claim_dir n r) \<noteq> butlast (elems sample_path)" for n r
    by (simp add: elems_sample_path metadata_path_def claim_dir_def claim_root_def base_path_def)
  then show ?thesis
    by (auto simp: in_the_way_def claim_dirs_def is_file_iff is_dir_iff sample_world_files)
qed

lemma sample_spec_accepted: "\<not> spec_refused sample_libraries h uid ds x e"
  by (simp add: spec_refused_def sample_libraries_def)

lemma sample_room: "room_for_checkpoint sample_state sample_world"
  by (simp add: room_for_checkpoint_def tmp_free_def is_dir_iff sample_world_files)

lemma sample_stored: "stored sample_state sample_world = Some []"
  by (simp add: stored_def stored_claims_def sample_world_files elems_sample_path)

lemma sample_prepare_body:
  "\<exists>ds w'. prepare_body sample_libraries sample_state sample_claim (sample_world\<lparr>mutex := True\<rparr>) = (Ok ds, w')"
proof -
  obtain r w' where run: "prepare_body sample_libraries sample_state sample_claim (sample_world\<lparr>mutex := True\<rparr>) = (r, w')"
    by fastforce
  have "calm (sample_world\<lparr>mutex := True\<rparr>)"
    using sample_world_simps(1) by (simp add: calm_def)
  moreover have "\<not> in_the_way (claim_dirs sample_state sample_claim) (sample_world\<lparr>mutex := True\<rparr>)"
    using sample_clear by (simp add: in_the_way_def)
  moreover have "room_for_checkpoint sample_state (sample_world\<lparr>mutex := True\<rparr>)"
    using sample_room by (simp add: room_for_checkpoint_def tmp_free_def)
  moreover have "stored sample_state (sample_world\<lparr>mutex := True\<rparr>) = Some []"
    by (simp add: sample_stored)
  ultimately show ?thesis
    using prepare_body_calm [OF _ sample_state_ok sample_claim_ok sample_state_simps(3) sample_preparable _ _ _ sample_claim_simps(3) run]
      run by (cases r) (auto simp: sample_spec_accepted)
qed

lemma sample_prepare:
  "\<exists>ds w'. Prepare sample_libraries sample_state sample_claim sample_world = (Ok ds, w')"
proof -
  from sample_prepare_body obtain ds w' where
    "prepare_body sample_libraries sample_state sample_claim (sample_world\<lparr>mutex := True\<rparr>) = (Ok ds, w')"
    by (elim exE)
  then have "Prepare sample_libraries sample_state sample_claim sample_world = (Ok ds, w'\<lparr>mutex := False\<rparr>)"
    by (simp add: Prepare_def locked_run)
  then show ?thesis by (intro exI)
qed

section \<open>Properties\<close>

text \<open>
  C1: In every run of \<open>Prepare\<close>, whichever call fails or is the last one of the process, the
  store of prepared claims afterwards is the old one or the old one with this claim's entry at
  the end; if devices are returned, the claim is in it; and the mutex is free again.
\<close>

theorem prepare_store_atomic:
  assumes "state_ok s" "claim_ok claim" "\<not> mutex w" "Prepare lib s claim w = (r, w')"
  shows "(stored s w' = stored s w
      \<or> (\<exists>cs. stored s w = Some cs \<and> stored s w' = Some (cs @ [checkpoint_entry claim])))
    \<and> (case r of Ok ds \<Rightarrow> \<exists>cs. stored s w' = Some cs \<and> claim_UID claim \<in> UID ` set cs | _ \<Rightarrow> True)
    \<and> \<not> mutex w'"
  using Prepare_store [OF assms] by (auto split: outcome.splits)

theorem prepare_store_atomic_witness:
  "case Prepare sample_libraries sample_state sample_claim sample_world of (r, w') \<Rightarrow>
    (stored sample_state w' = stored sample_state sample_world
      \<or> (\<exists>cs. stored sample_state sample_world = Some cs
        \<and> stored sample_state w' = Some (cs @ [checkpoint_entry sample_claim])))"
  using prepare_store_atomic [OF sample_state_ok sample_claim_ok sample_world_simps(2) [THEN eq_False [THEN iffD1]]
      prod.collapse [symmetric], of sample_libraries]
  by (simp add: case_prod_beta)

text \<open>
  C2: When \<open>Prepare\<close> returns devices for a claim that was not in the store, in any environment,
  then: the devices are those of this driver's results; the claim's entry is stored after the
  others; the directory of every request is ready for the last device of that request; and the
  node has a CDI spec for the claim with exactly the returned devices.
\<close>

theorem prepare_fresh_effects:
  assumes "state_ok s" "claim_ok claim" "cdi_laws lib specs" "\<not> mutex w"
    and "stored s w = Some cs" "claim_UID claim \<notin> UID ` set cs" "Prepare lib s claim w = (Ok pds, w')"
  shows "\<exists>alloc spec. Allocation claim = Some alloc
    \<and> mset pds = mset (map (reported lib s claim) (own_results s (Results alloc)))
    \<and> stored s w' = Some (cs @ [checkpoint_entry claim])
    \<and> (\<forall>r. last_of_request r (own_results s (Results alloc)) \<longrightarrow>
        claim_ready (files w') (claim_dir (claim_Name claim) (Request r)) (Device r))
    \<and> claim_spec_of lib specs (cdi s) (ext w') (claim_UID claim) = Some spec
    \<and> map cdi_Name (spec_Devices spec) = map (\<lambda>d. claim_UID claim @ ''-'' @ DeviceName d) pds"
  using assms by (rule Prepare_fresh)

theorem prepare_fresh_effects_witness:
  "\<exists>pds. fst (Prepare sample_libraries sample_state sample_claim sample_world) = Ok pds
    \<and> image_mset DeviceName (mset pds) = {#''network-0'', ''network-1''#}
    \<and> claim_ready (files (snd (Prepare sample_libraries sample_state sample_claim sample_world)))
        (claim_dir ''claim'' ''red'') ''network-0''"
proof -
  from sample_prepare obtain pds w' where run: "Prepare sample_libraries sample_state sample_claim sample_world = (Ok pds, w')"
    by (elim exE)
  have "\<not> mutex sample_world" "claim_UID sample_claim \<notin> UID ` set []"
    by simp_all
  from prepare_fresh_effects [OF sample_state_ok sample_claim_ok sample_cdi_laws this(1) sample_stored this(2) run]
  obtain alloc where alloc: "Allocation sample_claim = Some alloc"
    and pds: "mset pds = mset (map (reported sample_libraries sample_state sample_claim) (own_results sample_state (Results alloc)))"
    and ready: "\<forall>r. last_of_request r (own_results sample_state (Results alloc)) \<longrightarrow>
      claim_ready (files w') (claim_dir (claim_Name sample_claim) (Request r)) (Device r)"
    by (elim exE conjE) (rule that)
  have own: "own_results sample_state (Results alloc) = [sample_result ''red'' ''network-0'', sample_result ''blue'' ''network-1'']"
    using alloc sample_own_results by auto
  have "image_mset DeviceName (mset pds) = {#''network-0'', ''network-1''#}"
    unfolding pds own by (simp add: reported_def)
  moreover have last: "last_of_request (sample_result ''red'' ''network-0'') (own_results sample_state (Results alloc))"
    unfolding own by (simp add: last_of_request_def)
  have "claim_ready (files w') (claim_dir ''claim'' ''red'') ''network-0''"
    using ready [THEN spec, THEN mp, OF last] by simp
  ultimately show ?thesis
    unfolding run fst_conv snd_conv by (intro exI conjI) simp_all
qed

text \<open>
  C14: A claim that is in the store and has results of this driver is answered from the
  checkpoint: whatever happens in the run, no file and nothing on the node changes, and when
  devices are returned they are again those of its results.
\<close>

theorem prepare_again_same:
  assumes "state_ok s" "claim_ok claim" "\<not> mutex w" "stored s w = Some cs" "claim_UID claim \<in> UID ` set cs"
    and "Allocation claim = Some alloc" "own_results s (Results alloc) \<noteq> []"
    and "Prepare lib s claim w = (r, w')"
  shows "files w' = files w \<and> ext w' = ext w
    \<and> (case r of Ok pds \<Rightarrow> mset pds = mset (map (reported lib s claim) (own_results s (Results alloc))) | _ \<Rightarrow> True)"
  using Prepare_listed [OF assms(4-7,3,8)] by simp

theorem prepare_again_same_witness:
  "case Prepare sample_libraries sample_state sample_claim sample_world of (_, w) \<Rightarrow>
    case Prepare sample_libraries sample_state sample_claim w of (_, w') \<Rightarrow> files w' = files w \<and> ext w' = ext w"
proof -
  from sample_prepare_body obtain ds wa where
    body: "prepare_body sample_libraries sample_state sample_claim (sample_world\<lparr>mutex := True\<rparr>) = (Ok ds, wa)"
    by (elim exE)
  have run: "Prepare sample_libraries sample_state sample_claim sample_world = (Ok ds, wa\<lparr>mutex := False\<rparr>)"
    using body by (simp add: Prepare_def locked_run)
  obtain cs where cs: "stored sample_state (wa\<lparr>mutex := False\<rparr>) = Some cs" "claim_UID sample_claim \<in> UID ` set cs"
    using prepare_body_store [OF sample_state_ok sample_claim_ok body] by (auto simp: sample_stored)
  have "own_results sample_state (Results \<lparr>Results = [sample_result ''red'' ''network-0'',
      sample_result ''blue'' ''network-1''], Config = []\<rparr>) \<noteq> []"
    by (simp add: sample_own_results)
  from prepare_again_same [OF sample_state_ok sample_claim_ok _ cs sample_claim_simps(3) this prod.collapse [symmetric],
      of sample_libraries]
  show ?thesis
    by (simp add: run case_prod_beta)
qed

text \<open>
  C15: \<open>Prepare\<close> with the network profile succeeds: when no call is disturbed, the mutex is free,
  the claim is allocated with devices that are advertised and configurations that decode, nothing is
  in the way of its directories, and the checkpoint can be read and its directory written to, it
  returns one device for each result of this driver. The only thing that it does not return devices
  for is that the CDI package refuses the spec of these devices; then that error is returned, with
  nothing done after it.
\<close>

theorem prepare_succeeds:
  assumes "calm w" "\<not> mutex w" "state_ok s" "claim_ok claim" "configHandler s = network_handler"
    and "preparable s claim" "\<not> in_the_way (claim_dirs s claim) w"
    and "room_for_checkpoint s w" "stored s w = Some cs" "Allocation claim = Some alloc"
  shows "case Prepare lib s claim w of (r, w') \<Rightarrow> (case r of
      Ok pds \<Rightarrow> mset pds = mset (map (reported lib s claim) (own_results s (Results alloc)))
    | Err e \<Rightarrow> \<exists>ds w1 w2 e1. mset (GetDevices ds) = mset (map (reported lib s claim) (own_results s (Results alloc)))
        \<and> CreateClaimSpecFile lib (cdi s) (claim_UID claim) ds w1 = (Err e1, w2) \<and> w' = w2\<lparr>mutex := False\<rparr>
        \<and> spec_refused lib (cdi s) (claim_UID claim) ds (ext w1) e1
        \<and> e = Errorf ''unable to create CDI spec file for claim'' e1
    | Abort a \<Rightarrow> False)"
proof -
  let ?w = "w\<lparr>mutex := True\<rparr>"
  have calm: "calm ?w" "\<not> in_the_way (claim_dirs s claim) ?w" "room_for_checkpoint s ?w" "stored s ?w = Some cs"
    using assms(1,7,8,9) by (simp_all add: calm_def in_the_way_def room_for_checkpoint_def tmp_free_def)
  obtain r w' where run: "prepare_body lib s claim ?w = (r, w')" by fastforce
  have "Prepare lib s claim w = (r, w'\<lparr>mutex := False\<rparr>)"
    using run assms(2) by (simp add: Prepare_def locked_run)
  with prepare_body_calm [OF calm(1) assms(3-6) calm(2-4) assms(10) run] show ?thesis
    by (auto split: outcome.splits)
qed

theorem prepare_succeeds_witness:
  "\<exists>pds w'. Prepare sample_libraries sample_state sample_claim sample_world = (Ok pds, w')
    \<and> image_mset DeviceName (mset pds) = {#''network-0'', ''network-1''#}"
proof -
  obtain r w' where run: "Prepare sample_libraries sample_state sample_claim sample_world = (r, w')" by fastforce
  from prepare_succeeds [OF sample_world_simps(1) _ sample_state_ok sample_claim_ok sample_state_simps(3)
      sample_preparable sample_clear sample_room sample_stored sample_claim_simps(3), of sample_libraries]
  show ?thesis
    unfolding run by (auto simp: sample_spec_accepted sample_own_results reported_def split: outcome.splits)
qed

text \<open>
  C30: A claim without an allocation that is not in the store is not refused with an error: the
  guard of \<open>computeDeviceConfig\<close> comes after a loop over the nil allocation, and the goroutine
  panics.
\<close>

theorem prepare_unallocated_panics:
  assumes "calm w" "\<not> mutex w" "state_ok s" "stored s w = Some cs" "claim_UID claim \<notin> UID ` set cs"
    and "Allocation claim = None"
  shows "fst (Prepare lib s claim w) = Abort NilDeref"
proof -
  let ?w = "w\<lparr>mutex := True\<rparr>"
  have "calm ?w" "elems (checkpointPath s) \<noteq> []" "stored_claims (checkpointDecoder s) (checkpointPath s) ?w = Some cs"
    using assms(1,3,4) by (simp_all add: calm_def state_ok_def checkpoint_path_def stored_def)
  from readCheckpoint_calm [OF this] obtain c where
    read: "readCheckpoint (checkpointPath s) (checkpointDecoder s) ?w = (Ok c, tick ?w)" and "PreparedClaims c = cs" by blast
  then have "restoreClaimFromCheckpoint lib s c claim = ok []"
    using assms(5) by (simp add: restoreClaimFromCheckpoint_def listed_iff)
  with read assms(2,6) show ?thesis
    by (simp add: Prepare_def locked_run prepare_body_eq prepare_anew_def prepareDevices_def effect_simps)
qed

theorem prepare_unallocated_panics_witness:
  "fst (Prepare sample_libraries sample_state (sample_claim\<lparr>Allocation := None\<rparr>) sample_world) = Abort NilDeref"
  by (rule prepare_unallocated_panics [OF _ _ sample_state_ok sample_stored]) simp_all

end
