(* ===== verification/Unprepare_Claims.thy ===== *)
theory Unprepare_Claims
  imports Prepare_Claims
begin

text \<open>
  The correctness of \<open>Unprepare\<close>: what it does to the store, the specs and the files in every
  run, that it removes the claim's directories when nothing disturbs it, that it undoes
  \<open>Prepare\<close>, and where it falls short: a checkpoint that cannot be read once, and directories
  that two claims share.
\<close>

section \<open>The run of Unprepare\<close>

lemma Unprepare_body:
  assumes "\<not> mutex w" "Unprepare lib s uid w = (r, w')"
  obtains w1 where "unprepare_body lib s uid (w\<lparr>mutex := True\<rparr>) = (r, w1)" "w' = w1\<lparr>mutex := False\<rparr>"
  using assms(2,1) unfolding Unprepare_def by (rule locked_result)

lemma Unprepare_store:
  assumes "state_ok s" "\<not> mutex w" "stored s w = Some cs" "list_all entry_ok cs" "Unprepare lib s uid w = (r, w')"
  obtains (unchanged) "stored s w' = Some cs" "r \<noteq> Ok ()" "\<not> mutex w'"
  | (removed) "stored s w' = Some (without uid cs)" "\<not> mutex w'"
      "\<forall>e. fst (readCheckpoint (checkpointPath s) (checkpointDecoder s) (w\<lparr>mutex := True\<rparr>)) \<noteq> Err e"
  | (emptied) e where "stored s w' = Some []" "r \<noteq> Ok ()" "\<not> mutex w'"
      "fst (readCheckpoint (checkpointPath s) (checkpointDecoder s) (w\<lparr>mutex := True\<rparr>)) = Err e"
proof -
  obtain wa where body: "unprepare_body lib s uid (w\<lparr>mutex := True\<rparr>) = (r, wa)" and w': "w' = wa\<lparr>mutex := False\<rparr>"
    using assms(2,5) by (rule Unprepare_body)
  have "list_all entry_ok cs'" if "stored s (w\<lparr>mutex := True\<rparr>) = Some cs'" for cs'
    using assms(3,4) that by simp
  from unprepare_body_store [OF assms(1) body this] show thesis
    using assms(3) w' unchanged removed emptied by auto
qed

lemma unprepare_body_Ok:
  assumes "unprepare_body lib s uid w = (Ok (), w')" "stored s w = Some cs"
  obtains c w1 w2 w3 where "readCheckpoint (checkpointPath s) (checkpointDecoder s) w = (Ok c, w1)"
    "PreparedClaims c = cs" "files w1 = files w" "ext w1 = ext w"
    "unprepareDevices uid (Some c) w1 = (Ok (), w2)"
    "DeleteClaimSpecFile lib (cdi s) uid w2 = (Ok (), w3)"
    "writeCheckpoint (checkpointPath s) (checkpointEncoder s) (removeClaimFromCheckpoint c uid) w3 = (Ok (), w')"
  using assms(1)
proof (cases rule: unprepare_body_cases)
  case (readable c w1)
  from readable(5) obtain w2 w3 where "unprepareDevices uid (Some c) w1 = (Ok (), w2)"
    "DeleteClaimSpecFile lib (cdi s) uid w2 = (Ok (), w3)"
    "writeCheckpoint (checkpointPath s) (checkpointEncoder s) (removeClaimFromCheckpoint c uid) w3 = (Ok (), w')"
    by (auto simp: unprepare_from_def elim!: call_OkE)
  with readable(1-4) assms(2) that show thesis by simp
qed (auto split: outcome.splits)

lemma keeps_ext_unprepareDevices: "steps_in keeps_ext (unprepareDevices uid checkpoint)"
  unfolding unprepareDevices_def deleteClaimDirectory_def Let_def
  by (auto intro!: kext.in_rules keeps_ext_os split: option.splits)

text \<open>The directories recorded for a claim.\<close>

definition recorded_dirs :: "PreparedClaim \<Rightarrow> path set" where
  "recorded_dirs c = (\<lambda>d. claim_dir (Name c) (recorded_request c d)) ` set (Devices c)"

definition below :: "path set \<Rightarrow> path \<Rightarrow> bool" where
  "below S p \<longleftrightarrow> (\<exists>d \<in> S. prefix d p)"

definition entry_of :: "UID \<Rightarrow> PreparedClaim list \<Rightarrow> PreparedClaim option" where
  "entry_of uid cs = find (\<lambda>c. UID c = uid) cs"

definition dirs_for :: "UID \<Rightarrow> PreparedClaim list \<Rightarrow> path set" where
  "dirs_for uid cs = (case entry_of uid cs of None \<Rightarrow> {} | Some c \<Rightarrow> recorded_dirs c)"

lemma entry_of_ok: "list_all entry_ok cs \<Longrightarrow> entry_of uid cs = Some c \<Longrightarrow> entry_ok c"
  by (auto simp: entry_of_def find_Some_iff list_all_iff)

lemma recorded_request_ok: "entry_ok c \<Longrightarrow> d \<in> set (Devices c) \<Longrightarrow> plain (Name c) \<and> request_ok (recorded_request c d)"
  by (auto simp: entry_ok_def recorded_request_def list_all_iff split: option.splits)

lemma unprepareDevices_eq:
  "unprepareDevices uid (Some c) =
    (case entry_of uid (PreparedClaims c) of
       None \<Rightarrow> ok ()
     | Some p \<Rightarrow> for_each (\<lambda>d. on_err (deleteClaimDirectory (Name p) (recorded_request p d)) (\<lambda>_. ok ())) (Devices p))"
  unfolding unprepareDevices_def entry_of_def Let_def by simp

lemma touches_unprepare_dirs:
  assumes "list_all entry_ok (PreparedClaims c)"
  shows "steps_in (touches (below (dirs_for uid (PreparedClaims c)))) (unprepareDevices uid (Some c) :: ('x, unit) io)"
proof (cases "entry_of uid (PreparedClaims c)")
  case None
  then show ?thesis by (simp add: unprepareDevices_eq touch.in_ok)
next
  case (Some p)
  have "steps_in (touches (below (recorded_dirs p))) (deleteClaimDirectory (Name p) (recorded_request p d) :: ('x, unit) io)"
    if "d \<in> set (Devices p)" for d
  proof -
    have "plain (Name p)" "request_ok (recorded_request p d)"
      using recorded_request_ok [OF entry_of_ok [OF assms Some] that] by auto
    then show ?thesis
      by (rule steps_touches_mono [OF touches_deleteClaimDirectory])
        (use that in \<open>auto simp: below_def recorded_dirs_def\<close>)
  qed
  with Some show ?thesis
    by (auto simp: unprepareDevices_eq dirs_for_def intro!: touch.in_rules)
qed

section \<open>In a calm world\<close>

lemma deletions_calm:
  assumes "calm w" "plain n" "\<And>d. d \<in> set ds \<Longrightarrow> request_ok (f d)"
  shows "\<exists>w'. for_each (\<lambda>d. on_err (deleteClaimDirectory n (f d)) (\<lambda>_. ok ())) ds w = (Ok (), w') \<and> calm w'
    \<and> env w' = env w \<and> (\<forall>q. fmlookup (files w') q
      = (if below ((\<lambda>d. claim_dir n (f d)) ` set ds) q then None else fmlookup (files w) q))"
  using assms(1,3)
proof (induction ds arbitrary: w)
  case Nil
  then show ?case by (simp add: below_def)
next
  case (Cons d ds)
  let ?w = "set_files (fmfilter (\<lambda>q. \<not> prefix (claim_dir n (f d)) q) (files w)) (tick w)"
  have step: "deleteClaimDirectory n (f d) w = (Ok (), ?w)"
    using Cons.prems assms(2) by (simp add: deleteClaimDirectory_def Let_def elems_claim_dir os_RemoveAll_calm)
  have "calm ?w" using Cons.prems(1) by simp
  from Cons.IH [OF this] Cons.prems(2) obtain w' where
    "for_each (\<lambda>d. on_err (deleteClaimDirectory n (f d)) (\<lambda>_. ok ())) ds ?w = (Ok (), w')" "calm w'" "env w' = env ?w"
    "\<forall>q. fmlookup (files w') q = (if below ((\<lambda>d. claim_dir n (f d)) ` set ds) q then None else fmlookup (files ?w) q)"
    by auto
  moreover have "on_err (deleteClaimDirectory n (f d)) (\<lambda>_. ok ()) w = (Ok (), ?w)"
    using step by (simp add: on_err_run)
  ultimately show ?case
    by (intro exI [of _ w']) (auto simp: call_Ok below_def)
qed

lemma unprepareDevices_calm:
  assumes "calm w" "list_all entry_ok (PreparedClaims c)"
  shows "\<exists>w'. unprepareDevices uid (Some c) w = (Ok (), w') \<and> calm w'
    \<and> (\<forall>q. fmlookup (files w') q = (if below (dirs_for uid (PreparedClaims c)) q then None else fmlookup (files w) q))"
proof (cases "entry_of uid (PreparedClaims c)")
  case None
  with assms(1) show ?thesis
    by (simp add: unprepareDevices_eq dirs_for_def below_def)
next
  case (Some p)
  have "entry_ok p"
    using assms(2) Some by (rule entry_of_ok)
  then have n: "plain (Name p)" and f: "\<And>d. d \<in> set (Devices p) \<Longrightarrow> request_ok (recorded_request p d)"
    using recorded_request_ok by (auto simp: entry_ok_def)
  show ?thesis
    using deletions_calm [where ds = "Devices p" and f = "recorded_request p", OF assms(1) n f] Some
    by (auto simp: unprepareDevices_eq dirs_for_def recorded_dirs_def)
qed

definition cdi_removes :: "('x, 'o) libraries \<Rightarrow> bool" where
  "cdi_removes lib \<longleftrightarrow> (\<forall>c n x. fst (cdi_RemoveSpec lib c n x) = None)"

lemma below_dirs_in_base: "below (dirs_for uid cs) p \<Longrightarrow> in_base p"
  by (auto simp: below_def dirs_for_def recorded_dirs_def intro: claim_dir_in_base split: option.splits)

lemma unprepare_body_calm:
  assumes "calm w" "state_ok s" "cdi_removes lib" "room_for_checkpoint s w"
    and "stored s w = Some cs" "list_all entry_ok cs"
  shows "\<exists>w'. unprepare_body lib s uid w = (Ok (), w') \<and> stored s w' = Some (without uid cs)
    \<and> calm w' \<and> room_for_checkpoint s w'
    \<and> (\<forall>q. \<not> store_path (checkpointPath s) q \<longrightarrow>
        fmlookup (files w') q = (if below (dirs_for uid cs) q then None else fmlookup (files w) q))"
proof -
  have ne: "elems (checkpointPath s) \<noteq> []"
    using assms(2) by (simp add: state_ok_def checkpoint_path_def)
  obtain c where read: "readCheckpoint (checkpointPath s) (checkpointDecoder s) w = (Ok c, tick w)"
    and c: "PreparedClaims c = cs"
    using readCheckpoint_calm [OF assms(1) ne assms(5) [unfolded stored_def]] by blast
  have ok: "list_all entry_ok (PreparedClaims c)"
    using assms(6) c by simp
  obtain w2 where del: "unprepareDevices uid (Some c) (tick w) = (Ok (), w2)" and c2: "calm w2"
    and f2: "\<forall>q. fmlookup (files w2) q = (if below (dirs_for uid cs) q then None else fmlookup (files w) q)"
    using unprepareDevices_calm [OF _ ok, of "tick w" uid] assms(1) c by auto
  have t2: "touches in_base (tick w) w2"
    by (rule steps_inD [OF touches_unprepareDevices del]) (use ok in auto)
  have "fst (DeleteClaimSpecFile lib (cdi s) uid w2) = Ok ()"
    using assms(3) c2 by (simp add: DeleteClaimSpecFile_def Let_def extern_err_calm cdi_removes_def)
  then obtain w3 where sp: "DeleteClaimSpecFile lib (cdi s) uid w2 = (Ok (), w3)"
    by (metis prod.collapse)
  have t3: "touches in_base w2 w3" and f3: "files w3 = files w2"
    using steps_inD [OF touches_CDI(2) sp] by (auto intro: touches_nothing)
  have "touches in_base w (tick w)"
    by (simp add: touches_def)
  from room_kept [OF assms(2) assms(4) this] have "room_for_checkpoint s (tick w)" .
  from room_kept [OF assms(2) room_kept [OF assms(2) this t2] t3] have room3: "room_for_checkpoint s w3" .
  have st3: "stored s w3 = Some cs"
  proof -
    have "stored s w2 = stored s (tick w)"
      by (rule stored_others [OF assms(2) touches_unprepareDevices del]) (use ok in auto)
    then show ?thesis
      using assms(5) f3 by (simp add: stored_def stored_claims_def)
  qed
  have c3: "calm w3"
    by (rule touches_calm [OF t3 c2])
  obtain w4 where wr: "writeCheckpoint (checkpointPath s) (checkpointEncoder s) (removeClaimFromCheckpoint c uid) w3 = (Ok (), w4)"
    using save_calm [OF c3 assms(2) room3] st3 by blast
  have "stored s w4 = Some (without uid cs)"
    using file_store.save_Ok [OF state_ok_usable [OF assms(2)] wr] c
    by (simp add: stored_def removeClaimFromCheckpoint_def without_def)
  moreover have t4: "touches (store_path (checkpointPath s)) w3 w4"
    using assms(2) by (intro steps_inD [OF touches_writeCheckpoint wr]) (simp add: state_ok_def)
  then have "fmlookup (files w4) q = fmlookup (files w2) q" if "\<not> store_path (checkpointPath s) q" for q
    using that f3 by (simp add: touches_lookup)
  moreover have "unprepare_body lib s uid w = (Ok (), w4)"
    using read del sp wr by (simp add: unprepare_body_eq unprepare_from_def effect_simps)
  ultimately show ?thesis
    using f2 touches_calm [OF t4 c3] room_saved [OF assms(2) room3 wr] by auto
qed

lemma Unprepare_calm:
  assumes "calm w" "\<not> mutex w" "state_ok s" "cdi_removes lib" "room_for_checkpoint s w"
    and "stored s w = Some cs" "list_all entry_ok cs"
  obtains w' where "Unprepare lib s uid w = (Ok (), w')" "calm w'" "\<not> mutex w'" "room_for_checkpoint s w'"
    "stored s w' = Some (without uid cs)"
    "\<And>q. \<not> store_path (checkpointPath s) q \<Longrightarrow>
      fmlookup (files w') q = (if below (dirs_for uid cs) q then None else fmlookup (files w) q)"
proof -
  let ?w = "w\<lparr>mutex := True\<rparr>"
  have "calm ?w" "room_for_checkpoint s ?w" "stored s ?w = Some cs"
    using assms(1,5,6) by (simp_all add: calm_def room_for_checkpoint_def tmp_free_def)
  from unprepare_body_calm [OF this(1) assms(3,4) this(2,3) assms(7), of uid] obtain w1 where
    "unprepare_body lib s uid ?w = (Ok (), w1)" "stored s w1 = Some (without uid cs)" "calm w1" "room_for_checkpoint s w1"
    "\<And>q. \<not> store_path (checkpointPath s) q \<Longrightarrow>
      fmlookup (files w1) q = (if below (dirs_for uid cs) q then None else fmlookup (files ?w) q)"
    by blast
  then show thesis
    using that [of "w1\<lparr>mutex := False\<rparr>"] assms(2)
    by (simp add: Unprepare_def locked_run calm_def room_for_checkpoint_def tmp_free_def)
qed

text \<open>The directories recorded for a claim are not the store's.\<close>

lemma below_dirs_apart: "state_ok s \<Longrightarrow> below (dirs_for uid cs) p \<Longrightarrow> \<not> store_path (checkpointPath s) p"
  by (metis below_dirs_in_base store_path_apart state_ok_def)

lemma dirs_for_without: "dirs_for uid (without uid cs) = {}"
proof -
  have "entry_of uid (without uid cs) = None"
    by (simp add: entry_of_def without_def find_None_iff)
  then show ?thesis by (simp add: dirs_for_def)
qed

section \<open>A node with prepared claims\<close>

definition world_storing :: "PreparedClaim list \<Rightarrow> sample_ext world" where
  "world_storing cs = set_files (fmupd (elems sample_path)
    (File root_attrs (projr (sample_encoder (new_Checkpoint\<lparr>PreparedClaims := cs\<rparr>)))) (files sample_world)) sample_world"

lemma world_storing_simps [simp]:
  "calm (world_storing cs)" "mutex (world_storing cs) = False" "ext (world_storing cs) = empty_ext"
  "env (world_storing cs) = env sample_world" "ticks (world_storing cs) = ticks sample_world"
  by (simp_all add: world_storing_def)

lemma stored_world_storing: "files w = files (world_storing cs) \<Longrightarrow> stored sample_state w = Some cs"
proof -
  assume f: "files w = files (world_storing cs)"
  obtain t where t: "sample_encoder (new_Checkpoint\<lparr>PreparedClaims := cs\<rparr>) = Inr t"
    "sample_decoder t new_Checkpoint = Inr (new_Checkpoint\<lparr>PreparedClaims := cs\<rparr>)"
    using sample_faithful by (auto simp: faithful_def dest: spec [of _ "new_Checkpoint\<lparr>PreparedClaims := cs\<rparr>"])
  with f show ?thesis
    by (simp add: stored_def stored_claims_def world_storing_def)
qed

lemma room_world_storing:
  assumes "files w = files (world_storing cs)"
  shows "room_for_checkpoint sample_state w"
proof -
  have "prefix ''tmp-checkpoint-'' (''tmp-checkpoint-'' @ Itoa n)" for n
    by simp
  moreover have "\<not> prefix ''tmp-checkpoint-'' (last (elems sample_path))"
    using sample_checkpoint_path by (simp add: checkpoint_path_def)
  ultimately have "butlast (elems sample_path) @ [''tmp-checkpoint-'' @ Itoa n] \<noteq> elems sample_path" for n
    by (metis last_snoc)
  then have "elems sample_path \<noteq> butlast (elems sample_path) @ [''tmp-checkpoint-'' @ Itoa n]" for n
    by metis
  moreover have "butlast (elems sample_path) \<noteq> elems sample_path"
    by (simp add: elems_sample_path)
  ultimately show ?thesis
    using assms by (simp add: room_for_checkpoint_def tmp_free_def is_dir_iff world_storing_def sample_world_files)
qed

definition sample_entry :: "string \<Rightarrow> PreparedClaim" where
  "sample_entry uid = \<lparr>UID = uid, Name = ''claim'', Devices = [''network-0''],
    DeviceRequests = fmap_of_list [(''network-0'', ''red'')]\<rparr>"

lemma sample_entries_ok: "list_all entry_ok [sample_entry ''123'', sample_entry ''456'']"
  by (simp add: entry_ok_def sample_entry_def plain_def uid_ok_def request_ok_def)

lemma sample_cdi_removes: "cdi_removes sample_libraries"
  by (simp add: cdi_removes_def sample_libraries_def)

section \<open>Properties\<close>

text \<open>
  C3: In every run of \<open>Unprepare\<close> the store afterwards is the old one, the old one without the
  claim, or, only when the checkpoint could not be read, empty; a return without error means that
  the claim is out of the store and the others are as they were; the mutex is free again.
\<close>

theorem unprepare_store_atomic:
  assumes "state_ok s" "\<not> mutex w" "stored s w = Some cs" "list_all entry_ok cs"
    and "Unprepare lib s uid w = (r, w')"
  shows "(stored s w' = Some cs \<or> stored s w' = Some (filter (\<lambda>c. UID c \<noteq> uid) cs)
      \<or> stored s w' = Some [] \<and> r \<noteq> Ok ()
        \<and> (\<exists>e. fst (readCheckpoint (checkpointPath s) (checkpointDecoder s) (w\<lparr>mutex := True\<rparr>)) = Err e))
    \<and> (case r of Ok u \<Rightarrow> stored s w' = Some (filter (\<lambda>c. UID c \<noteq> uid) cs) | _ \<Rightarrow> True)
    \<and> \<not> mutex w'"
  using assms
  by (cases rule: Unprepare_store) (auto simp: without_def split: outcome.splits)

theorem unprepare_store_atomic_witness:
  "case Unprepare sample_libraries sample_state ''123'' sample_world of (r, w') \<Rightarrow> stored sample_state w' = Some []"
  using unprepare_store_atomic [OF sample_state_ok _ sample_stored _ prod.collapse [symmetric],
      of sample_libraries "''123''"]
  by (auto simp: case_prod_beta)

text \<open>What the part after the reading of the checkpoint can touch, and what it does to the specs.\<close>

lemma unprepare_tail_confined:
  fixes lib s uid specs
  defines "P \<equiv> \<lambda>cs p. store_path (checkpointPath s) p \<or> below (dirs_for uid cs) p"
    and "spec \<equiv> \<lambda>w. claim_spec_of lib specs (cdi s) (ext w)"
  assumes "state_ok s" "list_all entry_ok (PreparedClaims c)" "cdi_laws lib specs" "uid_ok uid"
    and "call (unprepare_from lib s uid c) (\<lambda>_. call (wrap (Errorf ''unable to sync to checkpoint'')
        (writeCheckpoint (checkpointPath s) (checkpointEncoder s) (removeClaimFromCheckpoint c uid))) (\<lambda>_. ok ())) w = (r, w')"
  shows "touches (P (PreparedClaims c)) w w' \<and> (uid_ok v \<and> v \<noteq> uid \<longrightarrow> spec w' v = spec w v)
    \<and> (case r of Ok u \<Rightarrow> spec w' uid = None | _ \<Rightarrow> True)"
proof -
  let ?P = "P (PreparedClaims c)"
  obtain r2 w2 where del: "unprepareDevices uid (Some c) w = (r2, w2)" by fastforce
  have "steps_in (touches ?P) (unprepareDevices uid (Some c))"
    using assms(4) unfolding P_def by (intro steps_touches_mono [OF touches_unprepare_dirs]) auto
  then have t2: "touches ?P w w2" and x2: "ext w2 = ext w"
    using del steps_inD [OF keeps_ext_unprepareDevices del] by (auto simp: keeps_ext_def dest: steps_inD)
  obtain r3 w3 where sp: "DeleteClaimSpecFile lib (cdi s) uid w2 = (r3, w3)" by fastforce
  have t3: "touches ?P w w3"
    by (rule touch.step_trans [OF t2 steps_inD [OF touches_CDI(2) sp]])
  obtain r4 w4 where wr: "writeCheckpoint (checkpointPath s) (checkpointEncoder s) (removeClaimFromCheckpoint c uid) w3 = (r4, w4)"
    by fastforce
  have "steps_in (touches ?P) (writeCheckpoint (checkpointPath s) (checkpointEncoder s) (removeClaimFromCheckpoint c uid))"
    using assms(3) unfolding P_def by (intro steps_touches_mono [OF touches_writeCheckpoint]) (auto simp: state_ok_def)
  then have t4: "touches ?P w w4" and x4: "ext w4 = ext w3"
    using t3 wr steps_inD [OF keeps_ext_writeCheckpoint wr]
    by (auto simp: keeps_ext_def intro: touch.step_trans dest: steps_inD)
  have s3: "uid_ok v \<and> v \<noteq> uid \<longrightarrow> spec w3 v = spec w v"
    using cdi_specs.delete_other [OF assms(5,6) _ _ sp] x2 by (auto simp: spec_def)
  have gone: "r3 = Ok () \<Longrightarrow> spec w3 uid = None"
    using cdi_specs.delete_spec [OF assms(5)] sp by (auto simp: spec_def)
  have "w' = w2 \<and> r \<noteq> Ok () \<or> w' = w3 \<and> r \<noteq> Ok () \<or> w' = w4 \<and> (r = Ok () \<longrightarrow> r3 = Ok ())"
    using assms(7) del sp wr by (cases r2; cases r3; cases r4) (auto simp: unprepare_from_def effect_simps)
  then show ?thesis
    using t2 t3 t4 x2 x4 s3 gone by (auto simp: spec_def split: outcome.splits)
qed

text \<open>
  C12: In every run of \<open>Unprepare\<close>, nothing changes on disk but the checkpoint with its temporary
  files and what is below the directories recorded for the claim; and the CDI specs of all other
  claims stay. If it returns without error, the claim's spec is gone.
\<close>

theorem unprepare_confined:
  assumes "state_ok s" "\<not> mutex w" "stored s w = Some cs" "list_all entry_ok cs"
    and "cdi_laws lib specs" "uid_ok uid" "Unprepare lib s uid w = (r, w')"
  shows "(\<not> store_path (checkpointPath s) p \<and> \<not> below (dirs_for uid cs) p
        \<longrightarrow> fmlookup (files w') p = fmlookup (files w) p)
    \<and> (uid_ok v \<and> v \<noteq> uid \<longrightarrow> claim_spec_of lib specs (cdi s) (ext w') v = claim_spec_of lib specs (cdi s) (ext w) v)
    \<and> (case r of Ok u \<Rightarrow> claim_spec_of lib specs (cdi s) (ext w') uid = None | _ \<Rightarrow> True)"
proof -
  let ?w = "w\<lparr>mutex := True\<rparr>"
  let ?P = "\<lambda>p. store_path (checkpointPath s) p \<or> below (dirs_for uid cs) p"
  obtain wa where body: "unprepare_body lib s uid ?w = (r, wa)" and w': "w' = wa\<lparr>mutex := False\<rparr>"
    using assms(2,7) by (rule Unprepare_body)
  have kept: "fmlookup (files w') p = fmlookup (files w1) p" if "touches ?P w1 wa" "\<not> ?P p" for p w1
    using touches_lookup [OF that(1)] that(2) w' by simp
  show ?thesis
    using body
  proof (cases rule: unprepare_body_cases)
    case (ended a)
    with w' show ?thesis by simp
  next
    case (unreadable e w1 r1)
    have "steps_in (touches ?P) (writeCheckpoint (checkpointPath s) (checkpointEncoder s) new_Checkpoint)"
      using assms(1) by (intro steps_touches_mono [OF touches_writeCheckpoint]) (auto simp: state_ok_def)
    then have "touches ?P w1 wa" "ext wa = ext w1"
      using steps_inD unreadable(4) steps_inD [OF keeps_ext_writeCheckpoint unreadable(4)] by (auto simp: keeps_ext_def)
    with kept unreadable(2,3,5) w' show ?thesis
      by (auto split: outcome.splits)
  next
    case (readable c w1)
    have c: "PreparedClaims c = cs"
      using readable(2) assms(3) by simp
    from unprepare_tail_confined [OF assms(1) _ assms(5,6) readable(5), of v] assms(4) kept [of w1] readable(3,4) w'
    show ?thesis
      unfolding c by (auto split: outcome.splits)
  qed
qed

text \<open>
  C16: When nothing disturbs it and the CDI cache removes specs, \<open>Unprepare\<close> returns without
  error; the claim is out of the store, and of the files outside the store exactly what is below the
  directories recorded for the claim is gone. The kubelet may ask again: the second call succeeds,
  too, and leaves the claims and every such file as they are.
\<close>

theorem unprepare_succeeds:
  assumes "calm w" "\<not> mutex w" "state_ok s" "cdi_removes lib" "room_for_checkpoint s w"
    and "stored s w = Some cs" "list_all entry_ok cs"
  shows "case Unprepare lib s uid w of (r, w') \<Rightarrow> r = Ok ()
    \<and> stored s w' = Some (filter (\<lambda>c. UID c \<noteq> uid) cs)
    \<and> (store_path (checkpointPath s) p \<or>
        fmlookup (files w') p = (if below (dirs_for uid cs) p then None else fmlookup (files w) p))
    \<and> (case Unprepare lib s uid w' of (r2, w2) \<Rightarrow> r2 = Ok () \<and> stored s w2 = stored s w'
        \<and> (store_path (checkpointPath s) p \<or> fmlookup (files w2) p = fmlookup (files w') p))"
proof -
  obtain w1 where one: "Unprepare lib s uid w = (Ok (), w1)" "stored s w1 = Some (without uid cs)"
    "\<And>q. \<not> store_path (checkpointPath s) q \<Longrightarrow>
      fmlookup (files w1) q = (if below (dirs_for uid cs) q then None else fmlookup (files w) q)"
    and w1: "calm w1" "\<not> mutex w1" "room_for_checkpoint s w1"
    using Unprepare_calm [OF assms, of uid thesis] by blast
  have "list_all entry_ok (without uid cs)"
    using assms(7) by (auto simp: without_def list_all_iff)
  then obtain w2 where "Unprepare lib s uid w1 = (Ok (), w2)" "stored s w2 = Some (without uid (without uid cs))"
    "\<And>q. \<not> store_path (checkpointPath s) q \<Longrightarrow>
      fmlookup (files w2) q = (if below (dirs_for uid (without uid cs)) q then None else fmlookup (files w1) q)"
    using Unprepare_calm [OF w1(1,2) assms(3,4) w1(3) one(2), of uid thesis] by blast
  then have "stored s w2 = Some (without uid cs)" "Unprepare lib s uid w1 = (Ok (), w2)"
    "store_path (checkpointPath s) p \<or> fmlookup (files w2) p = fmlookup (files w1) p"
    unfolding dirs_for_without by (auto simp: below_def without_def)
  moreover have "store_path (checkpointPath s) p
      \<or> fmlookup (files w1) p = (if below (dirs_for uid cs) p then None else fmlookup (files w) p)"
    using one(3) by blast
  ultimately show ?thesis
    using one(1,2) by (simp add: without_def)
qed

theorem unprepare_succeeds_witness:
  "case Unprepare sample_libraries sample_state ''123''
      (world_storing [sample_entry ''123'', sample_entry ''456'']) of
    (r, w') \<Rightarrow> r = Ok () \<and> stored sample_state w' = Some [sample_entry ''456'']
      \<and> fmlookup (files w') (claim_dir ''claim'' ''red'') = None"
proof -
  let ?cs = "[sample_entry ''123'', sample_entry ''456'']"
  have "below (dirs_for ''123'' ?cs) (claim_dir ''claim'' ''red'')"
    by (simp add: below_def dirs_for_def entry_of_def sample_entry_def recorded_dirs_def recorded_request_def)
  moreover have "filter (\<lambda>c. UID c \<noteq> ''123'') ?cs = [sample_entry ''456'']"
    by (simp add: sample_entry_def)
  ultimately show ?thesis
    using unprepare_succeeds [OF world_storing_simps(1) _ sample_state_ok sample_cdi_removes
        room_world_storing [OF refl] stored_world_storing [OF refl] sample_entries_ok,
        of "''123''" "claim_dir ''claim'' ''red''"] below_dirs_apart [OF sample_state_ok]
    by (auto simp: case_prod_beta)
qed

theorem unprepare_confined_witness:
  "case Unprepare sample_libraries sample_state ''123'' (world_storing [sample_entry ''123'', sample_entry ''456'']) of
    (r, w') \<Rightarrow> fmlookup (files w') [''etc'', ''passwd''] = None"
proof -
  let ?cs = "[sample_entry ''123'', sample_entry ''456'']"
  have out: "\<not> store_path sample_path [''etc'', ''passwd'']" "\<not> below (dirs_for ''123'' ?cs) [''etc'', ''passwd'']"
    using below_dirs_in_base [of "''123''" ?cs "[''etc'', ''passwd'']"]
    by (auto simp: store_path_def elems_sample_path in_base_def base_path_def)
  have "uid_ok ''123''" "\<not> mutex (world_storing ?cs)"
    by (simp_all add: uid_ok_def)
  from unprepare_confined [OF sample_state_ok this(2) stored_world_storing [OF refl] sample_entries_ok
      sample_cdi_laws this(1) prod.collapse [symmetric], of "[''etc'', ''passwd'']"]
  have "fmlookup (files (snd (Unprepare sample_libraries sample_state ''123'' (world_storing ?cs)))) [''etc'', ''passwd'']
      = fmlookup (files (world_storing ?cs)) [''etc'', ''passwd'']"
    using out by simp
  then show ?thesis
    by (simp add: case_prod_beta world_storing_def sample_world_files elems_sample_path)
qed

text \<open>
  C13: A single failure to read the checkpoint during \<open>Unprepare\<close> empties the store: an empty
  checkpoint is written over the one that could not be read, the claims of all pods are lost from
  it, and the goroutine then panics on the nil pointer that the read left.
\<close>

theorem unprepare_read_failure_empties:
  assumes "state_ok s" "\<not> mutex w" "room_for_checkpoint s w" "stored s w = Some cs"
    and "fault_at (env w) (ticks w) = Some f" "f \<noteq> Kill" "\<forall>n. ticks w < n \<longrightarrow> fault_at (env w) n = None"
  shows "case Unprepare lib s uid w of (r, w') \<Rightarrow> r = Abort NilDeref \<and> stored s w' = Some []"
proof -
  let ?w = "w\<lparr>mutex := True\<rparr>"
  have "fault_errno f \<noteq> ENOENT"
    by (cases f) auto
  then have read: "readCheckpoint (checkpointPath s) (checkpointDecoder s) ?w
      = (Err (PathError ''open'' (checkpointPath s) (fault_errno f)), tick ?w)"
    using assms(5,6) by (simp add: readCheckpoint_def effect_simps os_ReadFile_def syscall_def ErrNotExist_def)
  have "calm (tick ?w)" "room_for_checkpoint s (tick ?w)" "stored s (tick ?w) \<noteq> None"
    using assms(3,4,7) by (simp_all add: calm_def room_for_checkpoint_def tmp_free_def stored_def stored_claims_def)
  from save_calm [OF this(1) assms(1) this(2,3), of new_Checkpoint] obtain w1 where
    wr: "writeCheckpoint (checkpointPath s) (checkpointEncoder s) new_Checkpoint (tick ?w) = (Ok (), w1)" by blast
  have "stored s w1 = Some []"
    using file_store.save_Ok [OF state_ok_usable [OF assms(1)] wr] by (simp add: stored_def new_Checkpoint_def)
  with read wr assms(2) show ?thesis
    by (simp add: Unprepare_def locked_run unprepare_body_eq effect_simps)
qed

theorem unprepare_read_failure_empties_witness:
  "case Unprepare sample_libraries sample_state ''123''
      ((world_storing [sample_entry ''123'', sample_entry ''456''])
        \<lparr>env := quiet_env\<lparr>fault_at := (\<lambda>n. if n = 0 then Some IoError else None)\<rparr>\<rparr>) of
    (r, w') \<Rightarrow> r = Abort NilDeref \<and> stored sample_state w' = Some []"
proof (rule unprepare_read_failure_empties [OF sample_state_ok, where f = IoError])
  let ?w = "(world_storing [sample_entry ''123'', sample_entry ''456''])
    \<lparr>env := quiet_env\<lparr>fault_at := (\<lambda>n. if n = 0 then Some IoError else None)\<rparr>\<rparr>"
  show "room_for_checkpoint sample_state ?w"
    by (rule room_world_storing) simp
  show "stored sample_state ?w = Some [sample_entry ''123'', sample_entry ''456'']"
    by (rule stored_world_storing) simp
qed (simp_all add: sample_world_def)

text \<open>After a preparation in a calm world the claim can be unprepared.\<close>

lemma prepare_body_then_calm:
  assumes "prepare_body lib s claim w = (Ok pds, w')" "calm w" "state_ok s" "claim_ok claim"
    and "room_for_checkpoint s w" "stored s w = Some cs" "claim_UID claim \<notin> UID ` set cs"
  shows "calm w'" "room_for_checkpoint s w'"
proof -
  from assms(1) obtain c w1 rs w2 where
    read: "readCheckpoint (checkpointPath s) (checkpointDecoder s) w = (Ok c, w1)" and
    res: "restoreClaimFromCheckpoint lib s c claim w1 = (Ok rs, w2)" and
    rest: "(if rs \<noteq> [] then ok (GetDevices rs) else call (prepare_anew lib s claim c)
        (\<lambda>devices. call (wrap (Errorf ''unable to sync to checkpoint'')
            (writeCheckpoint (checkpointPath s) (checkpointEncoder s) (addClaimToCheckpoint c claim)))
          (\<lambda>_. ok (GetDevices devices)))) w2 = (Ok pds, w')"
    unfolding prepare_body_eq by (auto elim!: call_OkE)
  have "\<not> list_ex (\<lambda>p. UID p = claim_UID claim) (PreparedClaims c)"
    using readCheckpoint_Ok [OF read] assms(6,7) by (simp add: stored_def listed_iff)
  then have "rs = []"
    using res by (simp add: restoreClaimFromCheckpoint_def)
  with rest obtain ds w3 where anew: "prepare_anew lib s claim c w2 = (Ok ds, w3)"
    and wr: "writeCheckpoint (checkpointPath s) (checkpointEncoder s) (addClaimToCheckpoint c claim) w3 = (Ok (), w')"
    by (auto elim!: call_OkE)
  have "touches in_base w w1" "touches in_base w1 w2" "touches in_base w2 w3"
    using steps_inD [OF touches_readCheckpoint read] steps_inD [OF touches_restoreClaimFromCheckpoint res]
      steps_inD [OF touches_prepare_anew [OF assms(4)] anew] by simp_all
  then have t: "touches in_base w w3"
    by (blast intro: touch.step_trans)
  have c3: "calm w3" and r3: "room_for_checkpoint s w3"
    using touches_calm [OF t assms(2)] room_kept [OF assms(3,5) t] by simp_all
  have t4: "touches (store_path (checkpointPath s)) w3 w'"
    using assms(3) by (intro steps_inD [OF touches_writeCheckpoint wr]) (simp add: state_ok_def)
  then show "calm w'"
    using c3 by (rule touches_calm)
  show "room_for_checkpoint s w'"
    by (rule room_saved [OF assms(3) r3 wr])
qed

lemma sample_round:
  "\<exists>pds w1 w2. Prepare sample_libraries sample_state sample_claim sample_world = (Ok pds, w1)
    \<and> Unprepare sample_libraries sample_state ''123'' w1 = (Ok (), w2)"
proof -
  let ?w = "sample_world\<lparr>mutex := True\<rparr>"
  from sample_prepare_body obtain ds wa where
    body: "prepare_body sample_libraries sample_state sample_claim ?w = (Ok ds, wa)"
    by (elim exE)
  have "calm ?w" "room_for_checkpoint sample_state ?w" "stored sample_state ?w = Some []" "claim_UID sample_claim \<notin> UID ` set []"
    using sample_world_simps(1) sample_room by (simp_all add: calm_def room_for_checkpoint_def tmp_free_def sample_stored)
  note after = prepare_body_then_calm [OF body this(1) sample_state_ok sample_claim_ok this(2-4)]
  obtain cs where st: "stored sample_state wa = Some cs" "list_all entry_ok cs"
    using prepare_body_store [OF sample_state_ok sample_claim_ok body] entry_ok_checkpoint_entry [OF sample_claim_ok]
    by (auto simp: sample_stored)
  have "calm (wa\<lparr>mutex := True\<rparr>)" "room_for_checkpoint sample_state (wa\<lparr>mutex := True\<rparr>)"
    "stored sample_state (wa\<lparr>mutex := True\<rparr>) = Some cs"
    using after st by (simp_all add: calm_def room_for_checkpoint_def tmp_free_def)
  from unprepare_body_calm [OF this(1) sample_state_ok sample_cdi_removes this(2,3) st(2), of "''123''"]
  obtain wb where "unprepare_body sample_libraries sample_state ''123'' (wa\<lparr>mutex := True\<rparr>) = (Ok (), wb)"
    by blast
  with body show ?thesis
    by (simp add: Prepare_def Unprepare_def locked_run)
qed

text \<open>
  C29: Two claims whose names have the same stable part share the directories of equal requests:
  unpreparing one removes the directory that the other, still in the store, is using. This
  happens to claims of one name in two namespaces.
\<close>

theorem unprepare_removes_shared_directory:
  assumes "calm w" "\<not> mutex w" "state_ok s" "cdi_removes lib" "room_for_checkpoint s w"
    and "stored s w = Some cs" "list_all entry_ok cs"
    and "entry_of uid cs = Some c" "c' \<in> set cs" "UID c' \<noteq> uid"
    and "extractStableClaimName (Name c') = extractStableClaimName (Name c)"
    and "d \<in> set (Devices c)" "recorded_request c' d' = recorded_request c d"
  shows "case Unprepare lib s uid w of (r, w') \<Rightarrow> r = Ok ()
    \<and> (\<exists>cs'. stored s w' = Some cs' \<and> c' \<in> set cs')
    \<and> fmlookup (files w') (claim_dir (Name c') (recorded_request c' d')) = None"
proof -
  let ?p = "claim_dir (Name c') (recorded_request c' d')"
  obtain w1 where run: "Unprepare lib s uid w = (Ok (), w1)" "stored s w1 = Some (without uid cs)" and
    f: "\<And>q. \<not> store_path (checkpointPath s) q \<Longrightarrow>
      fmlookup (files w1) q = (if below (dirs_for uid cs) q then None else fmlookup (files w) q)"
    using Unprepare_calm [OF assms(1-7), of uid thesis] by blast
  have "?p \<in> dirs_for uid cs"
    using assms(8,11-13) by (auto simp: dirs_for_def recorded_dirs_def claim_dir_def claim_root_def)
  then have "below (dirs_for uid cs) ?p"
    by (auto simp: below_def)
  with below_dirs_apart [OF assms(3) this] f have "fmlookup (files w1) ?p = None"
    by simp
  moreover have "c' \<in> set (without uid cs)"
    using assms(9,10) by (simp add: without_def)
  ultimately show ?thesis
    using run by simp
qed

theorem unprepare_removes_shared_directory_witness:
  "case Unprepare sample_libraries sample_state ''123''
      (world_storing [sample_entry ''123'', sample_entry ''456'']) of
    (r, w') \<Rightarrow> r = Ok () \<and> (\<exists>cs'. stored sample_state w' = Some cs' \<and> sample_entry ''456'' \<in> set cs')
      \<and> fmlookup (files w') (claim_dir (Name (sample_entry ''456'')) (recorded_request (sample_entry ''456'') ''network-0'')) = None"
  by (rule unprepare_removes_shared_directory [OF world_storing_simps(1) _ sample_state_ok sample_cdi_removes
      room_world_storing [OF refl] stored_world_storing [OF refl] sample_entries_ok,
      where c = "sample_entry ''123''" and d = "''network-0''"])
    (simp_all add: entry_of_def sample_entry_def recorded_request_def)

end
