(* ===== verification/Health.thy ===== *)
theory Health
  imports Plugin_Config Libraries
begin

text \<open>
  The healthcheck service (\<open>health.go\<close>): where it listens, which sockets it connects to, and
  what it answers. Sockets, the gRPC server and its clients are third-party code, the record
  \<open>services\<close>. Serving runs in its own goroutine, which theory \<open>Healthcheck_Serving\<close> models.
\<close>

section \<open>The third-party services of the plugin\<close>

record 'x services =
  net_Listen :: "string \<Rightarrow> 'x \<Rightarrow> go_error option \<times> 'x"
  grpc_NewClient :: "string \<Rightarrow> 'x \<Rightarrow> go_error option \<times> 'x"
  grpc_serve :: "'x \<Rightarrow> unit \<times> 'x"
  grpc_GracefulStop :: "'x \<Rightarrow> unit \<times> 'x"
  serve_goroutine_ends :: "'x \<Rightarrow> unit \<times> 'x"
  grpc_status_Error :: "string \<Rightarrow> string \<Rightarrow> go_error"
  registration_GetInfo :: "'x \<Rightarrow> go_error option \<times> 'x"
  dra_NodePrepareResources :: "'x \<Rightarrow> go_error option \<times> 'x"

section \<open>Addresses\<close>

text \<open>\<open>net.JoinHostPort("", port)\<close>: the empty host has no colon, so no brackets are put.\<close>

definition JoinHostPort :: "string \<Rightarrow> string \<Rightarrow> string" where
  "JoinHostPort host port =
    (if CHR '':'' \<in> set host then ''['' @ host @ '']:'' @ port else host @ '':'' @ port)"

definition format_int :: "int \<Rightarrow> string" where
  "format_int i = (if i < 0 then CHR ''-'' # Itoa (nat (- i)) else Itoa (nat i))"

text \<open>
  \<open>(&url.URL{Scheme: "unix", Path: p}).String()\<close>: the path is escaped as \<open>net/url\<close> does in
  a path, where the unreserved characters and those that delimit within a path stay.
\<close>

definition path_byte :: "char \<Rightarrow> bool" where
  "path_byte c \<longleftrightarrow> is_alnum c \<or> c \<in> set ''-_.~$&+,/:;=@''"

definition upper_hex :: "nat \<Rightarrow> char" where
  "upper_hex n = (if n < 10 then char_of (48 + n) else char_of (55 + n))"

definition escape_path :: "string \<Rightarrow> string" where
  "escape_path p = (if p = ''*'' then p else
    concat (map (\<lambda>c. if path_byte c then [c] else [CHR 0x25, upper_hex (byte c div 16), upper_hex (byte c mod 16)]) p))"

definition unix_url :: "string \<Rightarrow> string" where
  "unix_url p = ''unix:'' @ (if p \<noteq> [] then ''//'' else []) @ escape_path p"

definition registration_socket :: "('x, 'o) Config \<Rightarrow> string" where
  "registration_socket config =
    (if flag_podUID (flags config) \<noteq> []
     then filepath_Join [flag_kubeletRegistrarDirectoryPath (flags config),
       flag_driverName (flags config) @ ''-'' @ flag_podUID (flags config) @ ''-reg.sock'']
     else filepath_Join [flag_kubeletRegistrarDirectoryPath (flags config),
       flag_driverName (flags config) @ ''-reg.sock''])"

definition dra_socket :: "('x, 'o) Config \<Rightarrow> string" where
  "dra_socket config =
    (if flag_podUID (flags config) \<noteq> []
     then filepath_Join [DriverPluginPath config, ''dra-'' @ flag_podUID (flags config) @ ''.sock'']
     else filepath_Join [DriverPluginPath config, ''dra.sock''])"

section \<open>The service\<close>

text \<open>
  What the healthcheck holds: whether it has a server, and the two sockets its clients are
  connected to. Its wait group is for the goroutine that serves.
\<close>

record healthcheck =
  hc_server :: bool
  regClient :: string
  draClient :: string

definition startHealthcheck :: "'x services \<Rightarrow> ('x, 'o) Config \<Rightarrow> ('x, healthcheck option) io" where
  "startHealthcheck svc config =
    (let port = flag_healthcheckPort (flags config) in
     if port < 0 then ok None
     else (let addr = JoinHostPort [] (format_int port) in
       call (wrap (Wrapf (''failed to listen for healthcheck service at '' @ addr)) (extern_err (net_Listen svc addr)))
       (\<lambda>_. let regSockPath = unix_url (registration_socket config) in
       call (wrap (Wrapf ''connect to registration socket'') (extern_err (grpc_NewClient svc regSockPath)))
       (\<lambda>_. let draSockPath = unix_url (dra_socket config) in
       call (wrap (Wrapf ''connect to DRA socket'') (extern_err (grpc_NewClient svc draSockPath)))
       (\<lambda>_. call (extern (grpc_serve svc))
       (\<lambda>_. ok (Some \<lparr>hc_server = True, regClient = regSockPath, draClient = draSockPath\<rparr>)))))))"

definition healthcheck_Stop :: "'x services \<Rightarrow> healthcheck \<Rightarrow> ('x, unit) io" where
  "healthcheck_Stop svc h =
    call (if hc_server h then extern (grpc_GracefulStop svc) else ok ())
    (\<lambda>_. extern (serve_goroutine_ends svc))"

datatype ServingStatus = SERVING | NOT_SERVING

definition knownServices :: "string list" where
  "knownServices = ['''', ''liveness'']"

definition Check :: "'x services \<Rightarrow> string \<Rightarrow> ('x, ServingStatus) io" where
  "Check svc service =
    (if service \<notin> set knownServices then fail (grpc_status_Error svc ''NotFound'' ''unknown service'')
     else call (extern (registration_GetInfo svc))
       (\<lambda>err. if err \<noteq> None then ok NOT_SERVING
        else call (extern (dra_NodePrepareResources svc))
          (\<lambda>err. if err \<noteq> None then ok NOT_SERVING else ok SERVING)))"

section \<open>Properties\<close>

text \<open>
  C35: For a known service the check never returns an error: unless the process is killed in it,
  it answers SERVING exactly when the registration service and then the driver answered without
  an error, and the driver is asked only when the registration service did. Any other service
  gets an error, and nothing is called.
\<close>

theorem check_answers:
  "case Check svc service w of (r, w') \<Rightarrow>
    (if service = [] \<or> service = ''liveness''
     then (case registration_GetInfo svc (ext w) of (e1, x1) \<Rightarrow>
        case dra_NodePrepareResources svc x1 of (e2, x2) \<Rightarrow>
        r = Abort Killed
        \<or> (if e1 = None then ext w' = x2 \<and> (r = Ok SERVING \<and> e2 = None \<or> r = Ok NOT_SERVING \<and> e2 \<noteq> None)
           else ext w' = x1 \<and> r = Ok NOT_SERVING))
     else r = Err (grpc_status_Error svc ''NotFound'' ''unknown service'') \<and> w' = w)"
  by (auto simp: Check_def knownServices_def effect_simps extern_def split: prod.splits)

text \<open>
  The healthcheck does nothing on a negative port. Otherwise, when it starts, it has
  connected to the two sockets that the kubelet plugin library serves on, which carry the UID of
  the pod when there is one.
\<close>

lemma healthcheck_sockets:
  assumes "startHealthcheck svc config w = (Ok hc, w')"
  shows "if flag_healthcheckPort (flags config) < 0 then hc = None \<and> w' = w
    else hc = Some \<lparr>hc_server = True, regClient = unix_url (registration_socket config), draClient = unix_url (dra_socket config)\<rparr>"
  using assms by (auto simp: startHealthcheck_def Let_def elim!: call_OkE split: if_splits)

definition sample_services :: "'x services" where
  "sample_services = \<lparr>net_Listen = (\<lambda>_ x. (None, x)), grpc_NewClient = (\<lambda>_ x. (None, x)),
    grpc_serve = (\<lambda>x. ((), x)), grpc_GracefulStop = (\<lambda>x. ((), x)), serve_goroutine_ends = (\<lambda>x. ((), x)),
    grpc_status_Error = (\<lambda>c m. Ext m),
    registration_GetInfo = (\<lambda>x. (None, x)), dra_NodePrepareResources = (\<lambda>x. (None, x))\<rparr>"

end
