(* ===== verification/Driver.thy ===== *)
theory Driver
  imports Unprepare_Claims Health
begin

text \<open>
  The driver behind the kubelet plugin library (\<open>driver.go\<close>): it starts the parts, and
  answers the library's batches of claims one by one. The lemmas say that each claim of a batch
  gets an answer of its own and which errors are fatal.
\<close>

section \<open>The driver\<close>

record 'x kubeletplugin =
  kp_Start :: "(string \<times> string) list \<Rightarrow> 'x \<Rightarrow> go_error option \<times> 'x"
  kp_PublishResources :: "DriverResources \<Rightarrow> 'x \<Rightarrow> go_error option \<times> 'x"
  kp_Stop :: "'x \<Rightarrow> unit \<times> 'x"

text \<open>\<open>ErrRecoverable\<close> of the kubelet plugin library.\<close>

definition ErrRecoverable :: go_error where
  "ErrRecoverable = Sentinel ''ErrRecoverable''"

record 'o driver =
  state :: "'o DeviceState"
  driver_healthcheck :: "healthcheck option"

record kp_Device =
  kp_Requests :: "string list"
  kp_PoolName :: string
  kp_DeviceName :: string
  kp_CDIDeviceIDs :: "string list"

record PrepareResult =
  result_Devices :: "kp_Device list"
  result_Err :: "go_error option"

record NamespacedObject =
  obj_UID :: UID
  obj_Namespace :: string
  obj_Name :: string

definition NewDriver :: "('x, 'o) libraries \<Rightarrow> 'x services \<Rightarrow> 'x kubeletplugin \<Rightarrow> ('x, 'o) Config \<Rightarrow> ('x, 'o driver) io" where
  "NewDriver lib svc kp config =
    call (NewDeviceState lib config)
    (\<lambda>s. call (extern_err (kp_Start kp
        [(''NodeName'', flag_nodeName (flags config)), (''DriverName'', flag_driverName (flags config)),
         (''RegistrarDirectoryPath'', flag_kubeletRegistrarDirectoryPath (flags config)),
         (''PluginDataDirectoryPath'', DriverPluginPath config), (''RollingUpdate'', flag_podUID (flags config))]))
    (\<lambda>_. call (wrap (Wrapf ''start healthcheck'') (startHealthcheck svc config))
    (\<lambda>hc. call (extern_err (kp_PublishResources kp (driverResources s)))
    (\<lambda>_. ok \<lparr>state = s, driver_healthcheck = hc\<rparr>))))"

definition Shutdown :: "'x services \<Rightarrow> 'x kubeletplugin \<Rightarrow> 'o driver \<Rightarrow> ('x, unit) io" where
  "Shutdown svc kp d =
    call (case driver_healthcheck d of Some h \<Rightarrow> healthcheck_Stop svc h | None \<Rightarrow> ok ())
    (\<lambda>_. extern (kp_Stop kp))"

definition kp_device :: "pb_Device \<Rightarrow> kp_Device" where
  "kp_device d = \<lparr>kp_Requests = RequestNames d, kp_PoolName = PoolName d, kp_DeviceName = DeviceName d,
    kp_CDIDeviceIDs = CdiDeviceIds d\<rparr>"

definition prepareResourceClaim :: "('x, 'o) libraries \<Rightarrow> 'o driver \<Rightarrow> ResourceClaim \<Rightarrow> ('x, PrepareResult) io" where
  "prepareResourceClaim lib d claim =
    on_err (call (Prepare lib (state d) claim)
        (\<lambda>preparedPBs. ok \<lparr>result_Devices = map kp_device preparedPBs, result_Err = None\<rparr>))
      (\<lambda>err. ok \<lparr>result_Devices = [],
        result_Err = Some (Wrapf (''error preparing devices for claim '' @ claim_UID claim) err)\<rparr>)"

fun prepare_each :: "('x, 'o) libraries \<Rightarrow> 'o driver \<Rightarrow> ResourceClaim list \<Rightarrow> (UID, PrepareResult) fmap
    \<Rightarrow> ('x, (UID, PrepareResult) fmap) io" where
  "prepare_each lib d [] result = ok result"
| "prepare_each lib d (claim # claims) result =
    call (prepareResourceClaim lib d claim) (\<lambda>r. prepare_each lib d claims (fmupd (claim_UID claim) r result))"

definition PrepareResourceClaims :: "('x, 'o) libraries \<Rightarrow> 'o driver \<Rightarrow> ResourceClaim list
    \<Rightarrow> ('x, (UID, PrepareResult) fmap) io" where
  "PrepareResourceClaims lib d claims = prepare_each lib d claims fmempty"

definition unprepareResourceClaim :: "('x, 'o) libraries \<Rightarrow> 'o driver \<Rightarrow> NamespacedObject \<Rightarrow> ('x, go_error option) io" where
  "unprepareResourceClaim lib d claim =
    on_err (call (Unprepare lib (state d) (obj_UID claim)) (\<lambda>_. ok None))
      (\<lambda>err. ok (Some (Wrapf (''error unpreparing devices for claim '' @ obj_UID claim) err)))"

fun unprepare_each :: "('x, 'o) libraries \<Rightarrow> 'o driver \<Rightarrow> NamespacedObject list \<Rightarrow> (UID, go_error option) fmap
    \<Rightarrow> ('x, (UID, go_error option) fmap) io" where
  "unprepare_each lib d [] result = ok result"
| "unprepare_each lib d (claim # claims) result =
    call (unprepareResourceClaim lib d claim) (\<lambda>r. unprepare_each lib d claims (fmupd (obj_UID claim) r result))"

definition UnprepareResourceClaims :: "('x, 'o) libraries \<Rightarrow> 'o driver \<Rightarrow> NamespacedObject list
    \<Rightarrow> ('x, (UID, go_error option) fmap) io" where
  "UnprepareResourceClaims lib d claims = unprepare_each lib d claims fmempty"

text \<open>
  \<open>HandleError\<close> logs, and cancels the main context unless the error is recoverable. The result
  is the cause it cancels with, if it does; \<open>can_cancel\<close> says that there is a cancel function.
\<close>

definition HandleError :: "bool \<Rightarrow> go_error \<Rightarrow> go_error option" where
  "HandleError can_cancel err =
    (if \<not> errors_Is err ErrRecoverable \<and> can_cancel then Some (Wrapf ''fatal background error'' err) else None)"

section \<open>Batches\<close>

lemma prepareResourceClaim_no_Err: "fst (prepareResourceClaim lib d claim w) \<noteq> Err e"
  by (auto simp: prepareResourceClaim_def effect_simps split: prod.splits outcome.splits)

lemma prepare_each_no_Err: "fst (prepare_each lib d claims m w) \<noteq> Err e"
proof (induction claims arbitrary: m w)
  case (Cons c cs)
  obtain r w1 where "prepareResourceClaim lib d c w = (r, w1)" by fastforce
  with prepareResourceClaim_no_Err [of lib d c w] Cons.IH show ?case
    by (cases r) (auto simp: effect_simps)
qed (simp add: ok_def)

lemma prepare_each_dom:
  "prepare_each lib d claims m w = (Ok m', w') \<Longrightarrow> fmdom' m' = claim_UID ` set claims \<union> fmdom' m"
  by (induction claims arbitrary: m w) (auto elim!: call_OkE)

lemma prepare_each_appendE:
  assumes "prepare_each lib d (cs @ cs') m w = (Ok m', w')"
  obtains m1 w1 where "prepare_each lib d cs m w = (Ok m1, w1)" "prepare_each lib d cs' m1 w1 = (Ok m', w')"
  using assms
proof (induction cs arbitrary: m w thesis)
  case (Cons c cs)
  from Cons.prems(2) obtain r w2 where one: "prepareResourceClaim lib d c w = (Ok r, w2)"
    and "prepare_each lib d (cs @ cs') (fmupd (claim_UID c) r m) w2 = (Ok m', w')"
    by (auto elim!: call_OkE)
  from Cons.IH [OF _ this(2)] obtain m1 w1 where "prepare_each lib d cs (fmupd (claim_UID c) r m) w2 = (Ok m1, w1)"
    "prepare_each lib d cs' m1 w1 = (Ok m', w')"
    by blast
  with one show ?case
    by (intro Cons.prems(1)) (simp_all add: effect_simps)
qed (simp add: ok_def)

lemma prepare_each_keeps:
  "prepare_each lib d cs m w = (Ok m', w') \<Longrightarrow> u \<notin> claim_UID ` set cs \<Longrightarrow> fmlookup m' u = fmlookup m u"
  by (induction cs arbitrary: m w) (auto simp: ok_def elim!: call_OkE)

lemma unprepareResourceClaim_no_Err: "fst (unprepareResourceClaim lib d claim w) \<noteq> Err e"
  by (auto simp: unprepareResourceClaim_def effect_simps split: prod.splits outcome.splits)

lemma unprepare_each_no_Err: "fst (unprepare_each lib d claims m w) \<noteq> Err e"
proof (induction claims arbitrary: m w)
  case (Cons c cs)
  obtain r w1 where "unprepareResourceClaim lib d c w = (r, w1)" by fastforce
  with unprepareResourceClaim_no_Err [of lib d c w] Cons.IH show ?case
    by (cases r) (auto simp: effect_simps)
qed (simp add: ok_def)

lemma unprepare_each_dom:
  "unprepare_each lib d claims m w = (Ok m', w') \<Longrightarrow> fmdom' m' = obj_UID ` set claims \<union> fmdom' m"
  by (induction claims arbitrary: m w) (auto elim!: call_OkE)

section \<open>Properties\<close>

text \<open>
  A batch never fails as a whole: unless the goroutine does not return, a batch of claims to
  prepare or to unprepare is answered without an error, with an answer for exactly the UIDs of
  the batch.
\<close>

lemma batches_answered:
  "(case fst (PrepareResourceClaims lib d claims w) of
      Ok m \<Rightarrow> fmdom' m = claim_UID ` set claims | Err e \<Rightarrow> False | Abort a \<Rightarrow> True)
   \<and> (case fst (UnprepareResourceClaims lib d objs w) of
      Ok m \<Rightarrow> fmdom' m = obj_UID ` set objs | Err e \<Rightarrow> False | Abort a \<Rightarrow> True)"
proof -
  have "case fst (prepare_each lib d claims fmempty w) of
      Ok m \<Rightarrow> fmdom' m = claim_UID ` set claims | Err e \<Rightarrow> False | Abort a \<Rightarrow> True"
    using prepare_each_no_Err [of lib d claims fmempty w] prepare_each_dom [of lib d claims fmempty w]
    by (cases "prepare_each lib d claims fmempty w") (auto split: outcome.splits)
  moreover have "case fst (unprepare_each lib d objs fmempty w) of
      Ok m \<Rightarrow> fmdom' m = obj_UID ` set objs | Err e \<Rightarrow> False | Abort a \<Rightarrow> True"
    using unprepare_each_no_Err [of lib d objs fmempty w] unprepare_each_dom [of lib d objs fmempty w]
    by (cases "unprepare_each lib d objs fmempty w") (auto split: outcome.splits)
  ultimately show ?thesis
    by (simp add: PrepareResourceClaims_def UnprepareResourceClaims_def)
qed

text \<open>
  C34: Each claim of a batch gets the answer of its own Prepare, run in the state that the claims
  before it left, whether or not those failed: its devices with nothing lost and no error, or no
  device and an error that shows every cause of Prepare's.
\<close>

theorem claim_answer:
  assumes "PrepareResourceClaims lib d (before @ claim # after) w = (Ok m, w')"
    and "claim_UID claim \<notin> claim_UID ` set after"
  shows "\<exists>m1 w1 w2. PrepareResourceClaims lib d before w = (Ok m1, w1)
    \<and> (case Prepare lib (state d) claim w1 of
        (Ok pds, w2) \<Rightarrow> fmlookup m (claim_UID claim)
          = Some \<lparr>result_Devices = map (\<lambda>p. \<lparr>kp_Requests = RequestNames p, kp_PoolName = PoolName p,
              kp_DeviceName = DeviceName p, kp_CDIDeviceIDs = CdiDeviceIds p\<rparr>) pds, result_Err = None\<rparr>
      | (Err e, w2) \<Rightarrow> \<exists>e'. fmlookup m (claim_UID claim) = Some \<lparr>result_Devices = [], result_Err = Some e'\<rparr>
          \<and> {t. errors_Is e t} \<subseteq> {t. errors_Is e' t}
      | (Abort a, w2) \<Rightarrow> False)"
proof -
  from assms(1) obtain m1 w1 where before: "prepare_each lib d before fmempty w = (Ok m1, w1)"
    and rest: "prepare_each lib d (claim # after) m1 w1 = (Ok m, w')"
    unfolding PrepareResourceClaims_def by (rule prepare_each_appendE)
  from rest obtain r w2 where one: "prepareResourceClaim lib d claim w1 = (Ok r, w2)"
    and "prepare_each lib d after (fmupd (claim_UID claim) r m1) w2 = (Ok m, w')"
    by (auto elim!: call_OkE)
  with assms(2) have "fmlookup m (claim_UID claim) = Some r"
    by (simp add: prepare_each_keeps)
  with before one show ?thesis
    by (auto simp: PrepareResourceClaims_def prepareResourceClaim_def effect_simps kp_device_def
        split: prod.splits outcome.splits)
qed

definition sample_driver :: "string driver" where
  "sample_driver = \<lparr>state = sample_state, driver_healthcheck = None\<rparr>"

definition failing_world :: "sample_ext world" where
  "failing_world = (fresh_world empty_ext)\<lparr>env := quiet_env\<lparr>fault_at := \<lambda>_. Some IoError\<rparr>\<rparr>"

lemma prepare_unreadable:
  "\<exists>e w'. Prepare sample_libraries (state sample_driver) sample_claim failing_world = (Err e, w')"
  by (simp add: Prepare_def locked_def prepare_body_def readCheckpoint_def os_ReadFile_def syscall_def
      effect_simps failing_world_def sample_driver_def ErrNotExist_def)

theorem claim_answer_witness:
  "\<exists>m w' e. PrepareResourceClaims sample_libraries sample_driver ([] @ sample_claim # []) failing_world = (Ok m, w')
    \<and> fmlookup m (claim_UID sample_claim) = Some \<lparr>result_Devices = [], result_Err = Some e\<rparr>"
proof -
  obtain e w1 where prep: "Prepare sample_libraries (state sample_driver) sample_claim failing_world = (Err e, w1)"
    using prepare_unreadable by (elim exE)
  then have "\<exists>m w'. PrepareResourceClaims sample_libraries sample_driver ([] @ sample_claim # []) failing_world = (Ok m, w')"
    by (simp add: PrepareResourceClaims_def prepareResourceClaim_def effect_simps)
  then obtain m w' where run: "PrepareResourceClaims sample_libraries sample_driver ([] @ sample_claim # []) failing_world = (Ok m, w')"
    by (elim exE)
  from claim_answer [OF run] prep show ?thesis
    unfolding run by (auto simp: PrepareResourceClaims_def effect_simps)
qed

end
