(* ===== verification/Driver_Start.thy ===== *)
theory Driver_Start
  imports Unprepare_Claims
begin

text \<open>
  The start of the driver with the network profile (\<open>NewDeviceState\<close> of \<open>state.go\<close>): the state
  it creates depends on the configuration only, it satisfies what \<open>Prepare\<close> and \<open>Unprepare\<close> rely
  on, and the claims on disk and the specs of the claims stay as they were.
\<close>

section \<open>Configurations\<close>

definition network_config :: "('x, 'o) Config \<Rightarrow> bool" where
  "network_config config \<longleftrightarrow> profile config
    = network_Profile (NewProfile (flag_nodeName (flags config)) (flag_numDevices (flags config)))"

text \<open>
  The plugin's own directory: below the absolute directory of the plugins, named by the driver's
  name, apart from the directories of the claims.
\<close>

definition plugin_dir :: "('x, 'o) Config \<Rightarrow> path" where
  "plugin_dir config = elems (flag_kubeletPluginsDirectoryPath (flags config)) @ [flag_driverName (flags config)]"

definition plugin_dir_ok :: "('x, 'o) Config \<Rightarrow> bool" where
  "plugin_dir_ok config \<longleftrightarrow> is_abs (flag_kubeletPluginsDirectoryPath (flags config))
    \<and> plain (flag_driverName (flags config))
    \<and> \<not> prefix (plugin_dir config) base_path \<and> \<not> prefix base_path (plugin_dir config)"

text \<open>The state that a start with this configuration creates.\<close>

definition new_resources :: "('x, 'o) Config \<Rightarrow> DriverResources" where
  "new_resources config = \<lparr>Pools = fmap_of_list [(flag_nodeName (flags config),
    \<lparr>Slices = [\<lparr>slice_Devices = enumerate_from 0 (nat (flag_numDevices (flags config))) []\<rparr>]\<rparr>)]\<rparr>"

definition new_cdi :: "('x, 'o) Config \<Rightarrow> CDIHandler" where
  "new_cdi config = \<lparr>cache = flag_cdiRoot (flags config), cdi_driverName = flag_driverName (flags config),
    cdi_class = flag_profile (flags config)\<rparr>"

definition new_state :: "('x, 'o) libraries \<Rightarrow> ('x, 'o) Config \<Rightarrow> 'o DeviceState" where
  "new_state lib config =
    \<lparr>driverName = flag_driverName (flags config), cdi = new_cdi config, driverResources = new_resources config,
     allocatable = allocatable_of (new_resources config) (flag_nodeName (flags config)),
     configDecoder = config_Decode lib network_SchemeBuilder, configHandler = network_handler,
     checkpointPath = filepath_Join [DriverPluginPath config, DriverPluginCheckpointFile],
     checkpointDecoder = fst (checkpointSerializer (checkpoint_codec lib)),
     checkpointEncoder = snd (checkpointSerializer (checkpoint_codec lib))\<rparr>"

section \<open>The state that is created\<close>

lemma network_Profile_simps [simp]:
  "ConfigHandler.truncate (network_Profile p) = network_handler"
  "EnumerateDevices (network_Profile p) = network_EnumerateDevices p"
  "SchemeBuilder network_handler = network_SchemeBuilder"
  by (simp_all add: network_Profile_def network_handler_def ConfigHandler.defs)

lemma DriverResources_eqI: "Pools r = Pools (r' :: DriverResources) \<Longrightarrow> r = r'"
  by simp

lemma NewDeviceState_run:
  assumes "network_config config" "NewDeviceState lib config w = (Ok s, w')"
  obtains res w1 w2 where
    "network_EnumerateDevices (NewProfile (flag_nodeName (flags config)) (flag_numDevices (flags config))) w = (Ok res, w1)"
    "NewCDIHandler lib (flag_cdiRoot (flags config)) (flag_driverName (flags config)) (flag_profile (flags config)) w1
      = (Ok (new_cdi config), w2)"
    "CreateCommonSpecFile lib (new_cdi config) w2 = (Ok (), w')"
    "s = new_state lib config" "res = new_resources config"
proof -
  from assms obtain res w1 h w2 where
    en: "network_EnumerateDevices (NewProfile (flag_nodeName (flags config)) (flag_numDevices (flags config))) w = (Ok res, w1)" and
    nh: "NewCDIHandler lib (flag_cdiRoot (flags config)) (flag_driverName (flags config)) (flag_profile (flags config)) w1 = (Ok h, w2)" and
    cs: "CreateCommonSpecFile lib h w2 = (Ok (), w')" and
    s: "s = \<lparr>driverName = flag_driverName (flags config), cdi = h, driverResources = res,
           allocatable = allocatable_of res (flag_nodeName (flags config)),
           configDecoder = config_Decode lib network_SchemeBuilder, configHandler = network_handler,
           checkpointPath = filepath_Join [DriverPluginPath config, DriverPluginCheckpointFile],
           checkpointDecoder = fst (checkpointSerializer (checkpoint_codec lib)),
           checkpointEncoder = snd (checkpointSerializer (checkpoint_codec lib))\<rparr>"
    unfolding NewDeviceState_def network_config_def
    by (auto simp: Let_def elim!: call_OkE split: option.splits prod.splits)
  have "res = new_resources config"
    using network_EnumerateDevices_Ok(1) [OF en]
    by (intro DriverResources_eqI) (simp add: new_resources_def NewProfile_def)
  moreover have "h = new_cdi config"
    using nh by (auto simp: NewCDIHandler_def new_cdi_def elim!: call_OkE)
  ultimately show thesis
    using that en nh cs s by (simp add: new_state_def)
qed

lemma state_ok_new:
  assumes "plugin_dir_ok config" "codec_ok (checkpoint_codec lib)"
  shows "state_ok (new_state lib config)"
    and "elems (checkpointPath (new_state lib config)) = plugin_dir config @ [''checkpoint.json'']"
proof -
  let ?dir = "DriverPluginPath config" and ?p = "checkpointPath (new_state lib config)"
  have abs: "is_abs ?dir" and dir: "elems ?dir = plugin_dir config"
    using assms(1) by (simp_all add: plugin_dir_ok_def DriverPluginPath_def plugin_dir_def elems_filepath_Join_plain)
  have p: "?p = filepath_Join [?dir, ''checkpoint.json'']"
    by (simp add: new_state_def DriverPluginCheckpointFile_def)
  have name: "plain ''checkpoint.json''"
    by (simp add: plain_def)
  show e: "elems ?p = plugin_dir config @ [''checkpoint.json'']"
    using abs dir name unfolding p by (simp add: elems_filepath_Join_plain)
  have "checkpoint_path ?p"
    using e elems_Dir_Join [OF abs name] dir unfolding checkpoint_path_def p by simp
  moreover have "base_path \<noteq> plugin_dir config @ [''checkpoint.json'']"
    using assms(1) by (metis plugin_dir_ok_def prefixI)
  then have "apart_from_claims ?p"
    using assms(1) unfolding apart_from_claims_def e plugin_dir_ok_def by (auto simp: prefix_snoc)
  ultimately show "state_ok (new_state lib config)"
    using checkpointSerializer_faithful [OF assms(2)] unfolding state_ok_def by (simp add: new_state_def)
qed

lemma allocatable_new_state:
  assumes "network_EnumerateDevices (NewProfile (flag_nodeName (flags config)) (flag_numDevices (flags config))) w
    = (Ok (new_resources config), w')"
  shows "fmlookup (allocatable (new_state lib config)) name = Some d
    \<longleftrightarrow> (\<exists>i. int i < flag_numDevices (flags config) \<and> d = network_device i \<and> name = network_device_name i)"
proof -
  have "set (advertised (new_resources config) (flag_nodeName (flags config)))
      = network_device ` {0..<nat (flag_numDevices (flags config))}"
    by (simp add: advertised_def new_resources_def enumerate_from_eq)
  moreover have "device_Name (network_device i) = network_device_name i" for i
    by (simp add: network_device_def)
  ultimately show ?thesis
    using network_devices.allocatable_iff [OF assms, of name d] by (auto simp: new_state_def)
qed

lemma touches_NewDeviceState:
  assumes "network_config config"
  shows "steps_in (touches in_base) (NewDeviceState lib config)"
proof -
  have "steps_in (touches in_base) (network_EnumerateDevices p :: ('a, DriverResources) io)" for p
    by (rule touches_network_EnumerateDevices) (auto simp: in_base_def elems_HostBaseDir base_path_def)
  with assms show ?thesis
    unfolding NewDeviceState_def network_config_def
    by (auto intro!: touch.in_rules touches_CDI simp: Let_def split: option.splits prod.splits)
qed

lemma NewDeviceState_Ok:
  assumes "network_config config" "NewDeviceState lib config w = (Ok s, w')"
  shows "s = new_state lib config" "is_dir (files w') base_path"
    and "fmlookup (allocatable s) name = Some d
      \<longleftrightarrow> (\<exists>i. int i < flag_numDevices (flags config) \<and> d = network_device i \<and> name = ''network-'' @ Itoa i)"
proof -
  obtain res w1 w2 where
    en: "network_EnumerateDevices (NewProfile (flag_nodeName (flags config)) (flag_numDevices (flags config))) w = (Ok res, w1)"
    and nh: "NewCDIHandler lib (flag_cdiRoot (flags config)) (flag_driverName (flags config)) (flag_profile (flags config)) w1
      = (Ok (new_cdi config), w2)"
    and cs: "CreateCommonSpecFile lib (new_cdi config) w2 = (Ok (), w')" and s: "s = new_state lib config"
    and res: "res = new_resources config"
    using assms by (rule NewDeviceState_run)
  show "s = new_state lib config" by (rule s)
  have "is_dir (files w1) base_path"
    using network_EnumerateDevices_Ok(2) [OF en] by (simp add: elems_HostBaseDir base_path_def)
  then show "is_dir (files w') base_path"
    using touches_nothing [OF steps_inD [OF touches_CDI(4) nh]] touches_nothing [OF steps_inD [OF touches_CDI(3) cs]] by simp
  show "fmlookup (allocatable s) name = Some d
      \<longleftrightarrow> (\<exists>i. int i < flag_numDevices (flags config) \<and> d = network_device i \<and> name = ''network-'' @ Itoa i)"
    using s allocatable_new_state [OF en [unfolded res], of lib] by (simp add: network_device_name_def)
qed

text \<open>
  Undisturbed, and with no file in the way of the base directory, a start fails only with an error
  of the CDI package or of the config scheme.
\<close>

lemma CreateCommonSpecFile_calm:
  assumes "calm w"
  shows "CreateCommonSpecFile lib h w \<noteq> (Abort a, w')"
proof -
  have "wrap f (lift_result x) w = (case x of Inl e \<Rightarrow> (Err (f e), w) | Inr y \<Rightarrow> (Ok y, w))" for f and x :: "go_error + string"
    by (cases x) (simp_all add: effect_simps)
  then show ?thesis
    using assms by (auto simp: CreateCommonSpecFile_def os_Getenv_def Let_def call_run extern_err_calm split: sum.splits option.splits)
qed

lemma NewDeviceState_calm:
  assumes "network_config config" "calm w" "\<And>q. prefix q base_path \<Longrightarrow> \<not> is_file (files w) q"
    and "NewDeviceState lib config w = (r, w')"
  shows "case r of
      Ok s \<Rightarrow> True
    | Err e \<Rightarrow> \<exists>e1. fst (cdi_NewCache lib (flag_cdiRoot (flags config)) (ext w)) = Some e1
          \<and> e = Errorf ''unable to create CDI handler'' (Wrapf ''unable to create a new CDI cache'' e1)
        \<or> (\<exists>w1. calm w1 \<and> ext w1 = snd (cdi_NewCache lib (flag_cdiRoot (flags config)) (ext w))
          \<and> CreateCommonSpecFile lib (new_cdi config) w1 = (Err e1, w')
          \<and> e = Errorf ''unable to create CDI spec file for common edits'' e1)
        \<or> scheme_AddToScheme lib network_SchemeBuilder = Some e1 \<and> e = Wrapf ''create config scheme'' e1
    | Abort a \<Rightarrow> False"
proof -
  let ?nc = "cdi_NewCache lib (flag_cdiRoot (flags config))"
  obtain w1 where mk: "os_MkdirAll HostBaseDir 493 w = (Ok (), w1)" and c1: "calm w1"
    using os_MkdirAll_calm [OF assms(2), of HostBaseDir 493] assms(3) by (auto simp: elems_HostBaseDir base_path_def)
  have x1: "ext w1 = ext w"
    using steps_inD [OF keeps_ext_os(3) mk] by (simp add: keeps_ext_def)
  have en: "\<exists>res. EnumerateDevices (profile config) w = (Ok res, w1)"
    using assms(1) mk by (simp add: network_config_def network_EnumerateDevices_def effect_simps Let_def)
  then obtain res where en: "EnumerateDevices (profile config) w = (Ok res, w1)" by blast
  define w2 where "w2 = tick (w1\<lparr>ext := snd (?nc (ext w))\<rparr>)"
  have c2: "calm w2" "ext w2 = snd (?nc (ext w))"
    using c1 by (simp_all add: w2_def calm_def)
  show ?thesis
  proof (cases "fst (?nc (ext w))")
    case (Some e1)
    then have "NewDeviceState lib config w = (Err (Errorf ''unable to create CDI handler'' (Wrapf ''unable to create a new CDI cache'' e1)), w2)"
      using en x1 c1 by (simp add: w2_def NewDeviceState_def NewCDIHandler_def effect_simps extern_err_calm)
    with Some assms(4) show ?thesis by auto
  next
    case None
    obtain r3 w3 where cs: "CreateCommonSpecFile lib (new_cdi config) w2 = (r3, w3)" by fastforce
    have nh: "NewCDIHandler lib (flag_cdiRoot (flags config)) (flag_driverName (flags config)) (flag_profile (flags config)) w1
        = (Ok (new_cdi config), w2)"
      using c1 x1 None by (simp add: w2_def NewCDIHandler_def new_cdi_def effect_simps extern_err_calm)
    have "r3 \<noteq> Abort a" for a
      using CreateCommonSpecFile_calm [OF c2(1)] cs by blast
    then show ?thesis
      using assms(1,4) en nh cs c2
      by (cases r3; cases "scheme_AddToScheme lib network_SchemeBuilder")
        (auto simp: NewDeviceState_def network_config_def effect_simps Let_def split: prod.splits)
  qed
qed
section \<open>The start of the example\<close>

lemma sample_config_simps [simp]:
  "flags sample_config = sample_flags"
  "profile (sample_config :: ('x, string) Config) = network_Profile (NewProfile ''node-a'' 3)"
  by (simp_all add: sample_config_def)

lemma sample_config_ok: "network_config sample_config" "plugin_dir_ok sample_config"
  by (simp_all add: network_config_def sample_flags_def plugin_dir_ok_def plugin_dir_def is_abs_def plain_def
      elems_def base_path_def)

lemma new_state_sample: "new_state sample_libraries sample_config = sample_state"
proof -
  have "filepath_Join [DriverPluginPath (sample_config :: (sample_ext, string) Config), DriverPluginCheckpointFile] = sample_path"
    by (simp add: DriverPluginPath_def DriverPluginCheckpointFile_def sample_flags_def sample_path_def
        filepath_Join_def Clean_def is_abs_def)
  moreover have "enumerate_from 0 (nat 3) [] = map network_device [0, 1, 2]"
    by (simp add: enumerate_from_eq eval_nat_numeral)
  then have "allocatable_of (new_resources (sample_config :: (sample_ext, string) Config)) ''node-a''
      = fmap_of_list (map (\<lambda>d. (device_Name d, d)) (map network_device [0, 1, 2]))"
    by (intro fmap_ext) (auto simp: allocatable_of_def new_resources_def sample_flags_def network_device_def)
  moreover have "new_resources (sample_config :: (sample_ext, string) Config)
      = \<lparr>Pools = fmap_of_list [(''node-a'', \<lparr>Slices = [\<lparr>slice_Devices = enumerate_from 0 3 []\<rparr>]\<rparr>)]\<rparr>"
    by (simp add: new_resources_def sample_flags_def)
  ultimately show ?thesis
    by (simp add: new_state_def sample_state_def new_cdi_def sample_cdi_def sample_decoder_def sample_encoder_def
       sample_libraries_def network_SchemeBuilder_def sample_flags_def)
qed

lemma sample_start:
  "\<exists>w'. NewDeviceState sample_libraries sample_config (fresh_world empty_ext) = (Ok sample_state, w')"
proof -
  obtain r w' where run: "NewDeviceState sample_libraries sample_config (fresh_world empty_ext) = (r, w')" by fastforce
  have "CreateCommonSpecFile sample_libraries h w1 \<noteq> (Err e, w2)" if "calm w1" for h e w1 w2
    using that by (auto simp: CreateCommonSpecFile_def os_Getenv_def Let_def effect_simps extern_err_calm sample_libraries_def)
  with NewDeviceState_calm [OF sample_config_ok(1) _ _ run] obtain s where "r = Ok s"
    by (cases r) (auto simp: is_file_iff sample_libraries_def)
  with run NewDeviceState_Ok(1) [OF sample_config_ok(1), of sample_libraries "fresh_world empty_ext"] show ?thesis
    by (auto simp: new_state_sample)
qed

section \<open>Properties\<close>

text \<open>
  C33: The state that a start with the network profile creates is a function of the configuration:
  nothing the driver knows survives a restart but in the files. It satisfies what the device state
  relies on, has exactly the devices \<open>network-0\<close> to \<open>network-(n-1)\<close> to allocate, each under its own
  name, and the base directory of the claims exists. Every start, also one that fails, keeps the
  claims that are stored. A start that no call disturbs, with no file in the way of the base
  directory, fails only with the error that, in this very run, the CDI cache or the common spec or
  the config scheme gave.
\<close>

theorem new_state_of_config:
  assumes "network_config config" "plugin_dir_ok config" "codec_ok (checkpoint_codec lib)"
    and "NewDeviceState lib config w = (r, w')"
  shows "stored (new_state lib config) w' = stored (new_state lib config) w
    \<and> (case r of
        Ok s \<Rightarrow> s = new_state lib config \<and> state_ok s
          \<and> (\<forall>name d. fmlookup (allocatable s) name = Some d
              \<longleftrightarrow> (\<exists>i. int i < flag_numDevices (flags config) \<and> d = network_device i \<and> name = ''network-'' @ Itoa i))
          \<and> is_dir (files w') base_path
      | Err e \<Rightarrow> \<not> calm w \<or> (\<exists>q. prefix q base_path \<and> is_file (files w) q)
          \<or> (\<exists>e1. fst (cdi_NewCache lib (flag_cdiRoot (flags config)) (ext w)) = Some e1
              \<and> e = Errorf ''unable to create CDI handler'' (Wrapf ''unable to create a new CDI cache'' e1)
            \<or> (\<exists>w1. calm w1 \<and> ext w1 = snd (cdi_NewCache lib (flag_cdiRoot (flags config)) (ext w))
              \<and> CreateCommonSpecFile lib (new_cdi config) w1 = (Err e1, w')
              \<and> e = Errorf ''unable to create CDI spec file for common edits'' e1)
            \<or> scheme_AddToScheme lib network_SchemeBuilder = Some e1 \<and> e = Wrapf ''create config scheme'' e1)
      | Abort a \<Rightarrow> \<not> calm w \<or> (\<exists>q. prefix q base_path \<and> is_file (files w) q))"
proof -
  have ok: "state_ok (new_state lib config)"
    by (rule state_ok_new(1) [OF assms(2,3)])
  have "stored (new_state lib config) w' = stored (new_state lib config) w"
    by (rule stored_others [OF ok touches_NewDeviceState [OF assms(1)] assms(4)])
  moreover have "s = new_state lib config \<and> is_dir (files w') base_path
    \<and> (fmlookup (allocatable s) name = Some d
      \<longleftrightarrow> (\<exists>i. int i < flag_numDevices (flags config) \<and> d = network_device i \<and> name = ''network-'' @ Itoa i))"
    if "r = Ok s" for s name d
    using NewDeviceState_Ok [OF assms(1) assms(4) [unfolded that]] by blast
  moreover note NewDeviceState_calm [OF assms(1) _ _ assms(4)]
  ultimately show ?thesis
    using ok by (cases r) auto
qed

theorem new_state_of_config_witness:
  "case NewDeviceState sample_libraries sample_config (fresh_world empty_ext) of (r, w') \<Rightarrow>
    r = Ok sample_state \<and> state_ok sample_state
    \<and> fmlookup (allocatable sample_state) ''network-2'' = Some (network_device 2)"
proof -
  obtain w' where run: "NewDeviceState sample_libraries sample_config (fresh_world empty_ext) = (Ok sample_state, w')"
    using sample_start by (elim exE)
  have "codec_ok (checkpoint_codec sample_libraries)"
    by (simp add: sample_libraries_def sample_codec_ok)
  note start = new_state_of_config [OF sample_config_ok this run, unfolded outcome.case]
  have "Itoa 2 = ''2''"
    by code_simp
  then have "fmlookup (allocatable sample_state) ''network-2'' = Some (network_device 2)"
    using start by (auto simp: sample_flags_def intro!: exI [of _ 2])
  with start show ?thesis
    unfolding run by simp
qed

end
