(* ===== verification/Claim_Frames.thy ===== *)
theory Claim_Frames
  imports Driver_Start
begin

text \<open>
  The claims that a kubelet has prepared on a node, and what the operations on one claim, and a
  start of the driver, keep of every other claim: its directories and its CDI spec.
\<close>

section \<open>The claims of the kubelet\<close>

definition results_of :: "'o DeviceState \<Rightarrow> ResourceClaim \<Rightarrow> DeviceRequestAllocationResult list" where
  "results_of s claim = (case Allocation claim of None \<Rightarrow> [] | Some alloc \<Rightarrow> own_results s (Results alloc))"

text \<open>
  The claims that the kubelet has prepared on the node: admitted by the API server, one for each
  UID, allocated with a result of this driver. No UID is the name of the common CDI device.
\<close>

definition workload :: "'o DeviceState \<Rightarrow> ResourceClaim set \<Rightarrow> bool" where
  "workload s K \<longleftrightarrow> inj_on claim_UID K
    \<and> (\<forall>c \<in> K. claim_ok c \<and> results_of s c \<noteq> [] \<and> claim_UID c \<noteq> cdiCommonDeviceName)"

lemma workload_claim:
  assumes "workload s K" "c \<in> K"
  shows "claim_ok c" "uid_ok (claim_UID c)" "plain (claim_Name c)" "entry_ok (checkpoint_entry c)"
    "claim_UID c \<noteq> cdiCommonDeviceName"
  using assms entry_ok_checkpoint_entry by (auto simp: workload_def claim_ok_def)

lemma workload_results:
  assumes "workload s K" "c \<in> K"
  obtains alloc where "Allocation c = Some alloc" "own_results s (Results alloc) \<noteq> []"
    "results_of s c = own_results s (Results alloc)"
  using assms by (auto simp: workload_def results_of_def split: option.splits)

lemma workload_inj:
  assumes "workload s K" "c \<in> K" "c' \<in> K"
  shows "claim_UID c = claim_UID c' \<longleftrightarrow> c = c'"
  using assms by (auto simp: workload_def inj_on_def)

section \<open>What the operations on other claims keep\<close>

lemma wrap_call_ok: "wrap f (call m (\<lambda>x. ok (g x))) = call (wrap f m) (\<lambda>x. ok (g x))"
  by (simp add: fun_eq_iff effect_simps split: prod.splits outcome.splits)

lemma wrap_ok: "wrap f (ok x) = ok x"
  by (simp add: fun_eq_iff effect_simps)

lemma wrap_fail: "call (wrap f (fail e)) k = fail (f e)"
  by (simp add: fun_eq_iff effect_simps)

text \<open>
  A relation that the parts of an operation are in, the operation is in; for each part only the
  calls that the operation makes count.
\<close>

context step_relation
begin

lemma in_prepare_body:
  assumes "\<And>d. steps_in R (readCheckpoint (checkpointPath s) d)"
    and "\<And>r d. r \<in> Request ` set (results_of s claim) \<Longrightarrow> steps_in R (createClaimDirectory lib (claim_Name claim) r d)"
    and "steps_in R (computeDeviceConfig lib s claim)" "\<And>rs. steps_in R (publish_status lib s claim rs)"
    and "\<And>ds. steps_in R (CreateClaimSpecFile lib (cdi s) (claim_UID claim) ds)"
    and "\<And>e c. steps_in R (writeCheckpoint (checkpointPath s) e c)"
  shows "steps_in R (prepare_body lib s claim)"
proof -
  have res: "steps_in R (restoreClaimFromCheckpoint lib s c claim)" for c
    unfolding restoreClaimFromCheckpoint_def by (auto intro: assms(3) in_ok)
  have "steps_in R (prepareDevices lib s claim)"
  proof (cases "Allocation claim")
    case None
    then show ?thesis by (simp add: prepareDevices_def in_abort)
  next
    case (Some alloc)
    have "steps_in R (createClaimDirectory lib (claim_Name claim) (Request r) d)"
      if "r \<in> set (own_results s (Results alloc))" for r d
      using that Some by (intro assms(2)) (simp add: results_of_def)
    then show ?thesis
      unfolding prepareDevices_eq [OF Some] set_up_dirs_def create_for_def
      by (intro in_call in_for_each in_wrap in_ok assms(3,4))
  qed
  then have anew: "steps_in R (prepare_anew lib s claim c)" for c
    unfolding prepare_anew_def by (intro in_call in_wrap in_ok assms(5))
  show ?thesis
    unfolding prepare_body_eq
    by (intro in_call in_wrap assms(1,6) res) (auto intro!: in_ok in_call in_wrap anew assms(6))
qed

lemma in_unprepare_tail:
  assumes "\<And>p d. entry_of uid (PreparedClaims c) = Some p \<Longrightarrow> d \<in> set (Devices p)
      \<Longrightarrow> steps_in R (deleteClaimDirectory (Name p) (recorded_request p d))"
    and "steps_in R (DeleteClaimSpecFile lib (cdi s) uid)"
    and "\<And>e c. steps_in R (writeCheckpoint (checkpointPath s) e c)"
  shows "steps_in R (call (unprepare_from lib s uid c)
      (\<lambda>_. call (wrap (Errorf ''unable to sync to checkpoint'')
        (writeCheckpoint (checkpointPath s) (checkpointEncoder s) (removeClaimFromCheckpoint c uid))) (\<lambda>_. ok ())))"
proof -
  have "steps_in R (unprepareDevices uid (Some c))"
    unfolding unprepareDevices_eq
    by (auto intro!: in_ok in_for_each in_on_err assms(1) split: option.splits)
  then show ?thesis
    unfolding unprepare_from_def by (intro in_call in_wrap in_ok assms(2,3))
qed

lemma in_lift_then:
  assumes "\<And>y. x = Inr y \<Longrightarrow> steps_in R (k y)"
  shows "steps_in R (call (wrap e (lift_result x)) k)"
proof (cases x)
  case (Inl a)
  then show ?thesis by (simp add: wrap_fail in_fail)
next
  case (Inr y)
  with assms show ?thesis by (simp add: wrap_ok)
qed

lemma in_NewDeviceState:
  assumes "network_config config" "\<And>p. steps_in R (network_EnumerateDevices p)"
    and "\<And>root. steps_in R (extern_err (cdi_NewCache lib root))"
    and "steps_in R (CreateCommonSpecFile lib (new_cdi config))"
  shows "steps_in R (NewDeviceState lib config)"
proof -
  have "NewCDIHandler lib (flag_cdiRoot (flags config)) (flag_driverName (flags config)) (flag_profile (flags config))
      = call (wrap (Wrapf ''unable to create a new CDI cache'') (extern_err (cdi_NewCache lib (flag_cdiRoot (flags config)))))
        (\<lambda>_. ok (new_cdi config))"
    by (simp add: NewCDIHandler_def new_cdi_def)
  then show ?thesis
    using assms(1) unfolding NewDeviceState_def network_config_def
    by (auto simp: wrap_call_ok call_assoc Let_def split: option.splits prod.splits
        intro!: in_call in_wrap assms(2-4) in_fail in_ok)
qed

end

section \<open>The directories of another claim\<close>

lemma quiet_keeps_ready: "(\<And>P. steps_in (touches P) m) \<Longrightarrow> steps_in (keeps_ready p d) m"
  by (rule touches_keeps_ready [where P = "\<lambda>_. False"]) auto

lemma writeCheckpoint_keeps_ready:
  assumes "state_ok s"
  shows "steps_in (keeps_ready (claim_dir n r) d) (writeCheckpoint (checkpointPath s) e c)"
proof (rule touches_keeps_ready [OF touches_writeCheckpoint])
  have "in_base (claim_dir n r)" "in_base (metadata_path (claim_dir n r))"
    by (auto simp: metadata_path_def intro!: claim_dir_in_base)
  then show "\<not> store_path (checkpointPath s) (claim_dir n r)"
    "\<not> store_path (checkpointPath s) (metadata_path (claim_dir n r))"
    using assms store_path_apart by (auto simp: state_ok_def)
qed (use assms in \<open>simp add: state_ok_def\<close>)

text \<open>Claims with different stable names have different directories, none below the other.\<close>

lemma claim_dir_other:
  assumes "extractStableClaimName n \<noteq> extractStableClaimName n'"
  shows "claim_dir n r \<noteq> claim_dir n' r'" "\<not> prefix (claim_dir n r) (metadata_path (claim_dir n' r'))"
  using assms by (auto simp: claim_dir_def claim_root_def metadata_path_def)

lemma prepare_keeps_ready:
  assumes "state_ok s" "workload s K" "claim \<in> K" "request_ok r"
    and "extractStableClaimName (claim_Name claim) \<noteq> extractStableClaimName n"
  shows "steps_in (keeps_ready (claim_dir n r) d) (prepare_body lib s claim)"
proof (rule keeping.in_prepare_body)
  show "steps_in (keeps_ready (claim_dir n r) d) (createClaimDirectory lib (claim_Name claim) r' d')"
    if "r' \<in> Request ` set (results_of s claim)" for r' d'
  proof (rule createClaimDirectory_keeps)
    show "plain (claim_Name claim)" "claim_dir (claim_Name claim) r' \<noteq> claim_dir n r"
      using workload_claim(3) [OF assms(2,3)] claim_dir_other(1) [OF assms(5)] by auto
    show "request_ok r'"
      using that workload_claim(1) [OF assms(2,3)]
      by (auto simp: results_of_def own_results_def claim_ok_def list_all_iff split: option.splits)
  qed (rule assms(4))
qed (rule writeCheckpoint_keeps_ready [OF assms(1)]
    | (rule quiet_keeps_ready, rule touches_readCheckpoint touches_computeDeviceConfig touches_publish_status touches_CDI))+

lemma unprepare_keeps_ready:
  assumes "state_ok s" "workload s K" "claim \<in> K" "PreparedClaims c = map checkpoint_entry cs" "set cs \<subseteq> K"
    and "extractStableClaimName (claim_Name claim) \<noteq> extractStableClaimName n"
  shows "steps_in (keeps_ready (claim_dir n r) d) (call (unprepare_from lib s (claim_UID claim) c)
      (\<lambda>_. call (wrap (Errorf ''unable to sync to checkpoint'')
        (writeCheckpoint (checkpointPath s) (checkpointEncoder s) (removeClaimFromCheckpoint c (claim_UID claim)))) (\<lambda>_. ok ())))"
proof (rule keeping.in_unprepare_tail)
  show "steps_in (keeps_ready (claim_dir n r) d) (deleteClaimDirectory (Name p) (recorded_request p d'))"
    if p: "entry_of (claim_UID claim) (PreparedClaims c) = Some p" and d': "d' \<in> set (Devices p)" for p d'
  proof -
    have "p \<in> set (PreparedClaims c)" "UID p = claim_UID claim"
      using p by (auto simp: entry_of_def find_Some_iff)
    then obtain c' where "p = checkpoint_entry c'" "c' \<in> K"
      using assms(4,5) by auto
    with \<open>UID p = claim_UID claim\<close> have eq: "p = checkpoint_entry claim"
      using workload_inj [OF assms(2) _ assms(3), of c'] by simp
    then have "entry_ok p" "Name p = claim_Name claim"
      using workload_claim(4) [OF assms(2,3)] by (simp_all add: checkpoint_entry_def Let_def)
    with d' show ?thesis
      using recorded_request_ok [of p d'] claim_dir_other(2) [OF assms(6)] by (intro deleteClaimDirectory_keeps) auto
  qed
qed (rule writeCheckpoint_keeps_ready [OF assms(1)] | (rule quiet_keeps_ready, rule touches_CDI))+

lemma restart_keeps_ready:
  assumes "network_config config"
  shows "steps_in (keeps_ready (claim_dir n r) d) (NewDeviceState lib config)"
proof (rule keeping.in_NewDeviceState [OF assms])
  have "steps_in grows (network_EnumerateDevices p)" for p
    unfolding network_EnumerateDevices_def Let_def
    by (intro growing.in_call growing.in_wrap growing.in_ok grows_os_MkdirAll)
  then show "steps_in (keeps_ready (claim_dir n r) d) (network_EnumerateDevices p)" for p
    by (rule steps_in_mono) (rule grows_keeps_ready)
qed (rule quiet_keeps_ready, rule touches_CDI touches_extern_err)+

section \<open>The CDI spec of another claim\<close>

definition keeps_spec :: "('x \<Rightarrow> string \<Rightarrow> string \<Rightarrow> Spec option) \<Rightarrow> string \<Rightarrow> string \<Rightarrow> 'x world \<Rightarrow> 'x world \<Rightarrow> bool" where
  "keeps_spec specs c n w w' \<longleftrightarrow> specs (ext w') c n = specs (ext w) c n"

interpretation keeping_spec: step_relation "keeps_spec specs c n" for specs c n
  by unfold_locales (auto simp: keeps_spec_def)

lemma keeps_ext_keeps_spec: "steps_in keeps_ext m \<Longrightarrow> steps_in (keeps_spec specs c n) m"
  by (erule steps_in_mono) (simp add: keeps_ext_def keeps_spec_def)

lemma keeps_ext_os_Getenv: "steps_in keeps_ext (os_Getenv key)"
  by (simp add: steps_in_def os_Getenv_def keeps_ext_def)

lemma extern_err_keeps_spec:
  assumes "\<And>x. specs (snd (f x)) c n = specs x c n"
  shows "steps_in (keeps_spec specs c n) (extern_err f)"
proof (rule steps_inI)
  fix w
  obtain r w' where run: "extern_err f w = (r, w')" by fastforce
  have "ext w' = ext w \<or> ext w' = snd (f (ext w))"
    using extern_err_ext [OF run] by (auto intro: sym)
  with assms [of "ext w"] show "keeps_spec specs c n w (snd (extern_err f w))"
    unfolding run by (auto simp: keeps_spec_def)
qed

lemma createClaimDirectory_keeps_spec:
  assumes "cdi_frame lib specs"
  shows "steps_in (keeps_spec specs c n) (createClaimDirectory lib name r d)"
proof -
  have label: "steps_in (keeps_spec specs c n) (try_SetFileLabel lib p)" for p
    unfolding try_SetFileLabel_def
    by (intro keeping_spec.in_on_err keeping_spec.in_ok extern_err_keeps_spec) (use assms in \<open>simp add: cdi_frame_def\<close>)
  show ?thesis
    unfolding createClaimDirectory_def setup_dir_def os_Chown_def os_Chmod_def Let_def
    by (intro keeping_spec.in_call keeping_spec.in_wrap keeping_spec.in_ok keeping_spec.in_for_each
        keeping_spec.in_lift_result label keeps_ext_keeps_spec [OF keeps_ext_os(3)]
        keeps_ext_keeps_spec [OF keeps_ext_os(4)] keeps_ext_keeps_spec [OF keeps_ext_os(5)])
qed

lemma CDI_keeps_claim_spec:
  assumes "cdi_laws lib specs" "uid_ok u" "uid_ok v" "u \<noteq> v"
  shows "steps_in (keeps_spec specs (cache h) (claim_spec_name lib h v)) (CreateClaimSpecFile lib h u ds)"
    and "steps_in (keeps_spec specs (cache h) (claim_spec_name lib h v)) (DeleteClaimSpecFile lib h u)"
  using cdi_specs.create_other [OF assms prod.collapse [symmetric]] cdi_specs.delete_other [OF assms prod.collapse [symmetric]]
  by (simp_all add: steps_in_def keeps_spec_def claim_spec_of_def)

lemma common_keeps_claim_spec:
  assumes "cdi_laws lib specs" "cdi_frame lib specs" "CHR ''/'' \<notin> set (cdi_driverName h)"
    and "uid_ok u" "u \<noteq> cdiCommonDeviceName"
  shows "steps_in (keeps_spec specs c (claim_spec_name lib h u)) (CreateCommonSpecFile lib h)"
proof -
  have "claim_spec_name lib h u \<noteq> n" if "cdi_GenerateNameForTransientSpec lib s cdiCommonDeviceName = Inr n"
    "spec_Kind s = kind h" for s n
  proof -
    have "n = cdi_GenerateTransientSpecName lib (vendor h) (cdi_class h) cdiCommonDeviceName"
      using assms(2,3) that unfolding cdi_frame_def kind_def by (auto simp: vendor_def)
    moreover have "CHR ''/'' \<notin> set cdiCommonDeviceName"
      by (simp add: cdiCommonDeviceName_def)
    ultimately show ?thesis
      using cdi_laws_names [OF assms(1)] assms(4,5) unfolding claim_spec_name_def uid_ok_def by metis
  qed
  note other = this
  have written: "steps_in (keeps_spec specs c (claim_spec_name lib h u)) (extern_err (cdi_WriteSpec lib (cache h) s n))"
    if "cdi_GenerateNameForTransientSpec lib s' cdiCommonDeviceName = Inr n" "spec_Kind s' = kind h" for s s' n
    using other [OF that] cdi_laws_write(2) [OF assms(1) prod.collapse [symmetric]]
    by (intro extern_err_keeps_spec) auto
  show ?thesis
    unfolding CreateCommonSpecFile_def Let_def
    by (rule keeping_spec.in_call [OF keeps_ext_keeps_spec [OF keeps_ext_os_Getenv]],
        rule keeping_spec.in_lift_then, rule keeping_spec.in_lift_then) (rule written, assumption, simp)
qed

text \<open>The spec of a claim is the only one that its preparation and its unpreparation write.\<close>

lemma other_spec_kept:
  assumes "cdi_laws lib specs" "(c, n) \<noteq> (cache h, claim_spec_name lib h uid)"
  shows "steps_in (keeps_spec specs c n) (CreateClaimSpecFile lib h uid ds)"
    and "steps_in (keeps_spec specs c n) (DeleteClaimSpecFile lib h uid)"
proof -
  have "keeps_spec specs c n w w'" if run: "CreateClaimSpecFile lib h uid ds w = (r, w')" for w r w'
    using CreateClaimSpecFile_result [OF run] cdi_laws_write(2) [OF assms(1) _ assms(2)]
    by (auto simp: keeps_spec_def)
  then show "steps_in (keeps_spec specs c n) (CreateClaimSpecFile lib h uid ds)"
    by (simp add: steps_in_def prod_eq_iff)
  have "keeps_spec specs c n w w'" if run: "DeleteClaimSpecFile lib h uid w = (r, w')" for w r w'
    using DeleteClaimSpecFile_result [OF run] cdi_laws_remove(2) [OF assms(1) _ assms(2)]
    by (auto simp: keeps_spec_def)
  then show "steps_in (keeps_spec specs c n) (DeleteClaimSpecFile lib h uid)"
    by (simp add: steps_in_def prod_eq_iff)
qed

lemma prepare_keeps_other_specs:
  assumes "cdi_laws lib specs" "cdi_frame lib specs" "configHandler s = network_handler"
    and "(c, n) \<noteq> (cache (cdi s), claim_spec_name lib (cdi s) (claim_UID claim))"
  shows "steps_in (keeps_spec specs c n) (prepare_body lib s claim)"
proof (rule keeping_spec.in_prepare_body)
  show "steps_in (keeps_spec specs c n) (publish_status lib s claim rs)" for rs
    using assms(3) by (simp add: publish_status_def network_handler_def keeping_spec.in_ok)
qed (rule createClaimDirectory_keeps_spec [OF assms(2)] other_spec_kept(1) [OF assms(1,4)]
    | (rule keeps_ext_keeps_spec, rule keeps_ext_readCheckpoint keeps_ext_computeDeviceConfig keeps_ext_writeCheckpoint))+

text \<open>All that is kept of a claim's spec by what is done for other claims, and by a restart.\<close>

lemma prepare_keeps_spec:
  assumes "cdi_laws lib specs" "cdi_frame lib specs" "configHandler s = network_handler"
    and "uid_ok (claim_UID claim)" "uid_ok u" "claim_UID claim \<noteq> u"
  shows "steps_in (keeps_spec specs (cache (cdi s)) (claim_spec_name lib (cdi s) u)) (prepare_body lib s claim)"
proof (rule prepare_keeps_other_specs [OF assms(1-3)])
  show "(cache (cdi s), claim_spec_name lib (cdi s) u) \<noteq> (cache (cdi s), claim_spec_name lib (cdi s) (claim_UID claim))"
    using cdi_laws_names [OF assms(1)] assms(4-6) by (auto simp: claim_spec_name_def uid_ok_def)
qed

lemma unprepare_keeps_spec:
  assumes "cdi_laws lib specs" "uid_ok uid" "uid_ok u" "uid \<noteq> u"
  shows "steps_in (keeps_spec specs (cache (cdi s)) (claim_spec_name lib (cdi s) u)) (call (unprepare_from lib s uid c)
      (\<lambda>_. call (wrap (Errorf ''unable to sync to checkpoint'')
        (writeCheckpoint (checkpointPath s) (checkpointEncoder s) (removeClaimFromCheckpoint c uid))) (\<lambda>_. ok ())))"
proof (rule keeping_spec.in_unprepare_tail)
  show "steps_in (keeps_spec specs (cache (cdi s)) (claim_spec_name lib (cdi s) u)) (deleteClaimDirectory n r)" for n r
    unfolding deleteClaimDirectory_def Let_def by (intro keeps_ext_keeps_spec keeps_ext_os(6))
qed (rule CDI_keeps_claim_spec(2) [OF assms] | (rule keeps_ext_keeps_spec, rule keeps_ext_writeCheckpoint))+

lemma restart_keeps_spec:
  assumes "network_config config" "plugin_dir_ok config" "cdi_laws lib specs" "cdi_frame lib specs"
    and "uid_ok u" "u \<noteq> cdiCommonDeviceName"
  shows "steps_in (keeps_spec specs c (claim_spec_name lib (new_cdi config) u)) (NewDeviceState lib config)"
proof (rule keeping_spec.in_NewDeviceState [OF assms(1)])
  have "CHR ''/'' \<notin> set (cdi_driverName (new_cdi config))"
    using assms(2) by (simp add: new_cdi_def plugin_dir_ok_def plain_def)
  then show "steps_in (keeps_spec specs c (claim_spec_name lib (new_cdi config) u)) (CreateCommonSpecFile lib (new_cdi config))"
    using assms(3-6) by (intro common_keeps_claim_spec)
  show "steps_in (keeps_spec specs c (claim_spec_name lib (new_cdi config) u)) (network_EnumerateDevices p)" for p
    unfolding network_EnumerateDevices_def Let_def
    by (intro keeping_spec.in_call keeping_spec.in_wrap keeping_spec.in_ok keeps_ext_keeps_spec keeps_ext_os(3))
  show "steps_in (keeps_spec specs c (claim_spec_name lib (new_cdi config) u)) (extern_err (cdi_NewCache lib root))" for root
    using assms(4) by (intro extern_err_keeps_spec) (simp add: cdi_frame_def)
qed

section \<open>Properties\<close>

text \<open>
  C11: \<open>Unprepare\<close> undoes \<open>Prepare\<close> of the network driver: when both return without error, in any
  environment, for a claim that was not in the store, the store holds again exactly what it held
  before, the claim has no CDI spec, and every other spec on the node is what it was before the
  claim was prepared.
\<close>

theorem prepare_unprepare_roundtrip:
  assumes "state_ok s" "configHandler s = network_handler" "claim_ok claim" "cdi_laws lib specs" "cdi_frame lib specs"
    and "\<not> mutex w" "stored s w = Some cs" "list_all entry_ok cs" "claim_UID claim \<notin> UID ` set cs"
    and "Prepare lib s claim w = (Ok pds, w1)" "Unprepare lib s (claim_UID claim) w1 = (Ok (), w2)"
  shows "stored s w2 = Some cs \<and> claim_spec_of lib specs (cdi s) (ext w2) (claim_UID claim) = None
    \<and> (\<forall>c n. (c, n) \<noteq> (cache (cdi s), claim_spec_name lib (cdi s) (claim_UID claim))
        \<longrightarrow> specs (ext w2) c n = specs (ext w) c n)"
proof -
  obtain wa where body: "prepare_body lib s claim (w\<lparr>mutex := True\<rparr>) = (Ok pds, wa)" and w1: "w1 = wa\<lparr>mutex := False\<rparr>"
    using assms(6,10) by (rule Prepare_body)
  have st1: "stored s w1 = Some (cs @ [checkpoint_entry claim])"
    using prepare_body_store [OF assms(1,3) body] assms(7,9) w1 by auto
  have "\<not> mutex w1" using w1 by simp
  then obtain wb where ub: "unprepare_body lib s (claim_UID claim) (w1\<lparr>mutex := True\<rparr>) = (Ok (), wb)"
    and w2: "w2 = wb\<lparr>mutex := False\<rparr>"
    using assms(11) by (rule Unprepare_body)
  have "stored s (w1\<lparr>mutex := True\<rparr>) = Some (cs @ [checkpoint_entry claim])"
    using st1 by simp
  from unprepare_body_Ok [OF ub this] obtain c wr w3 w4 where
    c: "PreparedClaims c = cs @ [checkpoint_entry claim]" and read: "ext wr = ext (w1\<lparr>mutex := True\<rparr>)" and
    del: "unprepareDevices (claim_UID claim) (Some c) wr = (Ok (), w3)" and
    sp: "DeleteClaimSpecFile lib (cdi s) (claim_UID claim) w3 = (Ok (), w4)" and
    wr: "writeCheckpoint (checkpointPath s) (checkpointEncoder s) (removeClaimFromCheckpoint c (claim_UID claim)) w4 = (Ok (), wb)"
    by metis
  have "filter (\<lambda>c. UID c \<noteq> claim_UID claim) cs = cs"
    using assms(9) by (intro filter_True) (auto intro: rev_image_eqI)
  then have st: "stored s w2 = Some cs"
    using file_store.save_Ok [OF state_ok_usable [OF assms(1)] wr] c w2
    by (simp add: stored_def removeClaimFromCheckpoint_def)
  have ext2: "ext w2 = ext w4"
    using steps_inD [OF keeps_ext_writeCheckpoint wr] w2 by (simp add: keeps_ext_def)
  then have own: "claim_spec_of lib specs (cdi s) (ext w2) (claim_UID claim) = None"
    using cdi_specs.delete_spec [OF assms(4) sp] by simp
  have ext3: "ext w3 = ext wa"
    using steps_inD [OF keeps_ext_unprepareDevices del] read w1 by (simp add: keeps_ext_def)
  have "specs (ext w2) c' n = specs (ext w) c' n"
    if "(c', n) \<noteq> (cache (cdi s), claim_spec_name lib (cdi s) (claim_UID claim))" for c' n
    using steps_inD [OF prepare_keeps_other_specs [OF assms(4,5,2) that] body]
      steps_inD [OF other_spec_kept(2) [OF assms(4) that] sp] ext2 ext3
    by (simp add: keeps_spec_def)
  with st own show ?thesis by blast
qed

theorem prepare_unprepare_roundtrip_witness:
  "\<exists>pds w1 w2. Prepare sample_libraries sample_state sample_claim sample_world = (Ok pds, w1)
    \<and> Unprepare sample_libraries sample_state ''123'' w1 = (Ok (), w2)
    \<and> stored sample_state w2 = Some []"
proof -
  from sample_round obtain pds w1 w2 where
    run: "Prepare sample_libraries sample_state sample_claim sample_world = (Ok pds, w1)"
      "Unprepare sample_libraries sample_state (claim_UID sample_claim) w1 = (Ok (), w2)"
    by (elim exE conjE) (rule that, simp_all)
  have "\<not> mutex sample_world" "list_all entry_ok []" "claim_UID sample_claim \<notin> UID ` set []"
    by simp_all
  from prepare_unprepare_roundtrip [OF sample_state_ok sample_state_simps(3) sample_claim_ok sample_cdi_laws
      sample_cdi_frame this(1) sample_stored this(2,3) run]
  have "stored sample_state w2 = Some []" by (rule conjunct1)
  with run show ?thesis
    by (intro exI conjI) simp_all
qed

end
