(* ===== verification/Runs.thy ===== *)
theory Runs
  imports Main
begin

text \<open>
  Runs of labelled step relations, and the refinement of one machine by another: what the lifetime
  of the driver, the machine of the held claims and the instances of a rolling update share. The
  locale \<open>simulation\<close> carries a step-by-step refinement over to runs, and simulations compose.
\<close>

section \<open>Runs\<close>

inductive runs :: "('s \<Rightarrow> 'l \<Rightarrow> 's \<Rightarrow> bool) \<Rightarrow> 's \<Rightarrow> 'l list \<Rightarrow> 's \<Rightarrow> bool" for step s where
  begins: "runs step s [] s"
| goes_on: "runs step s as s' \<Longrightarrow> step s' a s'' \<Longrightarrow> runs step s (as @ [a]) s''"

inductive_simps runs_simps:
  "runs step s [] s'"
  "runs step s (as @ [a]) s'"

lemma runs_step: "step s a s' \<Longrightarrow> runs step s [a] s'"
  using goes_on [OF begins] by fastforce

lemma runs_trans:
  assumes "runs step s as s1" "runs step s1 bs s2"
  shows "runs step s (as @ bs) s2"
  using assms(2)
proof induction
  case begins
  from assms(1) show ?case by simp
next
  case (goes_on bs s3 b s4)
  from runs.goes_on [OF goes_on(3,2)] show ?case by simp
qed

section \<open>Simulations\<close>

text \<open>
  \<open>step\<close> is the concrete machine, \<open>astep\<close> the abstract one, \<open>related\<close> says which abstract states a
  concrete state represents. Every concrete step is an abstract one with the same label.
\<close>

locale simulation =
  fixes step :: "'s \<Rightarrow> 'l \<Rightarrow> 's \<Rightarrow> bool"
    and astep :: "'t \<Rightarrow> 'l \<Rightarrow> 't \<Rightarrow> bool"
    and related :: "'s \<Rightarrow> 't \<Rightarrow> bool"
  assumes simulates: "step s a s' \<Longrightarrow> related s t \<Longrightarrow> \<exists>t'. astep t a t' \<and> related s' t'"
begin

lemma runs_simulate:
  assumes "runs step s as s'" "related s t"
  shows "\<exists>t'. runs astep t as t' \<and> related s' t'"
  using assms
proof induction
  case begins
  then show ?case by (blast intro: runs.begins)
next
  case (goes_on as s1 a s2)
  then show ?case by (meson simulates runs.goes_on)
qed

end

text \<open>
  What a run leaves alone: as long as the labels are allowed and an invariant of the abstract
  states says so, every concrete step keeps a frame, and so does every run.
\<close>

locale simulation_frame = simulation step astep related
  for step :: "'s \<Rightarrow> 'l \<Rightarrow> 's \<Rightarrow> bool" and astep :: "'t \<Rightarrow> 'l \<Rightarrow> 't \<Rightarrow> bool" and related +
  fixes allowed :: "'l \<Rightarrow> bool" and inv :: "'t \<Rightarrow> bool" and frame :: "'s \<Rightarrow> 's \<Rightarrow> bool"
  assumes inv_step: "astep t a t' \<Longrightarrow> allowed a \<Longrightarrow> inv t \<Longrightarrow> inv t'"
    and frame_refl: "frame s s"
    and frame_trans: "frame s s' \<Longrightarrow> frame s' s'' \<Longrightarrow> frame s s''"
    and frame_step: "step s a s' \<Longrightarrow> related s t \<Longrightarrow> inv t \<Longrightarrow> allowed a \<Longrightarrow> frame s s'"
begin

lemma runs_inv:
  assumes "runs astep t as t'" "list_all allowed as" "inv t"
  shows "inv t'"
  using assms by induction (auto intro: inv_step)

lemma runs_frame:
  assumes "runs step s as s'" "related s t" "inv t" "list_all allowed as"
  shows "frame s s'"
  using assms
proof induction
  case begins
  show ?case by (rule frame_refl)
next
  case (goes_on as s1 a s2)
  from runs_simulate [OF goes_on(1,4)] obtain t1 where t1: "runs astep t as t1" "related s1 t1" by blast
  from goes_on(6) have a: "list_all allowed as" "allowed a" by simp_all
  from frame_trans [OF goes_on(3) [OF goes_on(4,5) a(1)] frame_step [OF goes_on(2) t1(2) runs_inv [OF t1(1) a(1) goes_on(5)] a(2)]]
  show ?case .
qed

end

text \<open>Two simulations in a row are one.\<close>

locale simulation_chain =
  upper: simulation step2 step3 related2 + lower: simulation step1 step2 related1
  for step1 :: "'s \<Rightarrow> 'l \<Rightarrow> 's \<Rightarrow> bool" and step2 :: "'t \<Rightarrow> 'l \<Rightarrow> 't \<Rightarrow> bool" and step3 :: "'u \<Rightarrow> 'l \<Rightarrow> 'u \<Rightarrow> bool"
    and related1 :: "'s \<Rightarrow> 't \<Rightarrow> bool" and related2 :: "'t \<Rightarrow> 'u \<Rightarrow> bool"

sublocale simulation_chain \<subseteq> simulation step1 step3 "related1 OO related2"
proof
  fix s a s' u
  assume step: "step1 s a s'" and "(related1 OO related2) s u"
  then obtain t where t: "related1 s t" "related2 t u" by blast
  from lower.simulates [OF step t(1)] obtain t' where t': "step2 t a t'" "related1 s' t'" by blast
  from upper.simulates [OF t'(1) t(2)] obtain u' where "step3 u a u'" "related2 t' u'" by blast
  with t'(2) show "\<exists>u'. step3 u a u' \<and> (related1 OO related2) s' u'" by blast
qed

end
