(* ===== verification/Claim_Lifecycle.thy ===== *)
theory Claim_Lifecycle
  imports Claim_Frames Runs
begin

text \<open>
  The driver over its lifetime, as a state machine: the kubelet has claims prepared and
  unprepared, in any order, with whatever the environment does to each call, and the plugin is
  killed and started again. Its runs refine an abstract machine whose state is a list of claims,
  and a claim that was prepared stays so until it is unprepared.
\<close>

section \<open>The steps\<close>

definition succeeded :: "'a outcome \<Rightarrow> bool" where
  "succeeded r \<longleftrightarrow> (case r of Ok x \<Rightarrow> True | _ \<Rightarrow> False)"

lemma succeeded_iff: "succeeded r \<longleftrightarrow> (\<exists>x. r = Ok x)"
  by (cases r) (simp_all add: succeeded_def)

text \<open>
  A step of a claim is labelled with whether it reported success; an unprepare is blind when it
  cannot read the checkpoint. A restart begins with whatever environment the new process finds,
  and may itself fail.
\<close>

datatype action =
    PrepareClaim ResourceClaim bool
  | UnprepareClaim ResourceClaim bool
  | UnprepareBlind ResourceClaim
  | Restart

definition reads_checkpoint :: "'o DeviceState \<Rightarrow> 'x world \<Rightarrow> bool" where
  "reads_checkpoint s w \<longleftrightarrow>
    (case fst (readCheckpoint (checkpointPath s) (checkpointDecoder s) (w\<lparr>mutex := True\<rparr>)) of
       Err e \<Rightarrow> False | _ \<Rightarrow> True)"

inductive driver_step :: "('x, 'o) libraries \<Rightarrow> ('x, 'o) Config \<Rightarrow> ResourceClaim set
    \<Rightarrow> 'x world \<Rightarrow> action \<Rightarrow> 'x world \<Rightarrow> bool" for lib config K where
  prepare: "claim \<in> K \<Longrightarrow> Prepare lib (new_state lib config) claim w = (r, w')
    \<Longrightarrow> driver_step lib config K w (PrepareClaim claim (succeeded r)) w'"
| unprepare: "claim \<in> K \<Longrightarrow> Unprepare lib (new_state lib config) (claim_UID claim) w = (r, w')
    \<Longrightarrow> reads_checkpoint (new_state lib config) w \<Longrightarrow> driver_step lib config K w (UnprepareClaim claim (succeeded r)) w'"
| unprepare_blind: "claim \<in> K \<Longrightarrow> Unprepare lib (new_state lib config) (claim_UID claim) w = (r, w')
    \<Longrightarrow> \<not> reads_checkpoint (new_state lib config) w \<Longrightarrow> driver_step lib config K w (UnprepareBlind claim) w'"
| restart: "NewDeviceState lib config (w\<lparr>env := e, mutex := False\<rparr>) = (r, w')
    \<Longrightarrow> driver_step lib config K w Restart w'"

inductive_cases driver_stepE [elim]:
  "driver_step lib config K w (PrepareClaim claim b) w'"
  "driver_step lib config K w (UnprepareClaim claim b) w'"
  "driver_step lib config K w (UnprepareBlind claim) w'"
  "driver_step lib config K w Restart w'"

abbreviation driver_run :: "('x, 'o) libraries \<Rightarrow> ('x, 'o) Config \<Rightarrow> ResourceClaim set
    \<Rightarrow> 'x world \<Rightarrow> action list \<Rightarrow> 'x world \<Rightarrow> bool" where
  "driver_run lib config K \<equiv> runs (driver_step lib config K)"

lemmas driver_run_step = runs_step [where step = "driver_step lib config K" for lib config K]

text \<open>
  The abstract machine: the list of the claims that are held. What is reported as a success has
  its effect; what is reported as a failure may or may not have had it.
\<close>

inductive claims_step :: "ResourceClaim list \<Rightarrow> action \<Rightarrow> ResourceClaim list \<Rightarrow> bool" where
  added: "claim \<notin> set cs \<Longrightarrow> claims_step cs (PrepareClaim claim b) (cs @ [claim])"
| held_before: "claim \<in> set cs \<Longrightarrow> claims_step cs (PrepareClaim claim b) cs"
| not_prepared: "claims_step cs (PrepareClaim claim False) cs"
| removed: "claims_step cs (UnprepareClaim claim b) (removeAll claim cs)"
| not_unprepared: "claims_step cs (UnprepareClaim claim False) cs"
| lost: "claims_step cs (UnprepareBlind claim) []"
| not_lost: "claims_step cs (UnprepareBlind claim) cs"
| restarted: "claims_step cs Restart cs"

inductive_cases claims_stepE [elim]:
  "claims_step cs (PrepareClaim claim b) cs'"
  "claims_step cs (UnprepareClaim claim b) cs'"
  "claims_step cs (UnprepareBlind claim) cs'"
  "claims_step cs Restart cs'"

abbreviation claims_run :: "ResourceClaim list \<Rightarrow> action list \<Rightarrow> ResourceClaim list \<Rightarrow> bool" where
  "claims_run \<equiv> runs claims_step"

lemmas claims_run_simps = runs_simps [where step = claims_step]

text \<open>The states that represent a list of claims.\<close>

definition holds :: "'o DeviceState \<Rightarrow> ResourceClaim set \<Rightarrow> ResourceClaim list \<Rightarrow> 'x world \<Rightarrow> bool" where
  "holds s K cs w \<longleftrightarrow> \<not> mutex w \<and> stored s w = Some (map checkpoint_entry cs) \<and> set cs \<subseteq> K \<and> distinct cs"

lemma holds_simps:
  assumes "holds s K cs w"
  shows "\<not> mutex w" "stored s w = Some (map checkpoint_entry cs)" "set cs \<subseteq> K" "distinct cs"
  using assms by (simp_all add: holds_def)

lemma holds_same: "holds s K cs w \<Longrightarrow> stored s w' = stored s w \<Longrightarrow> \<not> mutex w' \<Longrightarrow> holds s K cs w'"
  by (simp add: holds_def)

lemma holds_entries_ok:
  assumes "workload s K" "set cs \<subseteq> K"
  shows "list_all entry_ok (map checkpoint_entry cs)"
  using workload_claim(4) [OF assms(1)] assms(2) by (auto simp: list_all_iff)

lemma without_held:
  assumes "workload s K" "set cs \<subseteq> K" "claim \<in> K"
  shows "without (claim_UID claim) (map checkpoint_entry cs) = map checkpoint_entry (removeAll claim cs)"
  using assms(2) workload_inj [OF assms(1) _ assms(3)]
  by (induction cs) (auto simp: without_def)

lemma held_UID:
  assumes "workload s K" "set cs \<subseteq> K" "claim \<in> K"
  shows "claim_UID claim \<in> UID ` set (map checkpoint_entry cs) \<longleftrightarrow> claim \<in> set cs"
  using assms(2) workload_inj [OF assms(1) assms(3)] by (auto simp: image_iff)

section \<open>Each step refines\<close>

lemma prepare_step_refines:
  assumes "state_ok s" "workload s K" "holds s K cs w" "claim \<in> K" "Prepare lib s claim w = (r, w')"
  shows "\<exists>cs'. claims_step cs (PrepareClaim claim (succeeded r)) cs' \<and> holds s K cs' w'"
proof (cases "claim \<in> set cs")
  case True
  note h = holds_simps [OF assms(3)]
  obtain alloc where alloc: "Allocation claim = Some alloc" "own_results s (Results alloc) \<noteq> []"
    using workload_results [OF assms(2,4)] by blast
  from True have "claim_UID claim \<in> UID ` set (map checkpoint_entry cs)"
    by (rule held_UID [OF assms(2) h(3) assms(4), THEN iffD2])
  from Prepare_listed [OF h(2) this alloc h(1) assms(5)] have "holds s K cs w'"
    by (intro holds_same [OF assms(3)] stored_same_files) simp_all
  with True show ?thesis by (blast intro: held_before)
next
  case False
  note h = holds_simps [OF assms(3)]
  from Prepare_store [OF assms(1) workload_claim(1) [OF assms(2,4)] h(1) assms(5)] show ?thesis
  proof (elim conjE disjE exE)
    assume free: "\<not> mutex w'" and same: "stored s w' = stored s w"
      and "\<forall>ds. r = Ok ds \<longrightarrow> (\<exists>cs. stored s w = Some cs \<and> claim_UID claim \<in> UID ` set cs)"
    then have "\<not> succeeded r"
      using h(2) held_UID [OF assms(2) h(3) assms(4)] False by (auto simp: succeeded_iff)
    then have "claims_step cs (PrepareClaim claim (succeeded r)) cs"
      by (simp add: not_prepared)
    with holds_same [OF assms(3) same free] show ?thesis by blast
  next
    fix es assume "\<not> mutex w'" "stored s w = Some es" "stored s w' = Some (es @ [checkpoint_entry claim])"
    with h assms(4) False have "holds s K (cs @ [claim]) w'"
      by (simp add: holds_def)
    with False show ?thesis by (blast intro: added)
  qed
qed

lemma unprepare_step_refines:
  assumes "state_ok s" "workload s K" "holds s K cs w" "claim \<in> K" "Unprepare lib s (claim_UID claim) w = (r, w')"
  shows "\<exists>cs'. claims_step cs (if reads_checkpoint s w then UnprepareClaim claim (succeeded r) else UnprepareBlind claim) cs'
    \<and> holds s K cs' w'"
proof -
  note h = holds_simps [OF assms(3)]
  show ?thesis
    using assms(1) h(1,2) holds_entries_ok [OF assms(2) h(3)] assms(5)
  proof (cases rule: Unprepare_store)
    case unchanged
    then have "holds s K cs w'" "\<not> succeeded r"
      using h(2) by (auto simp: succeeded_iff intro: holds_same [OF assms(3)])
    then show ?thesis by (auto intro: not_unprepared not_lost)
  next
    case removed
    then have "holds s K (removeAll claim cs) w'"
      using h(3,4) without_held [OF assms(2) h(3) assms(4)] by (auto simp: holds_def distinct_removeAll)
    moreover have "reads_checkpoint s w"
      using removed(3) by (simp add: reads_checkpoint_def split: outcome.splits)
    ultimately show ?thesis by (auto intro: claims_step.removed)
  next
    case (emptied e)
    then have "holds s K [] w'" "\<not> reads_checkpoint s w"
      by (simp_all add: holds_def reads_checkpoint_def)
    then show ?thesis by (auto intro: lost)
  qed
qed

text \<open>The conditions on the configuration under which the lifetime is looked at.\<close>

definition usable :: "('x, 'o) libraries \<Rightarrow> ('x, 'o) Config \<Rightarrow> ResourceClaim set \<Rightarrow> bool" where
  "usable lib config K \<longleftrightarrow> network_config config \<and> plugin_dir_ok config \<and> codec_ok (checkpoint_codec lib)
    \<and> workload (new_state lib config) K"

lemma usable_simps:
  assumes "usable lib config K"
  shows "network_config config" "plugin_dir_ok config" "state_ok (new_state lib config)"
    "workload (new_state lib config) K"
  using assms state_ok_new(1) by (auto simp: usable_def)

lemma restart_step_refines:
  assumes "usable lib config K" "holds (new_state lib config) K cs w"
    and "NewDeviceState lib config (w\<lparr>env := e, mutex := False\<rparr>) = (r, w')"
  shows "holds (new_state lib config) K cs w'"
proof -
  note u = usable_simps [OF assms(1)]
  have "stored (new_state lib config) w' = stored (new_state lib config) (w\<lparr>env := e, mutex := False\<rparr>)"
    by (rule stored_others [OF u(3) touches_NewDeviceState [OF u(1)] assms(3)])
  moreover have "\<dots> = stored (new_state lib config) w"
    by (rule stored_same_files) simp
  moreover have "\<not> mutex w'"
    using touches_env [OF steps_inD [OF touches_NewDeviceState [OF u(1)] assms(3)]] by simp
  ultimately show ?thesis
    using assms(2) by (simp add: holds_def)
qed

lemma driver_step_refines:
  assumes "driver_step lib config K w a w'" "usable lib config K" "holds (new_state lib config) K cs w"
  shows "\<exists>cs'. claims_step cs a cs' \<and> holds (new_state lib config) K cs' w'"
  using assms(1)
proof cases
  case (prepare claim r)
  from prepare_step_refines [OF usable_simps(3,4) [OF assms(2)] assms(3) prepare(2,3)] prepare(1)
  show ?thesis by simp
next
  case (unprepare claim r)
  from unprepare_step_refines [OF usable_simps(3,4) [OF assms(2)] assms(3) unprepare(2,3)] unprepare(1,4)
  show ?thesis by simp
next
  case (unprepare_blind claim r)
  from unprepare_step_refines [OF usable_simps(3,4) [OF assms(2)] assms(3) unprepare_blind(2,3)] unprepare_blind(1,4)
  show ?thesis by simp
next
  case (restart e r)
  from restart_step_refines [OF assms(2,3) restart(2)] restart(1) show ?thesis
    by (auto intro: restarted)
qed

interpretation driver: simulation "driver_step lib config K" claims_step
    "\<lambda>w cs. usable lib config K \<and> holds (new_state lib config) K cs w" for lib config K
  by unfold_locales (blast dest: driver_step_refines)

lemma driver_run_refines:
  assumes "driver_run lib config K w as w'" "usable lib config K" "holds (new_state lib config) K cs w"
  shows "\<exists>cs'. claims_run cs as cs' \<and> holds (new_state lib config) K cs' w'"
  using driver.runs_simulate [OF assms(1)] assms(2,3) by blast

section \<open>A claim stays set up\<close>

text \<open>
  The actions that leave a claim alone: preparing it again or a claim whose pod has another
  stable name, unprepare of such a claim with a checkpoint that can be read, and restarts.
\<close>

fun leaves_alone :: "ResourceClaim \<Rightarrow> action \<Rightarrow> bool" where
  "leaves_alone claim (PrepareClaim c b) \<longleftrightarrow> c = claim
    \<or> extractStableClaimName (claim_Name c) \<noteq> extractStableClaimName (claim_Name claim)"
| "leaves_alone claim (UnprepareClaim c b) \<longleftrightarrow>
    extractStableClaimName (claim_Name c) \<noteq> extractStableClaimName (claim_Name claim)"
| "leaves_alone claim (UnprepareBlind c) \<longleftrightarrow> False"
| "leaves_alone claim Restart \<longleftrightarrow> True"

definition dirs_ready :: "'o DeviceState \<Rightarrow> ResourceClaim \<Rightarrow> 'x world \<Rightarrow> bool" where
  "dirs_ready s claim w \<longleftrightarrow> (\<forall>r. last_of_request r (results_of s claim) \<longrightarrow>
    claim_ready (files w) (claim_dir (claim_Name claim) (Request r)) (Device r))"

text \<open>The claim's directories and its spec are as they were.\<close>

definition undisturbed :: "('x, 'o) libraries \<Rightarrow> ('x \<Rightarrow> string \<Rightarrow> string \<Rightarrow> Spec option) \<Rightarrow> 'o DeviceState
    \<Rightarrow> ResourceClaim \<Rightarrow> 'x world \<Rightarrow> 'x world \<Rightarrow> bool" where
  "undisturbed lib specs s claim w w' \<longleftrightarrow> (dirs_ready s claim w \<longrightarrow> dirs_ready s claim w')
    \<and> claim_spec_of lib specs (cdi s) (ext w') (claim_UID claim)
      = claim_spec_of lib specs (cdi s) (ext w) (claim_UID claim)"

lemma dirs_ready_same_files: "files w = files w' \<Longrightarrow> dirs_ready s claim w = dirs_ready s claim w'"
  by (simp add: dirs_ready_def)

lemma undisturbed_same: "files w' = files w \<Longrightarrow> ext w' = ext w \<Longrightarrow> undisturbed lib specs s claim w w'"
  by (simp add: undisturbed_def dirs_ready_def)

lemma undisturbed_trans: "undisturbed lib specs s claim u v \<Longrightarrow> undisturbed lib specs s claim v w
    \<Longrightarrow> undisturbed lib specs s claim u w"
  by (auto simp: undisturbed_def)

lemma request_of_result:
  assumes "claim_ok claim" "last_of_request r (results_of s claim)"
  shows "request_ok (Request r)"
proof -
  have "r \<in> set (results_of s claim)"
    using assms(2) by (auto simp: last_of_request_def find_Some_iff rev_nth)
  with assms(1) show ?thesis
    by (auto simp: results_of_def own_results_def claim_ok_def list_all_iff split: option.splits)
qed

lemma undisturbed_steps:
  assumes "claim_ok claim" "steps_in (keeps_spec specs (cache (cdi s)) (claim_spec_name lib (cdi s) (claim_UID claim))) m"
    and "m w = (r, w')" "\<And>q d. request_ok q \<Longrightarrow> steps_in (keeps_ready (claim_dir (claim_Name claim) q) d) m"
  shows "undisturbed lib specs s claim w w'"
proof -
  have "claim_ready (files w') (claim_dir (claim_Name claim) (Request q)) (Device q)"
    if "last_of_request q (results_of s claim)" "dirs_ready s claim w" for q
    using steps_inD [OF assms(4) [OF request_of_result [OF assms(1) that(1)], of "Device q"] assms(3)] that
    by (simp add: dirs_ready_def keeps_ready_def)
  then show ?thesis
    using steps_inD [OF assms(2,3)] by (auto simp: undisturbed_def dirs_ready_def keeps_spec_def claim_spec_of_def)
qed

lemma prepare_undisturbed:
  assumes "state_ok s" "configHandler s = network_handler" "workload s K" "cdi_laws lib specs" "cdi_frame lib specs"
    and "holds s K cs w" "claim \<in> set cs" "c \<in> K" "leaves_alone claim (PrepareClaim c b)" "Prepare lib s c w = (r, w')"
  shows "undisturbed lib specs s claim w w'"
proof -
  note h = holds_simps [OF assms(6)]
  have claim: "claim \<in> K" using h(3) assms(7) by blast
  let ?w = "w\<lparr>mutex := True\<rparr>"
  obtain wa where body: "prepare_body lib s c ?w = (r, wa)" and w': "w' = wa\<lparr>mutex := False\<rparr>"
    using h(1) assms(10) by (rule Prepare_body)
  have "undisturbed lib specs s claim ?w wa"
  proof (cases "c = claim")
    case True
    obtain alloc where alloc: "Allocation c = Some alloc" "own_results s (Results alloc) \<noteq> []"
      using workload_results [OF assms(3,8)] by blast
    have "stored s ?w = Some (map checkpoint_entry cs)" "claim_UID c \<in> UID ` set (map checkpoint_entry cs)"
      using h(2) held_UID [OF assms(3) h(3) assms(8)] assms(7) True by simp_all
    from prepare_body_listed [OF this alloc body] show ?thesis
      by (intro undisturbed_same) simp_all
  next
    case False
    then have other: "extractStableClaimName (claim_Name c) \<noteq> extractStableClaimName (claim_Name claim)"
      "claim_UID c \<noteq> claim_UID claim"
      using assms(9) workload_inj [OF assms(3,8) claim] by auto
    show ?thesis
      by (rule undisturbed_steps [OF workload_claim(1) [OF assms(3) claim] prepare_keeps_spec [OF assms(4,5,2)
            workload_claim(2) [OF assms(3,8)] workload_claim(2) [OF assms(3) claim] other(2)] body])
        (rule prepare_keeps_ready [OF assms(1,3,8) _ other(1)])
  qed
  then show ?thesis
    unfolding w' by (simp add: undisturbed_def dirs_ready_def)
qed

lemma unprepare_undisturbed:
  assumes "state_ok s" "workload s K" "cdi_laws lib specs"
    and "holds s K cs w" "claim \<in> set cs" "c \<in> K" "leaves_alone claim (UnprepareClaim c b)"
    and "Unprepare lib s (claim_UID c) w = (r, w')" "reads_checkpoint s w"
  shows "undisturbed lib specs s claim w w'"
proof -
  note h = holds_simps [OF assms(4)]
  have claim: "claim \<in> K" using h(3) assms(5) by blast
  let ?w = "w\<lparr>mutex := True\<rparr>"
  obtain wa where body: "unprepare_body lib s (claim_UID c) ?w = (r, wa)" and w': "w' = wa\<lparr>mutex := False\<rparr>"
    using h(1) assms(8) by (rule Unprepare_body)
  have "undisturbed lib specs s claim ?w wa"
    using body
  proof (cases rule: unprepare_body_cases)
    case (ended a)
    then show ?thesis by (intro undisturbed_same)
  next
    case (unreadable e w1 r1)
    with assms(9) show ?thesis by (simp add: reads_checkpoint_def)
  next
    case (readable ck w1)
    have ck: "PreparedClaims ck = map checkpoint_entry cs"
      using readable(2) h(2) by simp
    have other: "extractStableClaimName (claim_Name c) \<noteq> extractStableClaimName (claim_Name claim)"
      "claim_UID c \<noteq> claim_UID claim"
      using assms(7) workload_inj [OF assms(2,6) claim] by auto
    have "undisturbed lib specs s claim w1 wa"
      by (rule undisturbed_steps [OF workload_claim(1) [OF assms(2) claim] unprepare_keeps_spec [OF assms(3)
            workload_claim(2) [OF assms(2,6)] workload_claim(2) [OF assms(2) claim] other(2)] readable(5)])
        (rule unprepare_keeps_ready [OF assms(1,2,6) ck h(3) other(1)])
    with undisturbed_same [OF readable(3,4)] show ?thesis by (rule undisturbed_trans)
  qed
  then show ?thesis
    unfolding w' by (simp add: undisturbed_def dirs_ready_def)
qed

lemma restart_undisturbed:
  assumes "usable lib config K" "cdi_laws lib specs" "cdi_frame lib specs" "claim \<in> K"
    and "NewDeviceState lib config (w\<lparr>env := e, mutex := False\<rparr>) = (r, w')"
  shows "undisturbed lib specs (new_state lib config) claim w w'"
proof -
  note u = usable_simps [OF assms(1)]
  have "cdi (new_state lib config) = new_cdi config"
    by (simp add: new_state_def)
  then have spec: "steps_in (keeps_spec specs (cache (cdi (new_state lib config)))
      (claim_spec_name lib (cdi (new_state lib config)) (claim_UID claim))) (NewDeviceState lib config)"
    using restart_keeps_spec [OF u(1,2) assms(2,3) workload_claim(2,5) [OF u(4) assms(4)]] by simp
  have "undisturbed lib specs (new_state lib config) claim (w\<lparr>env := e, mutex := False\<rparr>) w'"
    by (rule undisturbed_steps [OF workload_claim(1) [OF u(4) assms(4)] spec assms(5)])
      (rule restart_keeps_ready [OF u(1)])
  then show ?thesis
    by (simp add: undisturbed_def dirs_ready_def)
qed

lemma driver_step_undisturbed:
  assumes "driver_step lib config K w a w'" "usable lib config K" "cdi_laws lib specs" "cdi_frame lib specs"
    and "holds (new_state lib config) K cs w" "claim \<in> set cs" "leaves_alone claim a"
  shows "undisturbed lib specs (new_state lib config) claim w w'"
  using assms(1)
proof cases
  case (prepare c r)
  have "configHandler (new_state lib config) = network_handler"
    by (simp add: new_state_def)
  from prepare_undisturbed [OF usable_simps(3) [OF assms(2)] this usable_simps(4) [OF assms(2)] assms(3-6) prepare(2) _ prepare(3)]
  show ?thesis using assms(7) prepare(1) by simp
next
  case (unprepare c r)
  from unprepare_undisturbed [OF usable_simps(3,4) [OF assms(2)] assms(3,5,6) unprepare(2) _ unprepare(3,4)]
  show ?thesis using assms(7) unprepare(1) by simp
next
  case (unprepare_blind c r)
  then show ?thesis using assms(7) by simp
next
  case (restart e r)
  have "claim \<in> K" using holds_simps(3) [OF assms(5)] assms(6) by blast
  from restart_undisturbed [OF assms(2-4) this restart(2)] show ?thesis .
qed

lemma claims_step_keeps: "claims_step cs a cs' \<Longrightarrow> leaves_alone claim a \<Longrightarrow> claim \<in> set cs \<Longrightarrow> claim \<in> set cs'"
  by (induction rule: claims_step.induct) auto

text \<open>A held claim and the actions that leave it alone are a frame of the driver's runs.\<close>

interpretation held: simulation_frame "driver_step lib config K" claims_step
    "\<lambda>w cs. usable lib config K \<and> cdi_laws lib specs \<and> cdi_frame lib specs \<and> holds (new_state lib config) K cs w"
    "leaves_alone claim" "\<lambda>cs. claim \<in> set cs" "undisturbed lib specs (new_state lib config) claim"
  for lib specs config K claim
  by unfold_locales (blast dest: driver_step_refines claims_step_keeps undisturbed_trans driver_step_undisturbed
      intro: undisturbed_same)+

section \<open>The lifetime of the example\<close>

lemma sample_usable: "usable sample_libraries sample_config {sample_claim}"
proof -
  have "results_of sample_state sample_claim \<noteq> []" "claim_UID sample_claim \<noteq> cdiCommonDeviceName"
    using sample_own_results by (auto simp: results_of_def sample_claim_def cdiCommonDeviceName_def)
  moreover have "codec_ok (checkpoint_codec sample_libraries)"
    by (simp add: sample_libraries_def sample_codec_ok)
  ultimately show ?thesis
    using sample_config_ok sample_claim_ok by (simp add: usable_def workload_def new_state_sample)
qed

lemma sample_holds: "holds (new_state sample_libraries sample_config) {sample_claim} [] sample_world"
  using sample_stored by (simp add: holds_def new_state_sample)

lemma driver_step_Restart: "\<exists>w'. driver_step lib config K w Restart w'"
  by (rule exI) (rule driver_step.restart [OF prod.collapse [symmetric]])

lemma driver_step_Prepare:
  "claim \<in> K \<Longrightarrow> \<exists>b w'. driver_step lib config K w (PrepareClaim claim b) w'"
  by (rule exI, rule exI) (rule driver_step.prepare [OF _ prod.collapse [symmetric]])

section \<open>Properties\<close>

text \<open>
  C5: Whatever the kubelet asks for and in whatever order, whichever calls of the system fail,
  and wherever the plugin is killed and started again, the driver refines the machine of the held
  claims: the checkpoint always has exactly the claims of a list that grows by a prepared claim,
  loses an unprepared one, is lost only to an unprepare that could not read the checkpoint, and
  survives restarts; a reported success always had its effect.
\<close>

theorem lifecycle_refines:
  assumes "usable lib config K" "holds (new_state lib config) K cs w" "driver_run lib config K w as w'"
  shows "\<exists>cs'. claims_run cs as cs' \<and> distinct cs' \<and> set cs' \<subseteq> K
    \<and> stored (new_state lib config) w' = Some (map checkpoint_entry cs')"
  using driver_run_refines [OF assms(3,1,2)] by (auto simp: holds_def)

theorem lifecycle_refines_witness:
  "\<exists>w'. driver_run sample_libraries sample_config {sample_claim} sample_world [PrepareClaim sample_claim True, Restart] w'
    \<and> stored (new_state sample_libraries sample_config) w' = Some [checkpoint_entry sample_claim]"
proof -
  obtain ds w1 where "Prepare sample_libraries sample_state sample_claim sample_world = (Ok ds, w1)"
    using sample_prepare by (elim exE)
  then have "driver_step sample_libraries sample_config {sample_claim} sample_world (PrepareClaim sample_claim True) w1"
    using driver_step.prepare [of sample_claim "{sample_claim}" sample_libraries sample_config sample_world "Ok ds" w1]
    by (simp add: new_state_sample succeeded_def)
  with runs.goes_on [OF runs.begins] have one:
    "driver_run sample_libraries sample_config {sample_claim} sample_world ([] @ [PrepareClaim sample_claim True]) w1" .
  obtain w2 where "driver_step sample_libraries sample_config {sample_claim} w1 Restart w2"
    using driver_step_Restart by blast
  with one have run: "driver_run sample_libraries sample_config {sample_claim} sample_world
      (([] @ [PrepareClaim sample_claim True]) @ [Restart]) w2"
    by (rule runs.goes_on)
  from lifecycle_refines [OF sample_usable sample_holds run] obtain cs' where
    "claims_run [] (([] @ [PrepareClaim sample_claim True]) @ [Restart]) cs'"
    and "stored (new_state sample_libraries sample_config) w2 = Some (map checkpoint_entry cs')" by blast
  then have "stored (new_state sample_libraries sample_config) w2 = Some [checkpoint_entry sample_claim]"
    unfolding claims_run_simps by (auto elim!: claims_stepE)
  with run show ?thesis by auto
qed

text \<open>
  C6: Once \<open>Prepare\<close> has returned devices for a claim, the claim stays usable for its pod: as
  long as it is not unprepared, no other claim with the same stable name is prepared or
  unprepared, and no unprepare runs without a readable checkpoint, no sequence of preparations
  (of this claim, too), unpreparations, failures, kills and restarts removes its entry, its
  directories or the CDI devices that were returned.
\<close>

theorem prepared_claim_stays:
  assumes "usable lib config K" "cdi_laws lib specs" "cdi_frame lib specs"
    and "holds (new_state lib config) K cs w" "claim \<in> K" "claim \<notin> set cs"
    and "Prepare lib (new_state lib config) claim w = (Ok pds, w1)"
    and "driver_run lib config K w1 as w'" "list_all (leaves_alone claim) as"
  shows "\<exists>cs' spec. stored (new_state lib config) w' = Some cs' \<and> checkpoint_entry claim \<in> set cs'
    \<and> dirs_ready (new_state lib config) claim w'
    \<and> claim_spec_of lib specs (cdi (new_state lib config)) (ext w') (claim_UID claim) = Some spec
    \<and> map cdi_Name (spec_Devices spec) = map (\<lambda>d. claim_UID claim @ ''-'' @ DeviceName d) pds"
proof -
  note u = usable_simps [OF assms(1)] and h = holds_simps [OF assms(4)]
  have new: "claim_UID claim \<notin> UID ` set (map checkpoint_entry cs)"
    using held_UID [OF u(4) h(3) assms(5)] assms(6) by simp
  from Prepare_fresh [OF u(3) workload_claim(1) [OF u(4) assms(5)] assms(2) h(1,2) new assms(7)]
  obtain alloc spec where alloc: "Allocation claim = Some alloc"
    and ready: "\<forall>r. last_of_request r (own_results (new_state lib config) (Results alloc)) \<longrightarrow>
        claim_ready (files w1) (claim_dir (claim_Name claim) (Request r)) (Device r)"
    and spec: "claim_spec_of lib specs (cdi (new_state lib config)) (ext w1) (claim_UID claim) = Some spec"
      "map cdi_Name (spec_Devices spec) = map (\<lambda>d. claim_UID claim @ ''-'' @ DeviceName d) pds"
    by blast
  have "dirs_ready (new_state lib config) claim w1"
    using ready alloc by (simp add: dirs_ready_def results_of_def)
  moreover obtain cs1 where cs1: "claims_step cs (PrepareClaim claim True) cs1" "holds (new_state lib config) K cs1 w1"
    using prepare_step_refines [OF u(3,4) assms(4,5,7)] by (auto simp: succeeded_def)
  then have in1: "claim \<in> set cs1"
    by (auto elim: claims_stepE(1))
  then have "undisturbed lib specs (new_state lib config) claim w1 w'"
    using held.runs_frame [OF assms(8) _ _ assms(9)] assms(1-3) cs1(2) by blast
  moreover obtain cs' where cs': "claims_run cs1 as cs'" "holds (new_state lib config) K cs' w'"
    using driver_run_refines [OF assms(8,1) cs1(2)] by blast
  moreover have "claim \<in> set cs'"
    by (rule held.runs_inv [OF cs'(1) assms(9) in1])
  ultimately show ?thesis
    using spec by (auto simp: undisturbed_def holds_def)
qed

theorem prepared_claim_stays_witness:
  "\<exists>b w1 w'. driver_run sample_libraries sample_config {sample_claim} w1 [PrepareClaim sample_claim b, Restart] w'
    \<and> dirs_ready sample_state sample_claim w'"
proof -
  obtain ds w1 where prep: "Prepare sample_libraries (new_state sample_libraries sample_config) sample_claim sample_world = (Ok ds, w1)"
    using sample_prepare unfolding new_state_sample by (elim exE)
  obtain b w2 where "driver_step sample_libraries sample_config {sample_claim} w1 (PrepareClaim sample_claim b) w2"
    using driver_step_Prepare [of sample_claim "{sample_claim}"] by blast
  with runs.goes_on [OF runs.begins] have one:
    "driver_run sample_libraries sample_config {sample_claim} w1 ([] @ [PrepareClaim sample_claim b]) w2" .
  obtain w' where "driver_step sample_libraries sample_config {sample_claim} w2 Restart w'"
    using driver_step_Restart by blast
  with one have run: "driver_run sample_libraries sample_config {sample_claim} w1
      (([] @ [PrepareClaim sample_claim b]) @ [Restart]) w'"
    by (rule runs.goes_on)
  have "sample_claim \<in> {sample_claim}" "sample_claim \<notin> set []"
    "list_all (leaves_alone sample_claim) (([] @ [PrepareClaim sample_claim b]) @ [Restart])" by simp_all
  from prepared_claim_stays [OF sample_usable sample_cdi_laws sample_cdi_frame sample_holds this(1,2) prep run this(3)]
  have "dirs_ready sample_state sample_claim w'"
    by (auto simp: new_state_sample)
  with run show ?thesis by auto
qed

end
