(* ===== verification/Driver_Returns.thy ===== *)
theory Driver_Returns
  imports Driver Claim_Lifecycle
begin

text \<open>
  That the operations return: in a process that is not killed, no preparation of an allocated
  claim panics or waits for ever, and an unprepare panics only after a read that failed.
\<close>

section \<open>Operations that return\<close>

text \<open>An environment that never kills the process.\<close>

definition alive :: "'x world \<Rightarrow> bool" where
  "alive w \<longleftrightarrow> (\<forall>n. fault_at (env w) n \<noteq> Some Kill)"

definition returns :: "('x, 'a) io \<Rightarrow> bool" where
  "returns m \<longleftrightarrow> (\<forall>w. alive w \<longrightarrow> (\<forall>a. fst (m w) \<noteq> Abort a) \<and> alive (snd (m w)))"

named_theorems return_rules

lemma alive_simps [simp]:
  "alive (tick w) = alive w" "alive (set_files m w) = alive w" "alive (append_file p d w) = alive w"
  "alive (w\<lparr>mutex := b\<rparr>) = alive w" "alive (w\<lparr>ext := x\<rparr>) = alive w"
  by (simp_all add: alive_def)

lemma returnsI: "(\<And>w a. alive w \<Longrightarrow> fst (m w) \<noteq> Abort a) \<Longrightarrow> (\<And>w. alive w \<Longrightarrow> alive (snd (m w))) \<Longrightarrow> returns m"
  by (simp add: returns_def)

lemma returnsD:
  assumes "returns m" "alive w" "m w = (r, w')"
  shows "alive w'" "r \<noteq> Abort a"
  using assms by (auto simp: returns_def)

lemma returns_pointwise: "(\<And>w. \<exists>n. returns n \<and> m w = n w) \<Longrightarrow> returns m"
  unfolding returns_def by metis

lemma returns_base [return_rules]: "returns (ok x)" "returns (fail e)" "returns (lift_result y)"
  by (auto simp: returns_def effect_simps lift_result_def split: sum.splits)

lemma returns_call [return_rules]:
  assumes "returns m" "\<And>x. returns (k x)"
  shows "returns (call m k)"
proof -
  have "(\<forall>a. fst (call m k w) \<noteq> Abort a) \<and> alive (snd (call m k w))" if "alive w" for w
    using assms that unfolding returns_def call_run
    by (cases "m w") (auto split: outcome.splits dest: spec [of _ w])
  then show ?thesis by (simp add: returns_def)
qed

lemma returns_on_err [return_rules]:
  assumes "returns m" "\<And>e. returns (h e)"
  shows "returns (on_err m h)"
proof -
  have "(\<forall>a. fst (on_err m h w) \<noteq> Abort a) \<and> alive (snd (on_err m h w))" if "alive w" for w
    using assms that unfolding returns_def on_err_run
    by (cases "m w") (auto split: outcome.splits dest: spec [of _ w])
  then show ?thesis by (simp add: returns_def)
qed

lemma returns_wrap [return_rules]: "returns m \<Longrightarrow> returns (wrap f m)"
  unfolding wrap_def by (intro return_rules)

lemma returns_for_each [return_rules]: "(\<And>x. x \<in> set xs \<Longrightarrow> returns (f x)) \<Longrightarrow> returns (for_each f xs)"
  by (induction xs) (auto intro: return_rules)

lemma returns_syscall [return_rules]:
  assumes "\<And>w. alive (d w) = alive w" "\<And>w a. fst (m w) \<noteq> Abort a" "\<And>w. alive w \<Longrightarrow> alive (snd (m w))"
  shows "returns (syscall err d m)"
  using assms unfolding returns_def syscall_def by (auto simp: alive_def split: option.splits)

lemma returns_extern [return_rules]: "returns (extern f)"
  by (auto simp: returns_def extern_def alive_def split: prod.splits)

lemma returns_extern_err [return_rules]: "returns (extern_err f)"
  unfolding extern_err_def by (auto intro!: return_rules split: option.splits)

lemma returns_os_Getenv [return_rules]: "returns (os_Getenv key)"
  by (simp add: returns_def os_Getenv_def)

lemma returns_range_perm [return_rules]: "returns (range_perm n)"
  by (simp add: returns_def range_perm_def Let_def)

section \<open>The system calls\<close>

lemma returns_os [return_rules]:
  "returns (os_ReadFile s)" "returns (os_mkdir s p perm)" "returns (change_attrs oper s f)"
  "returns (open_trunc s perm)" "returns (file_write s d)" "returns (os_RemoveAll s)"
  "returns (file_sync s)" "returns (file_close s)" "returns (os_Rename s t)" "returns (os_Stat s)"
  unfolding os_ReadFile_def os_mkdir_def change_attrs_def open_trunc_def file_write_def os_RemoveAll_def
    file_sync_def file_close_def os_Rename_def os_Stat_def
  by (intro returns_syscall; auto simp: ok_def split: option.splits node.splits)+

lemma returns_os_CreateTemp [return_rules]: "returns (os_CreateTemp dir pre)"
  unfolding os_CreateTemp_def Let_def
  by (rule returns_pointwise, rule exI, rule conjI [OF _ refl], rule returns_syscall) auto

lemma returns_mkdir_from: "returns (mkdir_from s p cs perm :: ('x, unit) io)"
proof (induction cs arbitrary: p)
  case (Cons c cs)
  show ?case
  proof (rule returns_pointwise)
    fix w :: "'x world"
    have "returns (call (os_mkdir s (p @ [c]) perm) (\<lambda>_. mkdir_from s (p @ [c]) cs perm) :: ('x, unit) io)"
      by (intro returns_call returns_os Cons.IH)
    then show "\<exists>n. returns n \<and> mkdir_from s p (c # cs) perm w = n w"
      using Cons.IH [of "p @ [c]"] returns_base(2) [of "PathError ''mkdir'' s ENOTDIR"]
      by (auto simp: fail_def)
  qed
qed (simp add: return_rules)

lemma returns_os_files [return_rules]:
  "returns (os_MkdirAll s perm)" "returns (os_WriteFile s d perm)" "returns (os_Chown s u g)" "returns (os_Chmod s perm)"
  unfolding os_MkdirAll_def os_WriteFile_def os_Chown_def os_Chmod_def by (intro returns_mkdir_from return_rules)+

section \<open>The operations of the driver\<close>

lemma returns_readCheckpoint [return_rules]: "returns (readCheckpoint path dec)"
  unfolding readCheckpoint_def by (auto intro!: return_rules split: option.splits sum.splits)

lemma returns_with_close [return_rules]:
  assumes "returns m"
  shows "returns (with_close tmp m)"
proof (rule returns_pointwise)
  fix w
  show "\<exists>n. returns n \<and> with_close tmp m w = n w"
  proof (intro exI conjI)
    show "returns (call (on_err (call m (\<lambda>u. ok None)) (\<lambda>e. ok (Some e)))
      (\<lambda>x. case x of None \<Rightarrow> wrap (Wrapf ''close temp file'') (file_close tmp)
        | Some e \<Rightarrow> call (on_err (file_close tmp) (\<lambda>_. ok ())) (\<lambda>_. fail e)))"
      using assms by (auto intro!: return_rules split: option.splits)
  qed (auto simp: with_close_def effect_simps split: prod.splits outcome.splits)
qed

lemma returns_writeCheckpoint [return_rules]: "returns (writeCheckpoint path enc c)"
  unfolding writeCheckpoint_def Let_def by (intro return_rules)

lemma returns_CDI [return_rules]:
  "returns (CreateClaimSpecFile lib h uid ds)" "returns (DeleteClaimSpecFile lib h uid)"
  "returns (CreateCommonSpecFile lib h)" "returns (NewCDIHandler lib dir name class)"
  unfolding CreateClaimSpecFile_def DeleteClaimSpecFile_def CreateCommonSpecFile_def NewCDIHandler_def Let_def
  by (intro return_rules)+

lemma returns_claim_directory [return_rules]:
  "returns (createClaimDirectory lib n r d)" "returns (deleteClaimDirectory n r)"
  unfolding createClaimDirectory_def deleteClaimDirectory_def setup_dir_def try_SetFileLabel_def Let_def
  by (intro return_rules)+

lemma returns_computeDeviceConfig [return_rules]: "returns (computeDeviceConfig lib s claim)"
  unfolding computeDeviceConfig_def Let_def by (auto intro!: return_rules split: option.splits)

lemma returns_publish_status [return_rules]: "returns (publish_status lib s claim rs)"
  unfolding publish_status_def updateDeviceStatus_def Let_def by (auto intro!: return_rules split: option.splits)

lemma returns_prepareDevices:
  "Allocation claim = Some alloc \<Longrightarrow> returns (prepareDevices lib s claim)"
  unfolding prepareDevices_def by (auto intro!: return_rules)

lemma returns_prepare_body:
  assumes "Allocation claim = Some alloc"
  shows "returns (prepare_body lib s claim)"
  unfolding prepare_body_eq prepare_anew_def restoreClaimFromCheckpoint_def
  by (auto intro!: return_rules returns_prepareDevices assms)

lemma returns_unprepare_from: "returns (unprepare_from lib s uid c)"
  unfolding unprepare_from_def unprepareDevices_eq
  by (auto intro!: return_rules split: option.splits)

text \<open>With the mutex free, the operations behind it return, and leave it free.\<close>

lemma locked_returns:
  assumes "locked m w = (r, w')" "returns m" "alive w" "\<not> mutex w"
  shows "r \<noteq> Abort a" "alive w'" "\<not> mutex w'"
  using assms unfolding locked_def returns_def by (auto split: prod.splits) (metis alive_simps(4) fst_conv snd_conv)+


lemma Prepare_returns:
  assumes "Prepare lib s claim w = (r, w')" "alive w" "\<not> mutex w" "Allocation claim \<noteq> None"
  shows "r \<noteq> Abort a" "alive w'" "\<not> mutex w'"
proof -
  obtain alloc where "Allocation claim = Some alloc"
    using assms(4) by blast
  from locked_returns [OF assms(1) [unfolded Prepare_def] returns_prepare_body [OF this] assms(2,3)]
  show "r \<noteq> Abort a" "alive w'" "\<not> mutex w'" .
qed

lemma unprepare_body_returns:
  assumes "unprepare_body lib s uid w = (r, w')" "alive w"
  shows "alive w'"
    and "r = Abort a \<Longrightarrow> a = NilDeref \<and> (\<exists>e. fst (readCheckpoint (checkpointPath s) (checkpointDecoder s) w) = Err e)"
proof -
  have "alive w' \<and> (\<forall>a. r = Abort a \<longrightarrow> a = NilDeref
      \<and> (\<exists>e. fst (readCheckpoint (checkpointPath s) (checkpointDecoder s) w) = Err e))"
    using assms(1)
  proof (cases rule: unprepare_body_cases)
    case (ended a)
    with returnsD [OF returns_readCheckpoint assms(2) ended(1)] show ?thesis by simp
  next
    case (unreadable e w1 r1)
    from returnsD [OF returns_writeCheckpoint returnsD(1) [OF returns_readCheckpoint assms(2) unreadable(1)] unreadable(4)]
    show ?thesis using unreadable(1,5) by (auto split: outcome.splits)
  next
    case (readable c w1)
    have "returns (call (unprepare_from lib s uid c) (\<lambda>_. call (wrap (Errorf ''unable to sync to checkpoint'')
        (writeCheckpoint (checkpointPath s) (checkpointEncoder s) (removeClaimFromCheckpoint c uid))) (\<lambda>_. ok ())))"
      by (intro returns_unprepare_from return_rules)
    from returnsD [OF this returnsD(1) [OF returns_readCheckpoint assms(2) readable(1)] readable(5)]
    show ?thesis by simp
  qed
  then show "alive w'" "r = Abort a \<Longrightarrow> a = NilDeref \<and> (\<exists>e. fst (readCheckpoint (checkpointPath s) (checkpointDecoder s) w) = Err e)"
    by blast+
qed

lemma Unprepare_returns:
  assumes "Unprepare lib s uid w = (r, w')" "alive w" "\<not> mutex w"
  shows "alive w'" "\<not> mutex w'" "r = Abort a \<Longrightarrow> a = NilDeref \<and> \<not> reads_checkpoint s w"
proof -
  obtain wa where body: "unprepare_body lib s uid (w\<lparr>mutex := True\<rparr>) = (r, wa)" and w': "w' = wa\<lparr>mutex := False\<rparr>"
    using assms(3,1) by (rule Unprepare_body)
  from unprepare_body_returns [OF body] assms(2) w'
  show "alive w'" "\<not> mutex w'" "r = Abort a \<Longrightarrow> a = NilDeref \<and> \<not> reads_checkpoint s w"
    by (auto simp: reads_checkpoint_def)
qed

lemma prepare_each_returns:
  assumes "prepare_each lib d claims m w = (r, w')" "alive w" "\<not> mutex w" "None \<notin> Allocation ` set claims"
  shows "(\<exists>m'. r = Ok m') \<and> alive w' \<and> \<not> mutex w'"
  using assms
proof (induction claims arbitrary: m w)
  case (Cons c cs)
  obtain r1 w1 where p: "Prepare lib (state d) c w = (r1, w1)" by fastforce
  have "Allocation c \<noteq> None"
    using Cons.prems(4) by auto
  note one = Prepare_returns [OF p Cons.prems(2,3) this]
  then obtain x where "prepareResourceClaim lib d c w = (Ok x, w1)"
    using p one(1) by (cases r1) (auto simp: prepareResourceClaim_def effect_simps)
  with Cons.prems(1) have "prepare_each lib d cs (fmupd (claim_UID c) x m) w1 = (r, w')"
    by (simp add: effect_simps)
  from Cons.IH [OF this one(2,3)] Cons.prems(4) show ?case by auto
qed (auto simp: ok_def)

text \<open>The world that an unprepare left that panicked because it could not read the checkpoint.\<close>

definition blind_panic :: "('x, 'o) libraries \<Rightarrow> 'o DeviceState \<Rightarrow> UID \<Rightarrow> 'x world \<Rightarrow> bool" where
  "blind_panic lib s uid w' \<longleftrightarrow> (\<exists>w. Unprepare lib s uid w = (Abort NilDeref, w') \<and> \<not> reads_checkpoint s w)"

lemma unprepare_each_returns:
  assumes "unprepare_each lib d objs m w = (r, w')" "alive w" "\<not> mutex w"
  shows "((\<exists>m'. r = Ok m') \<or> r = Abort NilDeref \<and> (\<exists>c \<in> set objs. blind_panic lib (state d) (obj_UID c) w'))
    \<and> alive w' \<and> \<not> mutex w'"
  using assms
proof (induction objs arbitrary: m w)
  case (Cons c cs)
  obtain r1 w1 where p: "Unprepare lib (state d) (obj_UID c) w = (r1, w1)" by fastforce
  note one = Unprepare_returns [OF p Cons.prems(2,3)]
  show ?case
  proof (cases r1)
    case (Abort a)
    with p one(3) have "blind_panic lib (state d) (obj_UID c) w1"
      by (auto simp: blind_panic_def)
    with Cons.prems(1) p one Abort show ?thesis
      by (auto simp: unprepareResourceClaim_def effect_simps)
  next
    case (Ok u)
    with p have "unprepareResourceClaim lib d c w = (Ok None, w1)"
      by (simp add: unprepareResourceClaim_def effect_simps)
    with Cons.prems(1) have "unprepare_each lib d cs (fmupd (obj_UID c) None m) w1 = (r, w')"
      by (simp add: effect_simps)
    from Cons.IH [OF this one(1,2)] show ?thesis by auto
  next
    case (Err e)
    with p have "\<exists>x. unprepareResourceClaim lib d c w = (Ok x, w1)"
      by (simp add: unprepareResourceClaim_def effect_simps)
    then obtain x where "unprepareResourceClaim lib d c w = (Ok x, w1)" by blast
    with Cons.prems(1) have "unprepare_each lib d cs (fmupd (obj_UID c) x m) w1 = (r, w')"
      by (simp add: effect_simps)
    from Cons.IH [OF this one(1,2)] show ?thesis by auto
  qed
qed (auto simp: ok_def)

section \<open>Properties\<close>

text \<open>
  C32: The driver answers: in a process that is not killed, with the mutex free, a batch of
  allocated claims is prepared to its end, whatever fails on the way; and an unprepare returns,
  too, except that it panics after it could not read the checkpoint. Neither waits for ever, and
  both leave the mutex free, panics included.
\<close>

theorem driver_answers:
  assumes "alive w" "\<not> mutex w" "None \<notin> Allocation ` set claims"
  shows "(\<exists>m w'. PrepareResourceClaims lib d claims w = (Ok m, w') \<and> fmdom' m = claim_UID ` set claims \<and> \<not> mutex w')
    \<and> (case Unprepare lib (state d) uid w of
        (Abort a, w') \<Rightarrow> a = NilDeref \<and> \<not> reads_checkpoint (state d) w \<and> \<not> mutex w'
      | (r, w') \<Rightarrow> \<not> mutex w')"
proof
  obtain r w' where run: "prepare_each lib d claims fmempty w = (r, w')" by fastforce
  from prepare_each_returns [OF run assms] obtain m where "r = Ok m" "\<not> mutex w'" by blast
  with run prepare_each_dom [of lib d claims fmempty w m w']
  show "\<exists>m w'. PrepareResourceClaims lib d claims w = (Ok m, w') \<and> fmdom' m = claim_UID ` set claims \<and> \<not> mutex w'"
    by (simp add: PrepareResourceClaims_def)
next
  obtain r w' where "Unprepare lib (state d) uid w = (r, w')" by fastforce
  with Unprepare_returns [OF this assms(1,2)] show "case Unprepare lib (state d) uid w of
        (Abort a, w') \<Rightarrow> a = NilDeref \<and> \<not> reads_checkpoint (state d) w \<and> \<not> mutex w'
      | (r, w') \<Rightarrow> \<not> mutex w'"
    by (auto split: outcome.splits)
qed

theorem driver_answers_witness:
  "\<exists>m w'. PrepareResourceClaims sample_libraries sample_driver [sample_claim] failing_world = (Ok m, w')
    \<and> fmdom' m = {''123''}"
proof -
  have "alive failing_world" "\<not> mutex failing_world" "None \<notin> Allocation ` set [sample_claim]"
    by (auto simp: alive_def failing_world_def sample_claim_def)
  from driver_answers [OF this, of sample_libraries sample_driver "''123''"] show ?thesis by auto
qed

end
