(* ===== verification/Plugin_Main.thy ===== *)
theory Plugin_Main
  imports Driver_Returns
begin

text \<open>
  The plugin (\<open>main.go\<close>): its application with the flags, the action that makes the client and
  picks the profile, and \<open>RunPlugin\<close>, which makes the directories, starts the driver, and waits
  until a signal or a fatal background error ends it. What the kubelet plugin library calls while
  the plugin waits is a list of events.
\<close>

section \<open>Printing\<close>

text \<open>
  The verb \<open>%q\<close>: quotes, backslashes and control characters are escaped. Bytes outside ASCII stay,
  as they do in printable text.
\<close>

definition quote_byte :: "char \<Rightarrow> string" where
  "quote_byte c =
    (if byte c = 34 \<or> byte c = 92 then [CHR 0x5C, c]
     else if byte c = 7 then [CHR 0x5C, CHR ''a'']
     else if byte c = 8 then [CHR 0x5C, CHR ''b'']
     else if byte c = 12 then [CHR 0x5C, CHR ''f'']
     else if byte c = 10 then [CHR 0x5C, CHR ''n'']
     else if byte c = 13 then [CHR 0x5C, CHR ''r'']
     else if byte c = 9 then [CHR 0x5C, CHR ''t'']
     else if byte c = 11 then [CHR 0x5C, CHR ''v'']
     else if byte c < 32 \<or> byte c = 127 then [CHR 0x5C, CHR ''x'', hex_digit (byte c div 16), hex_digit (byte c mod 16)]
     else [c])"

definition format_q :: "string \<Rightarrow> string" where
  "format_q s = [CHR 0x22] @ concat (map quote_byte s) @ [CHR 0x22]"

definition format_list :: "string list \<Rightarrow> string" where
  "format_list ss = ''['' @ Join ss '' '' @ '']''"

section \<open>The application\<close>

record ('s, 'v, 'x) cli_App =
  app_Name :: string
  app_Usage :: string
  app_ArgsUsage :: string
  app_HideHelpCommand :: bool
  app_Flags :: "('s, 'v) cli_flag list"
  app_Before :: "string list \<Rightarrow> ('x, unit) io"
  app_Action :: "'s \<Rightarrow> ('x, unit) io"

text \<open>The flags of the plugin; the two directories are constants of the kubelet plugin library.\<close>

definition plugin_flags :: "string \<Rightarrow> string \<Rightarrow> (Flags, 'v) cli_flag list" where
  "plugin_flags KubeletRegistryDir KubeletPluginsDir =
    [\<lparr>cli_Category = [], cli_Name = ''node-name'', cli_Usage = ''The name of the node to be worked on.'',
      cli_Required = True, cli_Value = StringFlag [] (\<lambda>v f. f\<lparr>flag_nodeName := v\<rparr>), cli_EnvVars = [''NODE_NAME'']\<rparr>,
     \<lparr>cli_Category = [], cli_Name = ''cdi-root'',
      cli_Usage = ''Absolute path to the directory where CDI files will be generated.'',
      cli_Required = False, cli_Value = StringFlag ''/etc/cdi'' (\<lambda>v f. f\<lparr>flag_cdiRoot := v\<rparr>), cli_EnvVars = [''CDI_ROOT'']\<rparr>,
     \<lparr>cli_Category = [], cli_Name = ''num-devices'', cli_Usage = ''The number of devices to be generated.'',
      cli_Required = False, cli_Value = IntFlag 10 (\<lambda>v f. f\<lparr>flag_numDevices := v\<rparr>), cli_EnvVars = [''NUM_DEVICES'']\<rparr>,
     \<lparr>cli_Category = [], cli_Name = ''kubelet-registrar-directory-path'',
      cli_Usage = ''Absolute path to the directory where kubelet stores plugin registrations.'',
      cli_Required = False,
      cli_Value = StringFlag KubeletRegistryDir (\<lambda>v f. f\<lparr>flag_kubeletRegistrarDirectoryPath := v\<rparr>),
      cli_EnvVars = [''KUBELET_REGISTRAR_DIRECTORY_PATH'']\<rparr>,
     \<lparr>cli_Category = [], cli_Name = ''kubelet-plugins-directory-path'',
      cli_Usage = ''Absolute path to the directory where kubelet stores plugin data.'',
      cli_Required = False,
      cli_Value = StringFlag KubeletPluginsDir (\<lambda>v f. f\<lparr>flag_kubeletPluginsDirectoryPath := v\<rparr>),
      cli_EnvVars = [''KUBELET_PLUGINS_DIRECTORY_PATH'']\<rparr>,
     \<lparr>cli_Category = [], cli_Name = ''healthcheck-port'',
      cli_Usage = ''Port to start a gRPC healthcheck service. When positive, a literal port number. When zero, a random port is allocated. When negative, the healthcheck service is disabled.'',
      cli_Required = False, cli_Value = IntFlag (- 1) (\<lambda>v f. f\<lparr>flag_healthcheckPort := v\<rparr>),
      cli_EnvVars = [''HEALTHCHECK_PORT'']\<rparr>,
     \<lparr>cli_Category = [], cli_Name = ''device-profile'',
      cli_Usage = ''Name of the device profile. Valid values are '' @ format_list (map format_q validProfileNames) @ ''.'',
      cli_Required = False, cli_Value = StringFlag ProfileName (\<lambda>v f. f\<lparr>flag_profile := v\<rparr>),
      cli_EnvVars = [''DEVICE_PROFILE'']\<rparr>,
     \<lparr>cli_Category = [], cli_Name = ''driver-name'',
      cli_Usage = ''Name of the DRA driver. Its default is derived from the device profile.'',
      cli_Required = False, cli_Value = StringFlag [] (\<lambda>v f. f\<lparr>flag_driverName := v\<rparr>), cli_EnvVars = [''DRIVER_NAME'']\<rparr>,
     \<lparr>cli_Category = [], cli_Name = ''pod-uid'',
      cli_Usage = ''UID of the pod (used for seamless upgrades to create unique socket names).'',
      cli_Required = False, cli_Value = StringFlag [] (\<lambda>v f. f\<lparr>flag_podUID := v\<rparr>), cli_EnvVars = [''POD_UID'']\<rparr>]"

definition app_before :: "('x, 'v) logging_library \<Rightarrow> string list \<Rightarrow> ('x, unit) io" where
  "app_before logs args =
    (if 0 < length args then fail (ErrorString (''arguments not supported: '' @ format_list args))
     else LoggingConfig_Apply logs)"

section \<open>RunPlugin\<close>

text \<open>The directories: the error of \<open>os.Stat\<close> is nil in the last branch, and is what it prints.\<close>

definition make_directories :: "('x, 'o) Config \<Rightarrow> ('x, unit) io" where
  "make_directories config =
    call (os_MkdirAll (DriverPluginPath config) 488)
    (\<lambda>_. call (on_err (call (os_Stat (flag_cdiRoot (flags config))) (\<lambda>isDir. ok (Inr isDir))) (\<lambda>err. ok (Inl err)))
    (\<lambda>info. case info of
       Inl err \<Rightarrow> if os_IsNotExist err then os_MkdirAll (flag_cdiRoot (flags config)) 488 else fail err
     | Inr isDir \<Rightarrow> if \<not> isDir
         then fail (ErrorString (''path for cdi file generation is not a directory: '' @ [CHR 0x27] @ ''<nil>'' @ [CHR 0x27]))
         else ok ()))"

text \<open>
  While the plugin waits for its context to be done, the library calls the driver, one call at a
  time, or reports an error; a signal cancels the context, too. The result is the cause of the
  end; without a cause yet, the plugin goes on waiting.
\<close>

datatype event =
    PrepareBatch "ResourceClaim list"
  | UnprepareBatch "NamespacedObject list"
  | BackgroundError go_error
  | Signal

definition context_Canceled :: go_error where
  "context_Canceled = Sentinel ''context canceled''"

fun wait_for_done :: "('x, 'o) libraries \<Rightarrow> 'o driver \<Rightarrow> event list \<Rightarrow> ('x, go_error) io" where
  "wait_for_done lib d [] = abort Waiting"
| "wait_for_done lib d (PrepareBatch claims # es) =
    call (PrepareResourceClaims lib d claims) (\<lambda>_. wait_for_done lib d es)"
| "wait_for_done lib d (UnprepareBatch claims # es) =
    call (UnprepareResourceClaims lib d claims) (\<lambda>_. wait_for_done lib d es)"
| "wait_for_done lib d (BackgroundError err # es) =
    (case HandleError True err of None \<Rightarrow> wait_for_done lib d es | Some cause \<Rightarrow> ok cause)"
| "wait_for_done lib d (Signal # es) = ok context_Canceled"

text \<open>The cause is logged when it is not the cancellation by a signal, as is an error of the shutdown.\<close>

definition RunPlugin :: "('x, 'o) libraries \<Rightarrow> 'x services \<Rightarrow> 'x kubeletplugin \<Rightarrow> ('x, 'o) Config \<Rightarrow> event list
    \<Rightarrow> ('x, unit) io" where
  "RunPlugin lib svc kp config events =
    call (make_directories config)
    (\<lambda>_. call (NewDriver lib svc kp config)
    (\<lambda>driver. call (wait_for_done lib driver events)
    (\<lambda>cause. on_err (Shutdown svc kp driver) (\<lambda>err. ok ()))))"

definition app_action :: "('x, 'r, 'c) client_library \<Rightarrow> ('c \<Rightarrow> ('x, 'o) libraries) \<Rightarrow> 'x services \<Rightarrow> 'x kubeletplugin
    \<Rightarrow> event list \<Rightarrow> Flags \<Rightarrow> ('x, unit) io" where
  "app_action client libs svc kp events f =
    call (wrap (Wrapf ''create client'') (NewClientSets client (flag_kubeClientConfig f)))
    (\<lambda>clientSets.
      let f = (if flag_driverName f = [] then f\<lparr>flag_driverName := flag_profile f @ ''.example.com''\<rparr> else f) in
      case map_of validProfiles (flag_profile f) of
        None \<Rightarrow> fail (ErrorString (''invalid device profile '' @ format_q (flag_profile f)
          @ '', valid profiles are '' @ format_list (map format_q validProfileNames)))
      | Some newProfile \<Rightarrow> RunPlugin (libs (Core clientSets)) svc kp \<lparr>flags = f, profile = newProfile f\<rparr> events)"

definition newApp :: "('x, 'v) logging_library \<Rightarrow> string \<Rightarrow> string \<Rightarrow> ('x, 'r, 'c) client_library
    \<Rightarrow> ('c \<Rightarrow> ('x, 'o) libraries) \<Rightarrow> 'x services \<Rightarrow> 'x kubeletplugin \<Rightarrow> event list \<Rightarrow> ('x, (Flags, 'v, 'x) cli_App) io" where
  "newApp logs registryDir pluginsDir client libs svc kp events =
    call (NewLoggingConfig logs)
    (\<lambda>_. let cliFlags = plugin_flags registryDir pluginsDir;
          cliFlags = cliFlags @ KubeClientConfig_Flags (\<lambda>g f. f\<lparr>flag_kubeClientConfig := g (flag_kubeClientConfig f)\<rparr>) in
     call (LoggingConfig_Flags logs)
     (\<lambda>loggingFlags. let cliFlags = cliFlags @ loggingFlags in
      ok \<lparr>app_Name = ''dra-example-kubeletplugin'',
        app_Usage = ''dra-example-kubeletplugin implements a DRA driver plugin.'', app_ArgsUsage = '' '',
        app_HideHelpCommand = True, app_Flags = cliFlags, app_Before = app_before logs,
        app_Action = app_action client libs svc kp events\<rparr>))"

text \<open>
  \<open>main\<close>: running an application is third-party code. The result is the exit code; the message
  on the standard error is left out.
\<close>

definition main_exit :: "((Flags, 'v, 'x) cli_App \<Rightarrow> string list \<Rightarrow> ('x, unit) io) \<Rightarrow> ('x, 'v) logging_library \<Rightarrow> string
    \<Rightarrow> string \<Rightarrow> ('x, 'r, 'c) client_library \<Rightarrow> ('c \<Rightarrow> ('x, 'o) libraries) \<Rightarrow> 'x services \<Rightarrow> 'x kubeletplugin
    \<Rightarrow> event list \<Rightarrow> string list \<Rightarrow> ('x, nat) io" where
  "main_exit app_Run logs registryDir pluginsDir client libs svc kp events args =
    call (newApp logs registryDir pluginsDir client libs svc kp events)
    (\<lambda>app. on_err (call (app_Run app args) (\<lambda>_. ok 0)) (\<lambda>err. ok 1))"

section \<open>The flags\<close>

text \<open>
  What the package of the command line stores: each flag's destination gets the value that the
  command line or the environment gave for the name of the flag, or else the default of the flag. A
  generic flag is its own destination.
\<close>

definition store_given :: "(string \<rightharpoonup> string) \<Rightarrow> (string \<rightharpoonup> int) \<Rightarrow> (string \<rightharpoonup> float64) \<Rightarrow> ('s, 'v) cli_flag \<Rightarrow> 's \<Rightarrow> 's" where
  "store_given strs ints floats fl =
    (case cli_Value fl of
       StringFlag d destination \<Rightarrow> destination (case strs (cli_Name fl) of None \<Rightarrow> d | Some v \<Rightarrow> v)
     | IntFlag d destination \<Rightarrow> destination (case ints (cli_Name fl) of None \<Rightarrow> d | Some v \<Rightarrow> v)
     | Float64Flag d destination \<Rightarrow> destination (case floats (cli_Name fl) of None \<Rightarrow> d | Some v \<Rightarrow> v)
     | GenericFlag v \<Rightarrow> id)"

text \<open>The twelve flags of the plugin and the client; those of the logging libraries come after them.\<close>

lemma plugin_flags_env:
  "list_all env_of_name (plugin_flags registryDir pluginsDir)"
  by (simp add: plugin_flags_def env_of_name_def upper_simps)

definition own_flags :: "string \<Rightarrow> string \<Rightarrow> (Flags, 'v) cli_flag list" where
  "own_flags registryDir pluginsDir = plugin_flags registryDir pluginsDir
    @ KubeClientConfig_Flags (\<lambda>g f. f\<lparr>flag_kubeClientConfig := g (flag_kubeClientConfig f)\<rparr>)"

lemma LoggingConfig_Flags_generic:
  assumes "LoggingConfig_Flags lib w = (Ok fs, w')"
  shows "list_all env_of_name fs \<and> list_all (\<lambda>fl. \<exists>v. cli_Value fl = GenericFlag v) fs \<and> list_all (\<lambda>fl. \<not> cli_Required fl) fs"
  using assms env_LoggingConfig_Flags [OF assms]
  by (auto simp: LoggingConfig_Flags_def Let_def list_all_iff pflagToCLI_def elim!: call_OkE)

lemma newApp_Ok:
  assumes "newApp logs registryDir pluginsDir client libs svc kp events w = (Ok app, w')"
  obtains logging where "app_Flags app = own_flags registryDir pluginsDir @ logging" "list_all env_of_name logging"
    "list_all (\<lambda>fl. \<exists>v. cli_Value fl = GenericFlag v) logging" "list_all (\<lambda>fl. \<not> cli_Required fl) logging"
  using assms unfolding newApp_def Let_def own_flags_def
  by (auto elim!: call_OkE dest!: LoggingConfig_Flags_generic)

text \<open>What each of the twelve flags stores, without the texts.\<close>

definition or_default :: "'a \<Rightarrow> 'a option \<Rightarrow> 'a" where
  "or_default d v = (case v of None \<Rightarrow> d | Some x \<Rightarrow> x)"

lemma own_flags_store:
  "map (store_given strs ints floats) (own_flags registryDir pluginsDir) =
    [\<lambda>f. f\<lparr>flag_nodeName := or_default [] (strs ''node-name'')\<rparr>,
     \<lambda>f. f\<lparr>flag_cdiRoot := or_default ''/etc/cdi'' (strs ''cdi-root'')\<rparr>,
     \<lambda>f. f\<lparr>flag_numDevices := or_default 10 (ints ''num-devices'')\<rparr>,
     \<lambda>f. f\<lparr>flag_kubeletRegistrarDirectoryPath := or_default registryDir (strs ''kubelet-registrar-directory-path'')\<rparr>,
     \<lambda>f. f\<lparr>flag_kubeletPluginsDirectoryPath := or_default pluginsDir (strs ''kubelet-plugins-directory-path'')\<rparr>,
     \<lambda>f. f\<lparr>flag_healthcheckPort := or_default (- 1) (ints ''healthcheck-port'')\<rparr>,
     \<lambda>f. f\<lparr>flag_profile := or_default ''network'' (strs ''device-profile'')\<rparr>,
     \<lambda>f. f\<lparr>flag_driverName := or_default [] (strs ''driver-name'')\<rparr>,
     \<lambda>f. f\<lparr>flag_podUID := or_default [] (strs ''pod-uid'')\<rparr>,
     \<lambda>f. f\<lparr>flag_kubeClientConfig := (flag_kubeClientConfig f)\<lparr>KubeConfig := or_default [] (strs ''kubeconfig'')\<rparr>\<rparr>,
     \<lambda>f. f\<lparr>flag_kubeClientConfig := (flag_kubeClientConfig f)\<lparr>KubeAPIQPS := or_default 0x4014000000000000 (floats ''kube-api-qps'')\<rparr>\<rparr>,
     \<lambda>f. f\<lparr>flag_kubeClientConfig := (flag_kubeClientConfig f)\<lparr>KubeAPIBurst := or_default 10 (ints ''kube-api-burst'')\<rparr>\<rparr>]"
  by (simp add: own_flags_def plugin_flags_def KubeClientConfig_Flags_def store_given_def or_default_def ProfileName_def)

lemma own_flags_commute:
  assumes "x \<in> set (own_flags r p)" "y \<in> set (own_flags r p)"
  shows "store_given strs ints floats x (store_given strs ints floats y f)
    = store_given strs ints floats y (store_given strs ints floats x f)"
proof -
  let ?store = "store_given strs ints floats"
  have "list_all (\<lambda>g. list_all (\<lambda>h. g (h f) = h (g f)) (map ?store (own_flags r p))) (map ?store (own_flags r p))"
    unfolding own_flags_store by simp
  with assms show ?thesis unfolding list_all_iff by auto
qed

section \<open>The directories\<close>

lemma os_Stat_Ok: "os_Stat s w = (Ok b, w') \<Longrightarrow> files w' = files w \<and> (b \<longleftrightarrow> is_dir (files w) (elems s))"
  by (auto simp: os_Stat_def dest!: syscall_Ok split: if_splits)

lemma make_directories_Ok:
  assumes "make_directories config w = (Ok u, w')"
  shows "is_dir (files w') (elems (DriverPluginPath config))" "is_dir (files w') (elems (flag_cdiRoot (flags config)))"
proof -
  let ?root = "flag_cdiRoot (flags config)"
  from assms obtain w1 info w2 where mk: "os_MkdirAll (DriverPluginPath config) 488 w = (Ok (), w1)"
    and st: "on_err (call (os_Stat ?root) (\<lambda>isDir. ok (Inr isDir))) (\<lambda>err. ok (Inl err)) w1 = (Ok info, w2)"
    and rest: "(case info of
       Inl err \<Rightarrow> if os_IsNotExist err then os_MkdirAll ?root 488 else fail err
     | Inr isDir \<Rightarrow> if \<not> isDir
         then fail (ErrorString (''path for cdi file generation is not a directory: '' @ [CHR 0x27] @ ''<nil>'' @ [CHR 0x27]))
         else ok ()) w2 = (Ok u, w')"
    unfolding make_directories_def by (auto elim!: call_OkE)
  have f: "files w2 = files w1"
    using st touches_nothing [OF steps_inD [OF touches_os_Stat prod.collapse [symmetric]], of ?root w1]
    by (auto simp: effect_simps split: prod.splits outcome.splits)
  have d1: "is_dir (files w1) (elems (DriverPluginPath config))"
    using os_MkdirAll_Ok [OF mk] by simp
  have g: "grows w2 w'"
    using rest steps_inD [OF grows_os_MkdirAll, of ?root 488 w2 "Ok u" w']
    by (auto simp: growing.step_refl split: sum.splits if_splits)
  show "is_dir (files w') (elems (DriverPluginPath config))"
    using grows_is_dir [OF g] d1 f by simp
  show "is_dir (files w') (elems ?root)"
  proof (cases info)
    case (Inl err)
    with rest show ?thesis
      by (auto intro: os_MkdirAll_Ok split: if_splits)
  next
    case (Inr isDir)
    with st have "os_Stat ?root w1 = (Ok isDir, w2)"
      by (auto simp: effect_simps split: prod.splits outcome.splits)
    from os_Stat_Ok [OF this] rest Inr show ?thesis
      by (auto split: if_splits)
  qed
qed

lemma touches_make_directories:
  "steps_in (touches (\<lambda>p. prefix p (elems (DriverPluginPath config)) \<or> prefix p (elems (flag_cdiRoot (flags config)))))
    (make_directories config)"
  unfolding make_directories_def
  by (auto intro!: touch.in_rules touches_os_MkdirAll touches_os_Stat split: sum.splits)

section \<open>The driver while it waits\<close>

text \<open>The events that end the plugin, and the error it is handed as the cause.\<close>

fun ends :: "event \<Rightarrow> bool" where
  "ends (BackgroundError err) \<longleftrightarrow> \<not> errors_Is err ErrRecoverable"
| "ends Signal \<longleftrightarrow> True"
| "ends (PrepareBatch claims) \<longleftrightarrow> False"
| "ends (UnprepareBatch claims) \<longleftrightarrow> False"

lemma PrepareResourceClaims_no_Err: "PrepareResourceClaims lib d claims w \<noteq> (Err e, w')"
  using prepare_each_no_Err [of lib d claims fmempty w e] by (auto simp: PrepareResourceClaims_def)

lemma UnprepareResourceClaims_no_Err: "UnprepareResourceClaims lib d claims w \<noteq> (Err e, w')"
  using unprepare_each_no_Err [of lib d claims fmempty w e] by (auto simp: UnprepareResourceClaims_def)

lemma wait_for_done_outcome:
  assumes "wait_for_done lib d events w = (r, w')"
  shows "case r of Ok cause \<Rightarrow> list_ex ends events | Err e \<Rightarrow> False | Abort a \<Rightarrow> True"
  using assms
proof (induction lib d events arbitrary: w rule: wait_for_done.induct)
  case (2 lib d claims es)
  obtain r1 w1 where "PrepareResourceClaims lib d claims w = (r1, w1)" by fastforce
  with 2 show ?case
    using PrepareResourceClaims_no_Err [of lib d claims w]
    by (cases r1) (auto simp: call_run split: outcome.splits)
next
  case (3 lib d claims es)
  obtain r1 w1 where "UnprepareResourceClaims lib d claims w = (r1, w1)" by fastforce
  with 3 show ?case
    using UnprepareResourceClaims_no_Err [of lib d claims w]
    by (cases r1) (auto simp: call_run split: outcome.splits)
next
  case (4 lib d err es)
  then show ?case
    by (auto simp: HandleError_def effect_simps split: if_splits outcome.splits)
qed (auto simp: effect_simps)

text \<open>A batch is a sequence of steps of its own claims.\<close>

lemma prepare_each_run:
  assumes "prepare_each lib d claims m w = (r, w')" "state d = new_state lib config" "set claims \<subseteq> K"
  shows "\<exists>as. driver_run lib config K w as w' \<and> list_all (\<lambda>a. \<exists>c b. c \<in> set claims \<and> a = PrepareClaim c b) as"
  using assms(1,3)
proof (induction claims arbitrary: m w)
  case Nil
  then show ?case by (auto simp: effect_simps intro!: exI [of _ "[]"] runs.begins)
next
  case (Cons c cs)
  obtain r1 w1 where p: "Prepare lib (state d) c w = (r1, w1)" by fastforce
  have step: "driver_step lib config K w (PrepareClaim c (succeeded r1)) w1"
    using Cons.prems(2) p assms(2) by (auto intro: driver_step.prepare)
  obtain r2 where one: "prepareResourceClaim lib d c w = (r2, w1)"
    using p by (cases r1) (auto simp: prepareResourceClaim_def effect_simps)
  show ?case
  proof (cases r2)
    case (Ok x)
    with Cons.prems(1) one have "prepare_each lib d cs (fmupd (claim_UID c) x m) w1 = (r, w')"
      by (simp add: call_run)
    from Cons.IH [OF this] Cons.prems(2) obtain as where
      "driver_run lib config K w1 as w'" "list_all (\<lambda>a. \<exists>c b. c \<in> set cs \<and> a = PrepareClaim c b) as" by auto
    with runs_trans [OF driver_run_step [OF step]] show ?thesis
      by (intro exI [of _ "[PrepareClaim c (succeeded r1)] @ as"]) (auto simp: list_all_iff)
  next
    case (Err e)
    with one prepareResourceClaim_no_Err [of lib d c w e] show ?thesis by simp
  next
    case (Abort a)
    with Cons.prems(1) one have "w' = w1" by (simp add: call_run)
    with driver_run_step [OF step] show ?thesis
      by (intro exI [of _ "[PrepareClaim c (succeeded r1)]"]) auto
  qed
qed

lemma unprepare_each_run:
  assumes "unprepare_each lib d objs m w = (r, w')" "state d = new_state lib config"
    and "obj_UID ` set objs \<subseteq> claim_UID ` K"
  shows "\<exists>as. driver_run lib config K w as w' \<and> list_all (\<lambda>a. \<exists>c b. claim_UID c \<in> obj_UID ` set objs
    \<and> (a = UnprepareClaim c b \<or> a = UnprepareBlind c)) as"
  using assms(1,3)
proof (induction objs arbitrary: m w)
  case Nil
  then show ?case by (auto simp: effect_simps intro!: exI [of _ "[]"] runs.begins)
next
  case (Cons obj objs)
  then obtain c where c: "c \<in> K" "obj_UID obj = claim_UID c" by auto
  obtain r1 w1 where p: "Unprepare lib (state d) (claim_UID c) w = (r1, w1)" by fastforce
  let ?a = "if reads_checkpoint (new_state lib config) w then UnprepareClaim c (succeeded r1) else UnprepareBlind c"
  have step: "driver_step lib config K w ?a w1"
    using c(1) p assms(2) by (auto intro: driver_step.unprepare driver_step.unprepare_blind)
  obtain r2 where one: "unprepareResourceClaim lib d obj w = (r2, w1)"
    using p c(2) by (cases r1) (auto simp: unprepareResourceClaim_def effect_simps)
  show ?case
  proof (cases r2)
    case (Ok x)
    with Cons.prems(1) one have "unprepare_each lib d objs (fmupd (obj_UID obj) x m) w1 = (r, w')"
      by (simp add: call_run)
    from Cons.IH [OF this] Cons.prems(2) obtain as where
      "driver_run lib config K w1 as w'" "list_all (\<lambda>a. \<exists>c b. claim_UID c \<in> obj_UID ` set objs
        \<and> (a = UnprepareClaim c b \<or> a = UnprepareBlind c)) as" by auto
    with runs_trans [OF driver_run_step [OF step]] c(2) show ?thesis
      by (intro exI [of _ "[?a] @ as"]) (auto simp: list_all_iff)
  next
    case (Err e)
    with one unprepareResourceClaim_no_Err [of lib d obj w e] show ?thesis by simp
  next
    case (Abort a)
    with Cons.prems(1) one have "w' = w1" by (simp add: call_run)
    with driver_run_step [OF step] c(2) show ?thesis
      by (intro exI [of _ "[?a]"]) auto
  qed
qed

text \<open>The events whose claims are of the workload, and the actions that an event asks for.\<close>

fun of_workload :: "ResourceClaim set \<Rightarrow> event \<Rightarrow> bool" where
  "of_workload K (PrepareBatch claims) \<longleftrightarrow> set claims \<subseteq> K"
| "of_workload K (UnprepareBatch objs) \<longleftrightarrow> obj_UID ` set objs \<subseteq> claim_UID ` K"
| "of_workload K e \<longleftrightarrow> True"

fun asks_for :: "event \<Rightarrow> action \<Rightarrow> bool" where
  "asks_for (PrepareBatch claims) (PrepareClaim c b) \<longleftrightarrow> c \<in> set claims"
| "asks_for (UnprepareBatch objs) (UnprepareClaim c b) \<longleftrightarrow> claim_UID c \<in> obj_UID ` set objs"
| "asks_for (UnprepareBatch objs) (UnprepareBlind c) \<longleftrightarrow> claim_UID c \<in> obj_UID ` set objs"
| "asks_for e a \<longleftrightarrow> False"

definition asked_for :: "event list \<Rightarrow> action \<Rightarrow> bool" where
  "asked_for events a \<longleftrightarrow> list_ex (\<lambda>e. asks_for e a) events"

lemma asked_for_Cons [simp]: "asked_for (e # es) a \<longleftrightarrow> asks_for e a \<or> asked_for es a"
  by (simp add: asked_for_def)

lemma PrepareResourceClaims_run:
  assumes "PrepareResourceClaims lib d claims w = (r, w')" "state d = new_state lib config" "set claims \<subseteq> K"
  shows "\<exists>as. driver_run lib config K w as w' \<and> list_all (asks_for (PrepareBatch claims)) as"
  using prepare_each_run [OF assms(1) [unfolded PrepareResourceClaims_def] assms(2,3)]
  by (auto simp: list_all_iff) (metis asks_for.simps(1))

lemma UnprepareResourceClaims_run:
  assumes "UnprepareResourceClaims lib d objs w = (r, w')" "state d = new_state lib config"
    and "obj_UID ` set objs \<subseteq> claim_UID ` K"
  shows "\<exists>as. driver_run lib config K w as w' \<and> list_all (asks_for (UnprepareBatch objs)) as"
  using unprepare_each_run [OF assms(1) [unfolded UnprepareResourceClaims_def] assms(2,3)]
  by (auto simp: list_all_iff) (metis asks_for.simps(2,3))

lemma batch_then_wait:
  assumes "call m (\<lambda>x. wait_for_done lib d es) w = (r, w')"
    and "\<And>r1 w1. m w = (r1, w1) \<Longrightarrow> \<exists>as. driver_run lib config K w as w1 \<and> list_all (asks_for e) as"
    and "\<And>w1. wait_for_done lib d es w1 = (r, w')
      \<Longrightarrow> \<exists>as. driver_run lib config K w1 as w' \<and> list_all (asked_for es) as"
  shows "\<exists>as. driver_run lib config K w as w' \<and> list_all (asked_for (e # es)) as"
proof -
  obtain r1 w1 where m: "m w = (r1, w1)" by fastforce
  from assms(2) [OF this] obtain as where as: "driver_run lib config K w as w1" "list_all (asks_for e) as" by blast
  show ?thesis
  proof (cases r1)
    case (Ok x)
    with m assms(1) have "wait_for_done lib d es w1 = (r, w')"
      by (simp add: call_run)
    from assms(3) [OF this] obtain bs where bs: "driver_run lib config K w1 bs w'" "list_all (asked_for es) bs" by blast
    from runs_trans [OF as(1) bs(1)] as(2) bs(2) show ?thesis
      by (intro exI [of _ "as @ bs"]) (auto simp: list_all_iff)
  qed (use m assms(1) as in \<open>auto simp: call_run list_all_iff\<close>)
qed

lemma wait_for_done_run:
  assumes "wait_for_done lib d events w = (r, w')" "state d = new_state lib config" "list_all (of_workload K) events"
  shows "\<exists>as. driver_run lib config K w as w' \<and> list_all (asked_for events) as"
  using assms
proof (induction lib d events arbitrary: w rule: wait_for_done.induct)
  case (2 lib d claims es)
  show ?case
    by (rule batch_then_wait [OF "2.prems"(1) [unfolded wait_for_done.simps]])
      (use 2 in \<open>auto intro: PrepareResourceClaims_run\<close>)
next
  case (3 lib d claims es)
  show ?case
    by (rule batch_then_wait [OF "3.prems"(1) [unfolded wait_for_done.simps]])
      (use 3 in \<open>auto intro: UnprepareResourceClaims_run\<close>)
next
  case (4 lib d err es)
  then show ?case
    by (cases "HandleError True err")
      (auto simp: effect_simps list_all_iff intro!: exI [of _ "[]"] runs.begins)
qed (auto simp: effect_simps intro!: exI [of _ "[]"] runs.begins)

section \<open>The whole run\<close>

lemma on_err_ok_not_Err: "on_err m (\<lambda>err. ok x) w \<noteq> (Err e, w')"
  by (auto simp: effect_simps split: prod.splits outcome.splits)

lemma touches_startHealthcheck: "steps_in (touches P) (startHealthcheck svc config)"
  unfolding startHealthcheck_def Let_def
  by (auto intro!: touch.in_rules touches_extern_err touches_extern)

lemma touches_Shutdown: "steps_in (touches P) (on_err (Shutdown svc kp d) (\<lambda>err. ok ()))"
  unfolding Shutdown_def healthcheck_Stop_def by (auto intro!: touch.in_rules touches_extern split: option.splits)

lemma NewDriver_state:
  assumes "NewDriver lib svc kp config w = (r, w')"
  obtains r1 w1 where "NewDeviceState lib config w = (r1, w1)" "touches (\<lambda>_. False) w1 w'"
    "\<And>d. r = Ok d \<Longrightarrow> r1 = Ok (state d)"
proof -
  let ?rest = "\<lambda>s. call (extern_err (kp_Start kp
        [(''NodeName'', flag_nodeName (flags config)), (''DriverName'', flag_driverName (flags config)),
         (''RegistrarDirectoryPath'', flag_kubeletRegistrarDirectoryPath (flags config)),
         (''PluginDataDirectoryPath'', DriverPluginPath config), (''RollingUpdate'', flag_podUID (flags config))]))
    (\<lambda>_. call (wrap (Wrapf ''start healthcheck'') (startHealthcheck svc config))
    (\<lambda>hc. call (extern_err (kp_PublishResources kp (driverResources s)))
    (\<lambda>_. ok \<lparr>state = s, driver_healthcheck = hc\<rparr>)))"
  obtain r1 w1 where new: "NewDeviceState lib config w = (r1, w1)" by fastforce
  show thesis
  proof (cases r1)
    case (Ok s)
    with assms new have rest: "?rest s w1 = (r, w')"
      by (simp add: NewDriver_def call_run)
    have "steps_in (touches (\<lambda>_. False)) (?rest s)"
      by (intro touch.in_call touch.in_wrap touch.in_ok touches_extern_err touches_startHealthcheck)
    then have "touches (\<lambda>_. False) w1 w'"
      using rest by (rule steps_inD)
    moreover have "r = Ok d \<Longrightarrow> r1 = Ok (state d)" for d
      using rest Ok by (auto elim!: call_OkE)
    ultimately show thesis
      by (rule that [OF new])
  qed (use that new assms in \<open>auto simp: NewDriver_def call_run touch.step_refl\<close>)
qed

text \<open>In a process that is not killed, the start and the end of the plugin return, and so does its wait.\<close>

text \<open>The events whose claims are allocated, and those that unprepare.\<close>

fun allocated_batch :: "event \<Rightarrow> bool" where
  "allocated_batch (PrepareBatch claims) \<longleftrightarrow> None \<notin> Allocation ` set claims"
| "allocated_batch e \<longleftrightarrow> True"

fun unprepares :: "UID \<Rightarrow> event \<Rightarrow> bool" where
  "unprepares uid (UnprepareBatch objs) \<longleftrightarrow> uid \<in> obj_UID ` set objs"
| "unprepares uid e \<longleftrightarrow> False"

lemma wait_for_done_returns:
  assumes "wait_for_done lib d events w = (r, w')" "alive w" "\<not> mutex w" "list_all allocated_batch events"
  shows "(case r of Abort a \<Rightarrow> a = Waiting \<and> \<not> list_ex ends events
        \<or> a = NilDeref \<and> (\<exists>uid. list_ex (unprepares uid) events \<and> blind_panic lib (state d) uid w')
    | _ \<Rightarrow> True) \<and> alive w'"
  using assms
proof (induction lib d events arbitrary: w rule: wait_for_done.induct)
  case (2 lib d claims es)
  obtain r1 w1 where b: "prepare_each lib d claims fmempty w = (r1, w1)" by fastforce
  have "None \<notin> Allocation ` set claims"
    using "2.prems"(4) by simp
  from prepare_each_returns [OF b "2.prems"(2,3) this] obtain m where m: "r1 = Ok m" "alive w1" "\<not> mutex w1" by blast
  with b "2.prems"(1) have "wait_for_done lib d es w1 = (r, w')"
    by (simp add: PrepareResourceClaims_def effect_simps)
  from "2.IH" [OF this m(2,3)] "2.prems"(4) show ?case by (auto split: outcome.splits)
next
  case (3 lib d objs es)
  obtain r1 w1 where b: "unprepare_each lib d objs fmempty w = (r1, w1)" by fastforce
  from unprepare_each_returns [OF b "3.prems"(2,3)] have
    m: "(\<exists>m'. r1 = Ok m') \<or> r1 = Abort NilDeref \<and> (\<exists>c \<in> set objs. blind_panic lib (state d) (obj_UID c) w1)"
      "alive w1" "\<not> mutex w1" by blast+
  from m(1) show ?case
  proof
    assume "\<exists>m'. r1 = Ok m'"
    with b "3.prems"(1) have "wait_for_done lib d es w1 = (r, w')"
      by (auto simp: UnprepareResourceClaims_def effect_simps)
    from "3.IH" [OF this m(2,3)] "3.prems"(4) show ?case by (auto split: outcome.splits)
  next
    assume "r1 = Abort NilDeref \<and> (\<exists>c \<in> set objs. blind_panic lib (state d) (obj_UID c) w1)"
    then obtain c where "r1 = Abort NilDeref" "c \<in> set objs" "blind_panic lib (state d) (obj_UID c) w1" by blast
    with b "3.prems"(1) m(2) show ?case
      by (auto simp: UnprepareResourceClaims_def effect_simps intro!: exI [of _ "obj_UID c"])
  qed
next
  case (4 lib d err es)
  then show ?case
    by (auto simp: HandleError_def effect_simps split: if_splits outcome.splits)
qed (auto simp: effect_simps)

lemma returns_start [return_rules]:
  "returns (make_directories config)" "returns (startHealthcheck svc config)"
  "network_config config \<Longrightarrow> returns (NewDeviceState lib config)"
  unfolding make_directories_def startHealthcheck_def NewDeviceState_def network_config_def Let_def
  by (auto intro!: return_rules simp: network_EnumerateDevices_def Let_def split: sum.splits option.splits prod.splits)

lemma returns_NewDriver: "network_config config \<Longrightarrow> returns (NewDriver lib svc kp config)"
  unfolding NewDriver_def by (intro return_rules)

lemma returns_Shutdown: "returns (Shutdown svc kp d)"
  unfolding Shutdown_def healthcheck_Stop_def by (auto intro!: return_rules split: option.splits)

lemma NewDriver_mutex:
  assumes "network_config config" "NewDriver lib svc kp config w = (r, w')"
  shows "mutex w' = mutex w"
proof -
  obtain r1 w1 where "NewDeviceState lib config w = (r1, w1)" "touches (\<lambda>_. False) w1 w'"
    using assms(2) by (rule NewDriver_state)
  then show ?thesis
    using touches_env [OF steps_inD [OF touches_NewDeviceState [OF assms(1)]]] touches_env by metis
qed

lemma RunPlugin_returns:
  assumes "network_config config" "alive w" "\<not> mutex w" "list_all allocated_batch events"
    and "RunPlugin lib svc kp config events w = (Abort a, w')"
  shows "a = Waiting \<and> \<not> list_ex ends events
    \<or> a = NilDeref \<and> (\<exists>uid. list_ex (unprepares uid) events \<and> blind_panic lib (new_state lib config) uid w')"
proof -
  obtain r1 w1 where mk: "make_directories config w = (r1, w1)" by fastforce
  note live1 = returnsD [OF returns_start(1) assms(2) mk]
  obtain r2 w2 where nd: "NewDriver lib svc kp config w1 = (r2, w2)" by fastforce
  note live2 = returnsD [OF returns_NewDriver [OF assms(1)] live1(1) nd]
  have free: "\<not> mutex w2"
    using NewDriver_mutex [OF assms(1) nd] touches_env [OF steps_inD [OF touches_make_directories mk]] assms(3) by simp
  obtain u d where ok: "r1 = Ok u" "r2 = Ok d"
    using assms(5) mk nd live1(2) live2(2) by (cases r1; cases r2) (auto simp: RunPlugin_def effect_simps)
  have s: "state d = new_state lib config"
    using nd unfolding ok(2) by (rule NewDriver_state) (use NewDeviceState_Ok(1) [OF assms(1)] in blast)
  obtain r3 w3 where wait: "wait_for_done lib d events w2 = (r3, w3)" by fastforce
  note rest = wait_for_done_returns [OF wait live2(1) free assms(4)]
  have "returns (on_err (Shutdown svc kp d) (\<lambda>err. ok ()))"
    by (intro return_rules returns_Shutdown)
  with rest have "r3 \<noteq> Ok cause" for cause
    using assms(5) mk nd ok wait by (auto simp: RunPlugin_def call_run dest: returnsD(2))
  then show ?thesis
    using rest assms(5) mk nd ok wait s by (cases r3) (auto simp: RunPlugin_def call_run)
qed

lemma holds_touched:
  assumes "holds s K cs w" "touches (\<lambda>p. p \<noteq> elems (checkpointPath s)) w w'"
  shows "holds s K cs w'"
proof -
  have "stored s w' = stored s w"
    unfolding stored_def by (rule stored_claims_local) (use touches_lookup [OF assms(2)] in simp)
  with assms(1) touches_env [OF assms(2)] show ?thesis
    by (simp add: holds_def)
qed

lemma make_directories_holds:
  assumes "make_directories config w = (r, w')" "plugin_dir_ok config" "codec_ok (checkpoint_codec lib)"
    and "\<not> prefix (elems (checkpointPath (new_state lib config))) (elems (flag_cdiRoot (flags config)))"
    and "holds (new_state lib config) K cs w"
  shows "holds (new_state lib config) K cs w'"
proof (rule holds_touched [OF assms(5)])
  have "elems (DriverPluginPath config) = plugin_dir config"
    using assms(2) by (simp add: plugin_dir_ok_def DriverPluginPath_def plugin_dir_def elems_filepath_Join_plain)
  then have "\<not> prefix (elems (checkpointPath (new_state lib config))) (elems (DriverPluginPath config))"
    using state_ok_new(2) [OF assms(2,3)] by (simp add: not_prefix_longer)
  then show "touches (\<lambda>p. p \<noteq> elems (checkpointPath (new_state lib config))) w w'"
    using assms(4) by (intro touches_mono [OF steps_inD [OF touches_make_directories assms(1)]]) auto
qed

lemma NewDriver_holds:
  assumes "NewDriver lib svc kp config w = (r, w')" "usable lib config K" "holds (new_state lib config) K cs w"
  shows "holds (new_state lib config) K cs w'" "r = Ok d \<Longrightarrow> state d = new_state lib config"
proof -
  obtain r1 w1 where new: "NewDeviceState lib config w = (r1, w1)" "touches (\<lambda>_. False) w1 w'"
    and d: "\<And>d. r = Ok d \<Longrightarrow> r1 = Ok (state d)"
    using assms(1) by (rule NewDriver_state) blast
  have "w\<lparr>env := env w, mutex := False\<rparr> = w"
    using holds_simps(1) [OF assms(3)] by simp
  with new(1) have "NewDeviceState lib config (w\<lparr>env := env w, mutex := False\<rparr>) = (r1, w1)"
    by simp
  from restart_step_refines [OF assms(2,3) this] show "holds (new_state lib config) K cs w'"
    by (rule holds_touched) (rule touches_mono [OF new(2)], simp)
  show "state d = new_state lib config" if "r = Ok d"
    using NewDeviceState_run [OF usable_simps(1) [OF assms(2)], of lib w "state d" w1] new(1) d [OF that] by blast
qed

lemma RunPlugin_refines:
  assumes "usable lib config K"
    and "\<not> prefix (elems (checkpointPath (new_state lib config))) (elems (flag_cdiRoot (flags config)))"
    and "holds (new_state lib config) K cs w" "list_all (of_workload K) events"
    and "RunPlugin lib svc kp config events w = (r, w')"
  shows "\<exists>as cs'. list_all (asked_for events) as \<and> claims_run cs as cs' \<and> holds (new_state lib config) K cs' w'"
proof -
  have none: "?thesis" if "holds (new_state lib config) K cs w'"
    using that runs.begins [of claims_step cs] by (intro exI [of _ "[]"] exI [of _ cs]) simp
  obtain r1 w1 where mk: "make_directories config w = (r1, w1)" by fastforce
  have h1: "holds (new_state lib config) K cs w1"
    by (rule make_directories_holds [OF mk usable_simps(2) [OF assms(1)] _ assms(2,3)]) (use assms(1) in \<open>simp add: usable_def\<close>)
  obtain r2 w2 where nd: "NewDriver lib svc kp config w1 = (r2, w2)" by fastforce
  note h2 = NewDriver_holds [OF nd assms(1) h1]
  show ?thesis
  proof (cases "\<exists>u. r1 = Ok u")
    case False
    with mk assms(5) have "w' = w1"
      by (cases r1) (auto simp: RunPlugin_def call_run)
    with h1 none show ?thesis by simp
  next
    case True
    note one = this
    show ?thesis
    proof (cases r2)
      case (Ok d)
      obtain r3 w3 where wait: "wait_for_done lib d events w2 = (r3, w3)" by fastforce
      have "touches (\<lambda>_. False) w3 w'"
        using one Ok mk nd wait assms(5) steps_inD [OF touches_Shutdown, of svc kp d w3 r w']
        by (cases r3) (auto simp: RunPlugin_def call_run touch.step_refl)
      then have "touches (\<lambda>p. p \<noteq> elems (checkpointPath (new_state lib config))) w3 w'"
        by (rule touches_mono) simp
      moreover obtain as where as: "driver_run lib config K w2 as w3" "list_all (asked_for events) as"
        using wait_for_done_run [OF wait h2(2) [OF Ok] assms(4)] by blast
      obtain cs' where "claims_run cs as cs'" "holds (new_state lib config) K cs' w3"
        using driver_run_refines [OF as(1) assms(1) h2(1)] by blast
      ultimately show ?thesis
        using as(2) holds_touched by blast
    qed (use one mk nd assms(5) h2(1) none in \<open>auto simp: RunPlugin_def call_run\<close>)
  qed
qed

section \<open>Properties\<close>

text \<open>
  C31: A whole run of the plugin refines the machine of the held claims: from its start, over every
  batch that the kubelet sends and every error, to its end or the point where it is killed, the
  checkpoint keeps representing a list of claims, and that list changes only by what a batch asks
  for and the machine allows. In particular, starting and ending the plugin loses no claim.
\<close>

theorem plugin_run_refines:
  assumes "usable lib config K"
    and "\<not> prefix (elems (checkpointPath (new_state lib config))) (elems (flag_cdiRoot (flags config)))"
    and "holds (new_state lib config) K cs w" "list_all (of_workload K) events"
    and "RunPlugin lib svc kp config events w = (r, w')"
  shows "\<exists>as cs'. list_all (asked_for events) as \<and> claims_run cs as cs' \<and> distinct cs' \<and> set cs' \<subseteq> K
    \<and> stored (new_state lib config) w' = Some (map checkpoint_entry cs')"
  using RunPlugin_refines [OF assms] by (auto simp: holds_def)

definition sample_kubeletplugin :: "'x kubeletplugin" where
  "sample_kubeletplugin = \<lparr>kp_Start = (\<lambda>opts x. (None, x)), kp_PublishResources = (\<lambda>res x. (None, x)), kp_Stop = (\<lambda>x. ((), x))\<rparr>"

theorem plugin_run_refines_witness:
  "\<exists>cs'. distinct cs' \<and> set cs' \<subseteq> {sample_claim} \<and> stored sample_state (snd (RunPlugin sample_libraries sample_services
      sample_kubeletplugin sample_config [PrepareBatch [sample_claim], BackgroundError ErrRecoverable, Signal] sample_world))
    = Some (map checkpoint_entry cs')"
proof -
  let ?events = "[PrepareBatch [sample_claim], BackgroundError ErrRecoverable, Signal]"
  have "elems (checkpointPath sample_state) = elems sample_path"
    by (simp add: sample_state_def)
  then have "\<not> prefix (elems (checkpointPath (new_state sample_libraries sample_config)))
      (elems (flag_cdiRoot (flags (sample_config :: (sample_ext, string) Config))))"
    by (simp add: new_state_sample sample_path_def sample_flags_def elems_def)
  moreover have "list_all (of_workload {sample_claim}) ?events"
    by simp
  ultimately show ?thesis
    using plugin_run_refines [OF sample_usable _ sample_holds _ prod.collapse [symmetric],
        of ?events sample_services sample_kubeletplugin]
    unfolding new_state_sample by blast
qed

text \<open>
  C37: When the plugin returns without an error, its directories were there before the driver
  started, and a signal or a background error that is not recoverable had ended it; requests and
  recoverable errors never do. An error comes from the directories or the start of the driver
  only, and nothing is done after it. In a process that is not killed, with the network profile, the
  mutex free and every claim of a prepare batch allocated, it returns as soon as something ends it:
  else it still waits, or the unprepare of a claim of some batch has panicked because it could not
  read the checkpoint, and the world is as that unprepare left it.
\<close>

theorem plugin_ends:
  "case RunPlugin lib svc kp config events w of
     (Ok u, w') \<Rightarrow> list_ex ends events
       \<and> (\<exists>w1. make_directories config w = (Ok (), w1) \<and> is_dir (files w1) (elems (DriverPluginPath config))
         \<and> is_dir (files w1) (elems (flag_cdiRoot (flags config))))
   | (Err e, w') \<Rightarrow> make_directories config w = (Err e, w')
       \<or> (\<exists>w1. make_directories config w = (Ok (), w1) \<and> NewDriver lib svc kp config w1 = (Err e, w'))
   | (Abort a, w') \<Rightarrow> network_config config \<and> alive w \<and> \<not> mutex w \<and> list_all allocated_batch events
       \<longrightarrow> a = Waiting \<and> \<not> list_ex ends events
         \<or> a = NilDeref \<and> (\<exists>uid w1. list_ex (unprepares uid) events
             \<and> Unprepare lib (new_state lib config) uid w1 = (Abort NilDeref, w')
             \<and> \<not> reads_checkpoint (new_state lib config) w1)"
proof -
  obtain r1 w1 where mk: "make_directories config w = (r1, w1)" by fastforce
  obtain r2 w2 where nd: "NewDriver lib svc kp config w1 = (r2, w2)" by fastforce
  obtain r w' where run: "RunPlugin lib svc kp config events w = (r, w')" by fastforce
  show ?thesis
  proof (cases r)
    case (Abort a)
    with run RunPlugin_returns [of config w events lib svc kp a w'] show ?thesis
      by (auto simp: blind_panic_def)
  next
    case (Err e)
    with run mk nd show ?thesis
      by (cases r1; cases r2) (auto simp: RunPlugin_def call_run on_err_ok_not_Err dest: wait_for_done_outcome
          split: prod.splits outcome.splits)
  next
    case (Ok u)
    with run mk nd obtain d r3 w3 where "r1 = Ok ()" "r2 = Ok d" and wait: "wait_for_done lib d events w2 = (r3, w3)"
      and "\<exists>cause. r3 = Ok cause"
      by (cases r1; cases r2) (auto simp: RunPlugin_def call_run split: prod.splits outcome.splits)
    with run Ok mk wait_for_done_outcome [OF wait] make_directories_Ok [of config w "()" w1] show ?thesis by auto
  qed
qed

theorem plugin_ends_witness:
  "\<forall>a. fst (RunPlugin sample_libraries sample_services sample_kubeletplugin sample_config
    [PrepareBatch [sample_claim], BackgroundError ErrRecoverable, Signal] sample_world) \<noteq> Abort a"
proof -
  have "alive sample_world" "network_config sample_config"
    by (simp_all add: alive_def sample_world_def quiet_env_def sample_config_ok)
  then show ?thesis
    using plugin_ends [where lib = sample_libraries and svc = sample_services and kp = sample_kubeletplugin
        and config = sample_config and w = sample_world
        and events = "[PrepareBatch [sample_claim], BackgroundError ErrRecoverable, Signal]"]
    by (auto split: prod.splits)
qed

text \<open>
  The action runs the plugin only with the network profile, with the name of the driver that
  was given or else \<open>network.example.com\<close>, and with all other flags as they are. In every other
  case, an unknown profile or a client that cannot be made, it returns no success and no file has
  changed.
\<close>

lemma action_runs_profile:
  "case app_action client libs svc kp events f w of (r, w') \<Rightarrow>
    files w' = files w \<and> (\<forall>u. r \<noteq> Ok u)
    \<or> flag_profile f = ''network'' \<and> (\<exists>c w1 config. network_config config \<and> files w1 = files w
        \<and> flags config = f\<lparr>flag_driverName := if flag_driverName f = [] then ''network.example.com'' else flag_driverName f\<rparr>
        \<and> RunPlugin (libs c) svc kp config events w1 = (r, w'))"
proof -
  let ?client = "wrap (Wrapf ''create client'') (NewClientSets client (flag_kubeClientConfig f))"
  obtain r1 w1 where cl: "?client w = (r1, w1)" by fastforce
  have "steps_in (touches (\<lambda>_. False)) ?client"
    unfolding NewClientSets_def NewClientSetConfig_def extern_result_def
    by (auto intro!: touch.in_rules touches_extern)
  from touches_nothing [OF steps_inD [OF this cl]] have f1: "files w1 = files w" .
  show ?thesis
  proof (cases r1)
    case (Ok cs)
    show ?thesis
    proof (cases "flag_profile f = ''network''")
      case True
      let ?f = "f\<lparr>flag_driverName := if flag_driverName f = [] then ''network.example.com'' else flag_driverName f\<rparr>"
      let ?c = "\<lparr>flags = ?f, profile = network_Profile (NewProfile (flag_nodeName ?f) (flag_numDevices ?f))\<rparr>"
      have "app_action client libs svc kp events f w = RunPlugin (libs (Core cs)) svc kp ?c events w1"
        using True by (simp add: app_action_def call_run cl Ok Let_def validProfiles_def ProfileName_def)
      moreover have "network_config ?c"
        by (simp add: network_config_def)
      ultimately show ?thesis
        using True f1 by (cases "RunPlugin (libs (Core cs)) svc kp ?c events w1") fastforce
    next
      case False
      then show ?thesis
        using f1 by (simp add: app_action_def call_run cl Ok Let_def validProfiles_def ProfileName_def fail_def)
    qed
  qed (use f1 in \<open>simp_all add: app_action_def call_run cl\<close>)
qed

definition sample_logging_library :: "('x, string) logging_library" where
  "sample_logging_library = \<lparr>
     featuregate_NewFeatureGate = \<lambda>x. ((), x), logsapi_NewLoggingConfiguration = \<lambda>x. ((), x),
     logsapi_AddFeatureGates = \<lambda>x. (None, x), featuregate_SetFromMap = \<lambda>m x. (None, x),
     logsapi_ContextualLogging = ''ContextualLogging'', logsapi_ValidateAndApply = \<lambda>x. (None, x),
     logsapi_AddFlags = \<lambda>fs x. (fs @ [\<lparr>pflag_Name = ''logging-format'', pflag_Usage = [], pflag_Value = ''text''\<rparr>], x),
     featuregate_KnownFeatures = \<lambda>x. ([], x), featuregate_Value = [],
     pflag_AddFlag = \<lambda>fs f. fs @ [f], pflag_VisitAll = \<lambda>fs. fs\<rparr>"

text \<open>
  C38: Every flag has its own destination: when the command line and the environment give some of
  the flags values, by name, then storing these, and the defaults of the others, in whatever order,
  gives the flags of the program whose every field is the value given under its documented name, or
  else its documented default; the flags of the logging libraries interfere with none. Only the name
  of the node is required. Every flag, those of logging included, is read from the environment
  variable of its own name in capitals, with underscores for hyphens.
\<close>

theorem app_flags_complete:
  assumes "newApp logs registryDir pluginsDir client libs svc kp events w = (Ok app, w')"
    and "mset fs = mset (app_Flags app)"
  shows "fold (store_given strs ints floats) fs f =
      \<lparr>flag_kubeClientConfig =
          \<lparr>KubeConfig = or_default [] (strs ''kubeconfig''),
           KubeAPIQPS = or_default 0x4014000000000000 (floats ''kube-api-qps''),
           KubeAPIBurst = or_default 10 (ints ''kube-api-burst'')\<rparr>,
        flag_nodeName = or_default [] (strs ''node-name''),
        flag_cdiRoot = or_default ''/etc/cdi'' (strs ''cdi-root''),
        flag_numDevices = or_default 10 (ints ''num-devices''),
        flag_kubeletRegistrarDirectoryPath = or_default registryDir (strs ''kubelet-registrar-directory-path''),
        flag_kubeletPluginsDirectoryPath = or_default pluginsDir (strs ''kubelet-plugins-directory-path''),
        flag_healthcheckPort = or_default (- 1) (ints ''healthcheck-port''),
        flag_profile = or_default ''network'' (strs ''device-profile''),
        flag_driverName = or_default [] (strs ''driver-name''),
        flag_podUID = or_default [] (strs ''pod-uid'')\<rparr>
    \<and> map cli_Name (filter cli_Required (app_Flags app)) = [''node-name'']
    \<and> list_all (\<lambda>fl. cli_EnvVars fl = [ToUpper (ReplaceAll_char (cli_Name fl) CHR ''-'' CHR ''_'')]) (app_Flags app)"
    (is "?stored = ?flags \<and> ?required \<and> ?envs")
proof (intro conjI)
  obtain own logging where own: "own = own_flags registryDir pluginsDir" and fl: "app_Flags app = own @ logging" and env: "list_all env_of_name logging"
    and gen: "list_all (\<lambda>fl. \<exists>v. cli_Value fl = GenericFlag v) logging" and req: "list_all (\<lambda>fl. \<not> cli_Required fl) logging"
    using newApp_Ok [OF assms(1)] by metis
  let ?store = "store_given strs ints floats"
  have generic: "?store x g = g" if "x \<in> set logging" for x g
    using gen that by (auto simp: list_all_iff store_given_def)
  then have logging: "fold ?store logging g = g" for g
    by (induction logging) auto
  have commute: "?store x (?store y g) = ?store y (?store x g)" if "x \<in> set fs" "y \<in> set fs" for x y g
  proof -
    have "set fs = set own \<union> set logging"
      using mset_eq_setD [OF assms(2)] fl by simp
    with that show ?thesis
      using own_flags_commute [of x registryDir pluginsDir y] generic own by auto
  qed
  have "?stored = fold ?store (own @ logging) f"
    using fold_permuted_eq [OF assms(2) [unfolded fl], of "\<lambda>_. True" f ?store] commute by blast
  also have "\<dots> = fold id (map ?store own) f"
    by (simp add: logging fold_map comp_def)
  also have "\<dots> = ?flags"
    unfolding own own_flags_store by simp
  finally show "?stored = ?flags" .
  have "filter cli_Required logging = []"
    using req by (simp add: list_all_iff filter_empty_conv)
  then show ?required
    unfolding fl own by (simp add: own_flags_def plugin_flags_def KubeClientConfig_Flags_def)
  show ?envs
    unfolding fl own using env by (simp add: own_flags_def plugin_flags_env env_KubeClientConfig_Flags flip: env_of_name_def)
qed
definition sample_client_library :: "('x, string, string) client_library" where
  "sample_client_library = \<lparr>
     rest_InClusterConfig = \<lambda>x. (Inr \<lparr>QPS = 0, Burst = 0, rest_fields = ''in-cluster''\<rparr>, x),
     clientcmd_BuildConfigFromFlags = \<lambda>u p x. (Inr \<lparr>QPS = 0, Burst = 0, rest_fields = p\<rparr>, x),
     coreclientset_NewForConfig = \<lambda>c x. (Inr (rest_fields c), x)\<rparr>"

theorem app_flags_complete_witness:
  "\<exists>app w'. newApp sample_logging_library ''/reg'' ''/plugins'' sample_client_library (\<lambda>_. sample_libraries)
      sample_services sample_kubeletplugin [] sample_world
      = (Ok app, w')
    \<and> flag_podUID (fold (store_given [''pod-uid'' \<mapsto> ''pod-a''] Map.empty Map.empty) (rev (app_Flags app)) sample_flags) = ''pod-a''"
proof -
  let ?run = "newApp sample_logging_library ''/reg'' ''/plugins'' sample_client_library (\<lambda>_. sample_libraries)
      sample_services sample_kubeletplugin [] sample_world"
  obtain app w' where run: "?run = (Ok app, w')"
    by (simp add: newApp_def NewLoggingConfig_def LoggingConfig_Flags_def Must_def sample_logging_library_def
        effect_simps extern_err_calm Let_def)
  from app_flags_complete [OF run, of "rev (app_Flags app)"] run show ?thesis
    by (simp add: or_default_def)
qed

end
