(* ===== verification/Checkpoint_Memory.thy ===== *)
theory Checkpoint_Memory
  imports Checkpoint_API "HOL-Library.List_Lexorder" "HOL-Library.Char_ord"
begin

text \<open>
  The generated deep copies of the checkpoint types (\<open>zz_generated.deepcopy.go\<close>, for the internal
  type and for v1) and the conversion by \<open>unsafe.Pointer\<close>, on an explicit memory of arrays and
  maps. Elsewhere in the development values are immutable; here it matters which memory two values
  share. The structs of the two versions have one layout, and are one type here.
\<close>

section \<open>Memory\<close>

type_synonym addr = nat

text \<open>A slice is nil or an array with a length; a map is nil or a reference.\<close>

type_synonym slice = "(addr \<times> nat) option"

record PreparedClaim_struct =
  s_UID :: string
  s_Name :: string
  s_Devices :: slice
  s_DeviceRequests :: "addr option"

record Checkpoint_struct =
  s_TypeMeta :: TypeMeta
  s_PreparedClaims :: slice

datatype cell =
    StringArray "string list"
  | StringMap "(string, string) fmap"
  | ClaimArray "PreparedClaim_struct list"
  | ClaimObject PreparedClaim_struct
  | CheckpointObject Checkpoint_struct

record memory =
  cells :: "(addr, cell) fmap"
  free :: addr

definition new_cell :: "cell \<Rightarrow> memory \<Rightarrow> addr \<times> memory" where
  "new_cell c m = (free m, m\<lparr>cells := fmupd (free m) c (cells m), free := Suc (free m)\<rparr>)"

definition set_cell :: "addr \<Rightarrow> cell \<Rightarrow> memory \<Rightarrow> memory" where
  "set_cell a c m = m\<lparr>cells := fmupd a c (cells m)\<rparr>"

definition strings_at :: "memory \<Rightarrow> slice \<Rightarrow> string list" where
  "strings_at m s = (case s of None \<Rightarrow> [] | Some (a, n) \<Rightarrow>
    (case fmlookup (cells m) a of Some (StringArray xs) \<Rightarrow> take n xs | _ \<Rightarrow> []))"

definition map_at :: "memory \<Rightarrow> addr option \<Rightarrow> (string, string) fmap" where
  "map_at m r = (case r of None \<Rightarrow> fmempty | Some a \<Rightarrow>
    (case fmlookup (cells m) a of Some (StringMap f) \<Rightarrow> f | _ \<Rightarrow> fmempty))"

definition claims_at :: "memory \<Rightarrow> slice \<Rightarrow> PreparedClaim_struct list" where
  "claims_at m s = (case s of None \<Rightarrow> [] | Some (a, n) \<Rightarrow>
    (case fmlookup (cells m) a of Some (ClaimArray xs) \<Rightarrow> take n xs | _ \<Rightarrow> []))"

section \<open>Deep copies\<close>

text \<open>\<open>make\<close> a slice of the same length and \<open>copy\<close> the elements.\<close>

definition copy_strings :: "slice \<Rightarrow> memory \<Rightarrow> slice \<times> memory" where
  "copy_strings s m = (case s of None \<Rightarrow> (None, m) | Some (a, n) \<Rightarrow>
    (let (b, m1) = new_cell (StringArray (replicate n [])) m in
     (Some (b, n), set_cell b (StringArray (strings_at m1 s)) m1)))"

text \<open>\<open>make\<close> a map and store every entry; the order of the range makes no difference.\<close>

definition copy_map :: "addr option \<Rightarrow> memory \<Rightarrow> addr option \<times> memory" where
  "copy_map r m = (case r of None \<Rightarrow> (None, m) | Some a \<Rightarrow>
    (let (b, m1) = new_cell (StringMap fmempty) m in
     (Some b, set_cell b (StringMap (fold (\<lambda>(key, val). fmupd key val) (sorted_list_of_fmap (map_at m1 r)) fmempty)) m1)))"

text \<open>\<open>DeepCopyInto\<close>: the value that it leaves in \<open>out\<close>.\<close>

definition PreparedClaim_DeepCopyInto :: "PreparedClaim_struct \<Rightarrow> memory \<Rightarrow> PreparedClaim_struct \<times> memory" where
  "PreparedClaim_DeepCopyInto src m =
    (let out = src;
         (devices, m) = copy_strings (s_Devices src) m; out = out\<lparr>s_Devices := devices\<rparr>;
         (requests, m) = copy_map (s_DeviceRequests src) m; out = out\<lparr>s_DeviceRequests := requests\<rparr>
     in (out, m))"

definition set_claim :: "addr \<Rightarrow> nat \<Rightarrow> PreparedClaim_struct \<Rightarrow> memory \<Rightarrow> memory" where
  "set_claim a i c m = (case fmlookup (cells m) a of
     Some (ClaimArray xs) \<Rightarrow> set_cell a (ClaimArray (xs[i := c])) m | _ \<Rightarrow> m)"

fun copy_claims :: "addr \<Rightarrow> nat \<Rightarrow> PreparedClaim_struct list \<Rightarrow> memory \<Rightarrow> memory" where
  "copy_claims b i [] m = m"
| "copy_claims b i (c # cs) m =
    (let (out, m) = PreparedClaim_DeepCopyInto c m in copy_claims b (Suc i) cs (set_claim b i out m))"

definition zero_claim :: PreparedClaim_struct where
  "zero_claim = \<lparr>s_UID = [], s_Name = [], s_Devices = None, s_DeviceRequests = None\<rparr>"

definition zero_checkpoint :: Checkpoint_struct where
  "zero_checkpoint = \<lparr>s_TypeMeta = zero_TypeMeta, s_PreparedClaims = None\<rparr>"

definition Checkpoint_DeepCopyInto :: "Checkpoint_struct \<Rightarrow> memory \<Rightarrow> Checkpoint_struct \<times> memory" where
  "Checkpoint_DeepCopyInto src m =
    (let out = src; out = out\<lparr>s_TypeMeta := s_TypeMeta src\<rparr> in
     case s_PreparedClaims src of None \<Rightarrow> (out, m) | Some (a, n) \<Rightarrow>
       (let (b, m) = new_cell (ClaimArray (replicate n zero_claim)) m in
        (out\<lparr>s_PreparedClaims := Some (b, n)\<rparr>, copy_claims b 0 (claims_at m (s_PreparedClaims src)) m)))"

text \<open>\<open>DeepCopy\<close> on a pointer: nil stays nil, otherwise a new object.\<close>

definition PreparedClaim_DeepCopy :: "addr option \<Rightarrow> memory \<Rightarrow> addr option \<times> memory" where
  "PreparedClaim_DeepCopy src m =
    (case src of None \<Rightarrow> (None, m) | Some p \<Rightarrow>
       (case fmlookup (cells m) p of Some (ClaimObject c) \<Rightarrow>
          (let (q, m) = new_cell (ClaimObject zero_claim) m; (out, m) = PreparedClaim_DeepCopyInto c m in
           (Some q, set_cell q (ClaimObject out) m))
        | _ \<Rightarrow> (None, m)))"

definition Checkpoint_DeepCopy :: "addr option \<Rightarrow> memory \<Rightarrow> addr option \<times> memory" where
  "Checkpoint_DeepCopy src m =
    (case src of None \<Rightarrow> (None, m) | Some p \<Rightarrow>
       (case fmlookup (cells m) p of Some (CheckpointObject c) \<Rightarrow>
          (let (q, m) = new_cell (CheckpointObject zero_checkpoint) m; (out, m) = Checkpoint_DeepCopyInto c m in
           (Some q, set_cell q (CheckpointObject out) m))
        | _ \<Rightarrow> (None, m)))"

text \<open>\<open>DeepCopyObject\<close>: the copy as an interface value, nil for nil.\<close>

definition Checkpoint_DeepCopyObject :: "addr option \<Rightarrow> memory \<Rightarrow> addr option \<times> memory" where
  "Checkpoint_DeepCopyObject src m =
    (case Checkpoint_DeepCopy src m of (c, m) \<Rightarrow> (if c \<noteq> None then (c, m) else (None, m)))"

text \<open>The conversion of a checkpoint reads the slice of its claims at the other type: it is the same slice.\<close>

definition autoConvert_Checkpoint_memory :: "Checkpoint_struct \<Rightarrow> Checkpoint_struct \<Rightarrow> Checkpoint_struct" where
  "autoConvert_Checkpoint_memory src dst = dst\<lparr>s_PreparedClaims := s_PreparedClaims src\<rparr>"

text \<open>The deep copies of the v1 types are the same code, on structs of the same layout.\<close>

definition v1_PreparedClaim_DeepCopyInto :: "PreparedClaim_struct \<Rightarrow> memory \<Rightarrow> PreparedClaim_struct \<times> memory" where
  "v1_PreparedClaim_DeepCopyInto = PreparedClaim_DeepCopyInto"

definition v1_PreparedClaim_DeepCopy :: "addr option \<Rightarrow> memory \<Rightarrow> addr option \<times> memory" where
  "v1_PreparedClaim_DeepCopy = PreparedClaim_DeepCopy"

definition v1_Checkpoint_DeepCopyInto :: "Checkpoint_struct \<Rightarrow> memory \<Rightarrow> Checkpoint_struct \<times> memory" where
  "v1_Checkpoint_DeepCopyInto = Checkpoint_DeepCopyInto"

definition v1_Checkpoint_DeepCopy :: "addr option \<Rightarrow> memory \<Rightarrow> addr option \<times> memory" where
  "v1_Checkpoint_DeepCopy = Checkpoint_DeepCopy"

definition v1_Checkpoint_DeepCopyObject :: "addr option \<Rightarrow> memory \<Rightarrow> addr option \<times> memory" where
  "v1_Checkpoint_DeepCopyObject = Checkpoint_DeepCopyObject"

section \<open>Values and the memory they use\<close>

definition claim_value :: "memory \<Rightarrow> PreparedClaim_struct \<Rightarrow> PreparedClaim" where
  "claim_value m c = \<lparr>UID = s_UID c, Name = s_Name c, Devices = strings_at m (s_Devices c),
    DeviceRequests = map_at m (s_DeviceRequests c)\<rparr>"

definition checkpoint_value :: "memory \<Rightarrow> Checkpoint_struct \<Rightarrow> Checkpoint" where
  "checkpoint_value m c = \<lparr>TypeMeta = s_TypeMeta c, PreparedClaims = map (claim_value m) (claims_at m (s_PreparedClaims c))\<rparr>"

text \<open>All addresses that a claim uses are from \<open>lo\<close> up to \<open>hi\<close>, and so for a checkpoint, whose slice is within its array.\<close>

definition claim_within :: "addr \<Rightarrow> addr \<Rightarrow> PreparedClaim_struct \<Rightarrow> bool" where
  "claim_within lo hi c \<longleftrightarrow> pred_option (\<lambda>(a, n). lo \<le> a \<and> a < hi) (s_Devices c)
    \<and> pred_option (\<lambda>a. lo \<le> a \<and> a < hi) (s_DeviceRequests c)"

definition checkpoint_within :: "addr \<Rightarrow> memory \<Rightarrow> Checkpoint_struct \<Rightarrow> bool" where
  "checkpoint_within lo m c \<longleftrightarrow> pred_option (\<lambda>(a, n). lo \<le> a \<and> a < free m \<and> length (claims_at m (Some (a, n))) = n) (s_PreparedClaims c)
    \<and> list_all (claim_within lo (free m)) (claims_at m (s_PreparedClaims c))"

text \<open>What was there before is as it was, but for what is at \<open>b\<close>.\<close>

definition extends_but :: "addr set \<Rightarrow> memory \<Rightarrow> memory \<Rightarrow> bool" where
  "extends_but B m m' \<longleftrightarrow> free m \<le> free m' \<and> (\<forall>a. a < free m \<and> a \<notin> B \<longrightarrow> fmlookup (cells m') a = fmlookup (cells m) a)"

lemma extends_but_refl: "extends_but B m m"
  by (simp add: extends_but_def)

lemma extends_but_trans: "extends_but B m1 m2 \<Longrightarrow> extends_but B m2 m3 \<Longrightarrow> extends_but B m1 m3"
  by (auto simp: extends_but_def)

lemma extends_but_mono: "extends_but A m m' \<Longrightarrow> A \<subseteq> B \<Longrightarrow> extends_but B m m'"
  by (auto simp: extends_but_def)

lemma claim_value_extends:
  assumes "extends_but B m m'" "claim_within lo hi c" "hi \<le> free m" "\<forall>b \<in> B. b < lo \<or> hi \<le> b"
  shows "claim_value m' c = claim_value m c"
proof -
  have same: "fmlookup (cells m') a = fmlookup (cells m) a" if "lo \<le> a" "a < hi" for a
    using assms(1,3,4) that unfolding extends_but_def by (meson leD less_le_trans)
  show ?thesis
    using assms(2) same
    by (cases "s_Devices c"; cases "s_DeviceRequests c")
      (auto simp: claim_value_def claim_within_def strings_at_def map_at_def)
qed

lemma claim_within_mono: "claim_within lo hi c \<Longrightarrow> lo' \<le> lo \<Longrightarrow> hi \<le> hi' \<Longrightarrow> claim_within lo' hi' c"
  by (auto simp: claim_within_def pred_option_def)

section \<open>The copy of a claim\<close>

lemma fold_fmupd_lookup:
  "fmlookup (fold (\<lambda>(key, val). fmupd key val) xs f) k = (case map_of (rev xs) k of None \<Rightarrow> fmlookup f k | Some v \<Rightarrow> Some v)"
  by (induction xs arbitrary: f) (auto simp: map_add_def split: option.splits)

lemma map_of_rev_distinct:
  assumes "distinct (map fst xs)"
  shows "map_of (rev xs) = map_of xs"
proof -
  have d: "distinct (map fst (rev xs))"
    using assms by (simp flip: rev_map)
  have "map_of (rev xs) k = map_of xs k" for k
  proof (cases "map_of xs k")
    case (Some v)
    with assms d show ?thesis by simp
  next
    case None
    then have "map_of (rev xs) k = None"
      by (simp add: map_of_eq_None_iff)
    with None show ?thesis by simp
  qed
  then show ?thesis by (rule ext)
qed

lemma fold_sorted_fmap: "fold (\<lambda>(key, val). fmupd key val) (sorted_list_of_fmap f) fmempty = f"
proof (rule fmap_ext)
  fix k
  have "distinct (map fst (sorted_list_of_fmap f))"
    by (simp add: sorted_list_of_fmap_def comp_def sorted_list_of_fset.rep_eq)
  then have "map_of (rev (sorted_list_of_fmap f)) k = fmlookup f k"
    by (simp add: map_of_rev_distinct)
  then show "fmlookup (fold (\<lambda>(key, val). fmupd key val) (sorted_list_of_fmap f) fmempty) k = fmlookup f k"
    by (simp add: fold_fmupd_lookup split: option.splits)
qed

lemma copy_strings_correct:
  assumes "copy_strings s m = (s', m')" "pred_option (\<lambda>(a, n). a < free m) s"
  shows "extends_but {} m m'" "pred_option (\<lambda>(a, n). free m \<le> a \<and> a < free m') s'" "strings_at m' s' = strings_at m s"
  using assms by (auto simp: copy_strings_def new_cell_def set_cell_def extends_but_def strings_at_def
      split: option.splits prod.splits cell.splits)


lemma copy_map_correct:
  assumes "copy_map r m = (r', m')" "pred_option (\<lambda>a. a < free m) r"
  shows "extends_but {} m m'" "pred_option (\<lambda>a. free m \<le> a \<and> a < free m') r'" "map_at m' r' = map_at m r"
  using assms by (auto simp: copy_map_def new_cell_def set_cell_def extends_but_def map_at_def fold_sorted_fmap
      split: option.splits prod.splits cell.splits)

lemma PreparedClaim_DeepCopyInto_correct:
  assumes "PreparedClaim_DeepCopyInto c m = (out, m')" "claim_within lo (free m) c"
  shows "extends_but {} m m'" "claim_within (free m) (free m') out" "claim_value m' out = claim_value m c"
proof -
  obtain ds m1 where c1: "copy_strings (s_Devices c) m = (ds, m1)" by fastforce
  obtain rs m2 where c2: "copy_map (s_DeviceRequests c) m1 = (rs, m2)" by fastforce
  have out: "out = c\<lparr>s_Devices := ds, s_DeviceRequests := rs\<rparr>" and m': "m' = m2"
    using assms(1) c1 c2 by (simp_all add: PreparedClaim_DeepCopyInto_def)
  have "pred_option (\<lambda>(a, n). a < free m) (s_Devices c)"
    using assms(2) by (auto simp: claim_within_def pred_option_def)
  note one = copy_strings_correct [OF c1 this]
  have le: "free m \<le> free m1"
    using one(1) by (simp add: extends_but_def)
  have "pred_option (\<lambda>a. a < free m1) (s_DeviceRequests c)"
    using assms(2) le by (auto simp: claim_within_def pred_option_def)
  note two = copy_map_correct [OF c2 this]
  show "extends_but {} m m'"
    unfolding m' by (rule extends_but_trans [OF one(1) two(1)])
  have le2: "free m1 \<le> free m2"
    using two(1) by (simp add: extends_but_def)
  show "claim_within (free m) (free m') out"
    using one(2) two(2) le le2 by (auto simp: out m' claim_within_def pred_option_def)
  have "strings_at m2 ds = strings_at m1 ds"
    using one(2) two(1) by (cases ds) (auto simp: strings_at_def extends_but_def)
  moreover have "map_at m1 (s_DeviceRequests c) = map_at m (s_DeviceRequests c)"
    using assms(2) one(1) by (cases "s_DeviceRequests c") (auto simp: map_at_def extends_but_def claim_within_def)
  ultimately show "claim_value m' out = claim_value m c"
    using one(3) two(3) by (simp add: claim_value_def out m')
qed

section \<open>The copy of a checkpoint\<close>

text \<open>One iteration of the loop over the claims: the copy goes into its place of the new array.\<close>

lemma copy_claim_step:
  assumes "PreparedClaim_DeepCopyInto c m = (out, m1)" "fmlookup (cells m) b = Some (ClaimArray xs)"
    and "lo \<le> b" "b < free m" "claim_within 0 lo c"
  shows "fmlookup (cells (set_claim b i out m1)) b = Some (ClaimArray (xs[i := out]))"
    and "extends_but {b} m (set_claim b i out m1)" "extends_but {b} m1 (set_claim b i out m1)"
    and "free m \<le> free (set_claim b i out m1)" "claim_within (free m) (free m1) out" "claim_value m1 out = claim_value m c"
proof -
  have "claim_within 0 (free m) c"
    using assms(3-5) by (auto intro: claim_within_mono)
  note one = PreparedClaim_DeepCopyInto_correct [OF assms(1) this]
  have "fmlookup (cells m1) b = Some (ClaimArray xs)" and le: "free m \<le> free m1"
    using one(1) assms(2,4) by (simp_all add: extends_but_def)
  then have m2: "set_claim b i out m1 = set_cell b (ClaimArray (xs[i := out])) m1"
    by (simp add: set_claim_def)
  show "fmlookup (cells (set_claim b i out m1)) b = Some (ClaimArray (xs[i := out]))"
    by (simp add: m2 set_cell_def)
  show e: "extends_but {b} m1 (set_claim b i out m1)"
    by (auto simp: m2 set_cell_def extends_but_def)
  show "extends_but {b} m (set_claim b i out m1)"
    by (rule extends_but_trans [OF extends_but_mono [OF one(1)] e]) simp
  show "free m \<le> free (set_claim b i out m1)"
    using le by (simp add: m2 set_cell_def)
  show "claim_within (free m) (free m1) out" "claim_value m1 out = claim_value m c"
    using one by simp_all
qed

lemma copy_claims_correct:
  assumes "fmlookup (cells m) b = Some (ClaimArray xs)" "i + length cs \<le> length xs"
    and "lo \<le> b" "b < free m" "list_all (claim_within 0 lo) cs"
  shows "extends_but {b} m (copy_claims b i cs m)
    \<and> (\<exists>outs. fmlookup (cells (copy_claims b i cs m)) b = Some (ClaimArray (take i xs @ outs @ drop (i + length cs) xs))
      \<and> map (claim_value (copy_claims b i cs m)) outs = map (claim_value m) cs
      \<and> list_all (claim_within (free m) (free (copy_claims b i cs m))) outs)"
  using assms
proof (induction cs arbitrary: i xs m)
  case Nil
  then show ?case by (auto simp: extends_but_refl intro!: exI [of _ "[]"])
next
  case (Cons c cs)
  obtain out m1 where dc: "PreparedClaim_DeepCopyInto c m = (out, m1)" by fastforce
  have "claim_within 0 lo c"
    using Cons.prems(5) by simp
  note one = copy_claim_step(1-4) [OF dc Cons.prems(1,3,4) this, where i = i] copy_claim_step(5,6) [OF dc Cons.prems(1,3,4) this]
  let ?m2 = "set_claim b i out m1"
  let ?m = "copy_claims b (Suc i) cs ?m2"
  from Cons.IH [OF one(1), of "Suc i"] Cons.prems one(4)
  obtain outs where ih: "extends_but {b} ?m2 ?m"
    "fmlookup (cells ?m) b = Some (ClaimArray (take (Suc i) (xs[i := out]) @ outs @ drop (Suc i + length cs) (xs[i := out])))"
    "map (claim_value ?m) outs = map (claim_value ?m2) cs" "list_all (claim_within (free ?m2) (free ?m)) outs"
    by auto
  have run: "copy_claims b i (c # cs) m = ?m"
    by (simp add: dc)
  have e: "extends_but {b} m ?m" "extends_but {b} m1 ?m"
    by (rule extends_but_trans [OF one(2) ih(1)], rule extends_but_trans [OF one(3) ih(1)])
  have "claim_value ?m out = claim_value m c"
    using claim_value_extends [OF e(2) one(5)] Cons.prems(4) one(6) by simp
  moreover have "claim_value ?m2 c' = claim_value m c'" if "c' \<in> set cs" for c'
    using claim_value_extends [OF one(2), of 0 lo c'] that Cons.prems(3-5) by (simp add: list_all_iff)
  ultimately have vals: "map (claim_value ?m) (out # outs) = map (claim_value m) (c # cs)"
    using ih(3) by simp
  have "claim_within (free m) (free ?m) out" "list_all (claim_within (free m) (free ?m)) outs"
    using one(4,5) ih(1,4) e(2) by (auto simp: extends_but_def list_all_iff elim!: claim_within_mono)
  moreover have "take (Suc i) (xs[i := out]) @ outs @ drop (Suc i + length cs) (xs[i := out])
      = take i xs @ (out # outs) @ drop (i + length (c # cs)) xs"
    using Cons.prems(2) by (simp add: take_Suc_conv_app_nth)
  ultimately show ?case
    unfolding run using e(1) ih(2) vals by (intro conjI exI [of _ "out # outs"]) simp_all
qed

lemma checkpoint_value_extends:
  assumes "extends_but B m m'" "checkpoint_within lo m c" "\<forall>b \<in> B. b < lo"
  shows "checkpoint_value m' c = checkpoint_value m c"
proof -
  have "claims_at m' (s_PreparedClaims c) = claims_at m (s_PreparedClaims c)"
  proof (cases "s_PreparedClaims c")
    case (Some s)
    then obtain a n where "s = (a, n)" "lo \<le> a" "a < free m"
      using assms(2) by (cases s) (auto simp: checkpoint_within_def)
    moreover have "a \<notin> B"
      using assms(3) \<open>lo \<le> a\<close> by auto
    ultimately show ?thesis
      using assms(1) Some by (simp add: claims_at_def extends_but_def)
  qed (simp add: claims_at_def)
  moreover have "claim_value m' x = claim_value m x" if "x \<in> set (claims_at m (s_PreparedClaims c))" for x
    using claim_value_extends [OF assms(1), of lo "free m" x] that assms(2,3) by (auto simp: checkpoint_within_def list_all_iff)
  ultimately show ?thesis
    by (simp add: checkpoint_value_def)
qed

lemma Checkpoint_DeepCopyInto_correct:
  assumes "Checkpoint_DeepCopyInto c m = (out, m')" "checkpoint_within 0 m c"
  shows "extends_but {} m m' \<and> checkpoint_within (free m) m' out \<and> checkpoint_value m' out = checkpoint_value m c"
proof (cases "s_PreparedClaims c")
  case None
  then have "out = c" "m' = m"
    using assms(1) by (simp_all add: Checkpoint_DeepCopyInto_def)
  with None show ?thesis
    by (simp add: extends_but_refl checkpoint_within_def claims_at_def)
next
  case (Some s)
  then obtain a n where s: "s_PreparedClaims c = Some (a, n)" by (cases s) auto
  let ?b = "free m" and ?m1 = "m\<lparr>cells := fmupd (free m) (ClaimArray (replicate n zero_claim)) (cells m), free := Suc (free m)\<rparr>"
  have cs: "claims_at ?m1 (Some (a, n)) = claims_at m (Some (a, n))" "length (claims_at m (Some (a, n))) = n"
    using assms(2) s by (auto simp: checkpoint_within_def claims_at_def)
  have out: "out = c\<lparr>s_PreparedClaims := Some (?b, n)\<rparr>" and m': "m' = copy_claims ?b 0 (claims_at m (Some (a, n))) ?m1"
    using assms(1) s cs(1) by (simp_all add: Checkpoint_DeepCopyInto_def new_cell_def Let_def)
  have "list_all (claim_within 0 (free m)) (claims_at m (Some (a, n)))"
    using assms(2) s by (simp add: checkpoint_within_def)
  from copy_claims_correct [of ?m1 ?b "replicate n zero_claim" 0 "claims_at m (Some (a, n))", OF _ _ order_refl _ this]
  obtain outs where run: "extends_but {?b} ?m1 m'" "fmlookup (cells m') ?b = Some (ClaimArray outs)"
      "map (claim_value m') outs = map (claim_value ?m1) (claims_at m (Some (a, n)))"
      "list_all (claim_within (Suc (free m)) (free m')) outs"
    unfolding m' using cs(2) by auto
  have len: "length outs = n"
    using run(3) cs(2) by (metis length_map)
  then have at: "claims_at m' (Some (?b, n)) = outs"
    using run(2) by (simp add: claims_at_def)
  have e1: "extends_but {?b} m ?m1"
    by (auto simp: extends_but_def)
  have e: "extends_but {} m m'"
    using extends_but_trans [OF e1 run(1)] by (auto simp: extends_but_def)
  have "claim_value ?m1 x = claim_value m x" if "x \<in> set (claims_at m (Some (a, n)))" for x
    using claim_value_extends [OF e1, of 0 "free m" x] that assms(2) s by (simp add: checkpoint_within_def list_all_iff)
  then have "map (claim_value m') outs = map (claim_value m) (claims_at m (Some (a, n)))"
    using run(3) by simp
  moreover have "list_all (claim_within (free m) (free m')) outs"
    using run(4) by (auto simp: list_all_iff elim!: claim_within_mono)
  moreover have "?b < free m'"
    using run(1) by (simp add: extends_but_def)
  ultimately show ?thesis
    using e at len by (simp add: out s checkpoint_value_def checkpoint_within_def)
qed

section \<open>The conversion shares\<close>

text \<open>The converted checkpoint has the claims of the original, whatever is written to memory afterwards.\<close>

lemma conversion_shares:
  "PreparedClaims (checkpoint_value m (autoConvert_Checkpoint_memory src dst)) = PreparedClaims (checkpoint_value m src)"
  by (simp add: autoConvert_Checkpoint_memory_def checkpoint_value_def)

text \<open>On values, it is the conversion of \<open>Checkpoint_API\<close>.\<close>

lemma conversion_value:
  "checkpoint_value m (autoConvert_Checkpoint_memory src dst)
    = Convert_v1_Checkpoint_To_checkpoint_Checkpoint
        (Convert_checkpoint_Checkpoint_To_v1_Checkpoint (checkpoint_value m src) new_v1_Checkpoint) (checkpoint_value m dst)"
  by (simp add: autoConvert_Checkpoint_memory_def checkpoint_value_def Convert_v1_Checkpoint_To_checkpoint_Checkpoint_def
      Convert_checkpoint_Checkpoint_To_v1_Checkpoint_def)

section \<open>Properties\<close>

text \<open>
  C40: A deep copy of a checkpoint is a new object with the same value, nothing that existed before
  has changed, and the copy shares no memory with the original: whatever is written to the old
  memory afterwards, the copy keeps its value.
\<close>

theorem deep_copy_independent:
  assumes "fmlookup (cells m) p = Some (CheckpointObject c)" "checkpoint_within 0 m c"
    and "Checkpoint_DeepCopyObject (Some p) m = (r, m')" "a < free m"
  shows "\<exists>q out. r = Some q \<and> free m \<le> q \<and> fmlookup (cells m') q = Some (CheckpointObject out)
    \<and> checkpoint_value m' out = checkpoint_value m c \<and> fmlookup (cells m') a = fmlookup (cells m) a
    \<and> checkpoint_value (set_cell a x m') out = checkpoint_value m c"
proof -
  let ?m1 = "m\<lparr>cells := fmupd (free m) (CheckpointObject zero_checkpoint) (cells m), free := Suc (free m)\<rparr>"
  obtain out m2 where run: "Checkpoint_DeepCopyInto c ?m1 = (out, m2)" by fastforce
  have r: "r = Some (free m)" and m': "m' = set_cell (free m) (CheckpointObject out) m2"
    using assms(1,3) run
    by (simp_all add: Checkpoint_DeepCopyObject_def Checkpoint_DeepCopy_def new_cell_def Let_def)
  have e1: "extends_but {} m ?m1"
    by (simp add: extends_but_def)
  have at1: "claims_at ?m1 (s_PreparedClaims c) = claims_at m (s_PreparedClaims c)"
    using assms(2) by (cases "s_PreparedClaims c") (auto simp: checkpoint_within_def claims_at_def)
  then have w1: "checkpoint_within 0 ?m1 c"
    using assms(2) by (auto simp: checkpoint_within_def list_all_iff pred_option_def elim!: claim_within_mono)
  from Checkpoint_DeepCopyInto_correct [OF run w1] have dc: "extends_but {} ?m1 m2"
    "checkpoint_within (Suc (free m)) m2 out" "checkpoint_value m2 out = checkpoint_value ?m1 c" by simp_all
  have v: "checkpoint_value ?m1 c = checkpoint_value m c"
    by (rule checkpoint_value_extends [OF e1 assms(2)]) simp
  have "extends_but {free m} m2 m'"
    by (simp add: m' set_cell_def extends_but_def)
  from checkpoint_value_extends [OF this dc(2)] have v1: "checkpoint_value m' out = checkpoint_value m c"
    using dc(3) v by simp
  have "extends_but {a, free m} m2 (set_cell a x m')"
    by (simp add: m' set_cell_def extends_but_def)
  from checkpoint_value_extends [OF this dc(2)] have v2: "checkpoint_value (set_cell a x m') out = checkpoint_value m c"
    using dc(3) v assms(4) by simp
  have "fmlookup (cells m') a = fmlookup (cells m) a"
    using assms(4) dc(1) by (simp add: m' set_cell_def extends_but_def)
  with r v1 v2 show ?thesis
    by (intro exI [of _ "free m"] exI [of _ out]) (simp add: m' set_cell_def)
qed

text \<open>A checkpoint of one claim with one device, in the cells 0 to 3.\<close>

definition sample_memory :: memory where
  "sample_memory = \<lparr>cells = fmap_of_list
     [(0, StringArray [''network-0'']), (1, StringMap (fmap_of_list [(''network-0'', ''red'')])),
      (2, ClaimArray [\<lparr>s_UID = ''123'', s_Name = ''claim'', s_Devices = Some (0, 1), s_DeviceRequests = Some 1\<rparr>]),
      (3, CheckpointObject \<lparr>s_TypeMeta = zero_TypeMeta, s_PreparedClaims = Some (2, 1)\<rparr>)], free = 4\<rparr>"

theorem deep_copy_independent_witness:
  "\<exists>q out. fst (Checkpoint_DeepCopyObject (Some 3) sample_memory) = Some q
    \<and> fmlookup (cells (snd (Checkpoint_DeepCopyObject (Some 3) sample_memory))) q = Some (CheckpointObject out)
    \<and> checkpoint_value (set_cell 0 (StringArray [''other'']) (snd (Checkpoint_DeepCopyObject (Some 3) sample_memory))) out
      = \<lparr>TypeMeta = zero_TypeMeta, PreparedClaims = [\<lparr>UID = ''123'', Name = ''claim'', Devices = [''network-0''],
          DeviceRequests = fmap_of_list [(''network-0'', ''red'')]\<rparr>]\<rparr>"
proof -
  let ?c = "\<lparr>s_TypeMeta = zero_TypeMeta, s_PreparedClaims = Some (2, 1)\<rparr>"
  have c: "fmlookup (cells sample_memory) 3 = Some (CheckpointObject ?c)" "checkpoint_within 0 sample_memory ?c"
    "0 < free sample_memory"
    by (simp_all add: sample_memory_def checkpoint_within_def claims_at_def claim_within_def fmlookup_of_list)
  have v: "checkpoint_value sample_memory ?c = \<lparr>TypeMeta = zero_TypeMeta, PreparedClaims = [\<lparr>UID = ''123'', Name = ''claim'',
      Devices = [''network-0''], DeviceRequests = fmap_of_list [(''network-0'', ''red'')]\<rparr>]\<rparr>"
    by (simp add: sample_memory_def checkpoint_value_def claim_value_def claims_at_def strings_at_def map_at_def fmlookup_of_list)
  from deep_copy_independent [OF c(1,2) prod.collapse [symmetric] c(3), of "StringArray [''other'']"]
  show ?thesis unfolding v by blast
qed

end
