(* ===== verification/Checkpoint_Scheme.thy ===== *)
theory Checkpoint_Scheme
  imports Checkpoint_API
begin

text \<open>
  The registration of the checkpoint types and their conversions (\<open>register.go\<close>, \<open>v1/register.go\<close>,
  the generated \<open>RegisterConversions\<close>, \<open>install.go\<close>). The scheme is third-party code, the record
  \<open>scheme_library\<close> over schemes of type \<open>'s\<close>; a conversion that is registered is the generated
  function itself.
\<close>

section \<open>The scheme\<close>

datatype conversion =
    From_v1_Checkpoint "v1_Checkpoint \<Rightarrow> Checkpoint \<Rightarrow> Checkpoint"
  | To_v1_Checkpoint "Checkpoint \<Rightarrow> v1_Checkpoint \<Rightarrow> v1_Checkpoint"
  | From_v1_PreparedClaim "v1_PreparedClaim \<Rightarrow> PreparedClaim \<Rightarrow> PreparedClaim"
  | To_v1_PreparedClaim "PreparedClaim \<Rightarrow> v1_PreparedClaim \<Rightarrow> v1_PreparedClaim"

record GroupVersion =
  Group :: string
  gv_Version :: string

type_synonym 's registration = "'s \<Rightarrow> go_error option \<times> 's"

record 's scheme_library =
  runtime_NewScheme :: 's
  runtime_APIVersionInternal :: string
  AddKnownTypes :: "GroupVersion \<Rightarrow> string list \<Rightarrow> 's \<Rightarrow> 's"
  AddToGroupVersion :: "GroupVersion \<Rightarrow> 's \<Rightarrow> 's"
  AddGeneratedConversionFunc :: "conversion \<Rightarrow> 's registration"
  SchemeBuilder_AddToScheme :: "'s registration list \<Rightarrow> 's registration"

section \<open>The internal version\<close>

definition GroupName :: string where
  "GroupName = ''checkpoint.internal.example.com''"

definition SchemeGroupVersion :: "'s scheme_library \<Rightarrow> GroupVersion" where
  "SchemeGroupVersion lib = \<lparr>Group = GroupName, gv_Version = runtime_APIVersionInternal lib\<rparr>"

definition addKnownTypes :: "'s scheme_library \<Rightarrow> 's registration" where
  "addKnownTypes lib scheme = (None, AddKnownTypes lib (SchemeGroupVersion lib) [''Checkpoint''] scheme)"

definition checkpoint_SchemeBuilder :: "'s scheme_library \<Rightarrow> 's registration list" where
  "checkpoint_SchemeBuilder lib = [addKnownTypes lib]"

definition AddToScheme :: "'s scheme_library \<Rightarrow> 's registration" where
  "AddToScheme lib = SchemeBuilder_AddToScheme lib (checkpoint_SchemeBuilder lib)"

section \<open>Version v1\<close>

definition v1_GroupName :: string where
  "v1_GroupName = ''checkpoint.internal.example.com''"

definition v1_SchemeGroupVersion :: GroupVersion where
  "v1_SchemeGroupVersion = \<lparr>Group = v1_GroupName, gv_Version = ''v1''\<rparr>"

definition v1_addKnownTypes :: "'s scheme_library \<Rightarrow> 's registration" where
  "v1_addKnownTypes lib scheme =
    (let scheme = AddKnownTypes lib v1_SchemeGroupVersion [''Checkpoint''] scheme;
         scheme = AddToGroupVersion lib v1_SchemeGroupVersion scheme
     in (None, scheme))"

text \<open>Each conversion is added in turn; the first error ends it.\<close>

fun add_conversions :: "'s scheme_library \<Rightarrow> conversion list \<Rightarrow> 's registration" where
  "add_conversions lib [] s = (None, s)"
| "add_conversions lib (c # cs) s =
    (case AddGeneratedConversionFunc lib c s of
       (Some err, s) \<Rightarrow> (Some err, s)
     | (None, s) \<Rightarrow> add_conversions lib cs s)"

definition RegisterConversions :: "'s scheme_library \<Rightarrow> 's registration" where
  "RegisterConversions lib = add_conversions lib
    [From_v1_Checkpoint Convert_v1_Checkpoint_To_checkpoint_Checkpoint,
     To_v1_Checkpoint Convert_checkpoint_Checkpoint_To_v1_Checkpoint,
     From_v1_PreparedClaim autoConvert_v1_PreparedClaim_To_checkpoint_PreparedClaim,
     To_v1_PreparedClaim autoConvert_checkpoint_PreparedClaim_To_v1_PreparedClaim]"

text \<open>The generated \<open>init\<close> registers the conversions with the builder.\<close>

definition v1_init :: "'s scheme_library \<Rightarrow> 's registration list \<Rightarrow> 's registration list" where
  "v1_init lib builder = builder @ [RegisterConversions lib]"

definition localSchemeBuilder :: "'s scheme_library \<Rightarrow> 's registration list" where
  "localSchemeBuilder lib = v1_init lib [v1_addKnownTypes lib]"

definition v1_AddToScheme :: "'s scheme_library \<Rightarrow> 's registration" where
  "v1_AddToScheme lib = SchemeBuilder_AddToScheme lib (localSchemeBuilder lib)"

section \<open>Installing both\<close>

text \<open>\<open>utilruntime.Must\<close> panics on an error, which is None here.\<close>

definition must_register :: "'s registration \<Rightarrow> 's \<Rightarrow> 's option" where
  "must_register f s = (case f s of (None, s') \<Rightarrow> Some s' | (Some err, s') \<Rightarrow> None)"

definition Install :: "'s scheme_library \<Rightarrow> 's \<Rightarrow> 's option" where
  "Install lib scheme = Option.bind (must_register (AddToScheme lib) scheme) (must_register (v1_AddToScheme lib))"

definition NewScheme :: "'s scheme_library \<Rightarrow> 's option" where
  "NewScheme lib = Install lib (runtime_NewScheme lib)"

section \<open>What is registered\<close>

text \<open>
  The documented behaviour of the scheme that is relied on: a builder applies its functions in
  order until one fails. \<open>knows\<close> and \<open>converts\<close> are what a scheme has been told.
\<close>

fun apply_all :: "'s registration list \<Rightarrow> 's registration" where
  "apply_all [] s = (None, s)"
| "apply_all (f # fs) s = (case f s of (Some err, s') \<Rightarrow> (Some err, s') | (None, s') \<Rightarrow> apply_all fs s')"

definition scheme_laws :: "'s scheme_library \<Rightarrow> ('s \<Rightarrow> (GroupVersion \<times> string) set) \<Rightarrow> ('s \<Rightarrow> conversion set) \<Rightarrow> bool" where
  "scheme_laws lib knows converts \<longleftrightarrow>
    (\<forall>fs. SchemeBuilder_AddToScheme lib fs = apply_all fs)
    \<and> (\<forall>gv ts s. knows (AddKnownTypes lib gv ts s) = knows s \<union> {gv} \<times> set ts \<and> converts (AddKnownTypes lib gv ts s) = converts s)
    \<and> (\<forall>gv s. knows s \<subseteq> knows (AddToGroupVersion lib gv s) \<and> converts (AddToGroupVersion lib gv s) = converts s)
    \<and> (\<forall>c s s'. AddGeneratedConversionFunc lib c s = (None, s') \<longrightarrow> knows s' = knows s \<and> converts s' = insert c (converts s))"

lemma scheme_lawsD:
  assumes "scheme_laws lib knows converts"
  shows "SchemeBuilder_AddToScheme lib fs = apply_all fs"
    and "knows (AddKnownTypes lib gv ts s) = knows s \<union> {gv} \<times> set ts" "converts (AddKnownTypes lib gv ts s) = converts s"
    and "knows s \<subseteq> knows (AddToGroupVersion lib gv s)" "converts (AddToGroupVersion lib gv s) = converts s"
    and "AddGeneratedConversionFunc lib c s = (None, s') \<Longrightarrow> knows s' = knows s \<and> converts s' = insert c (converts s)"
  using assms by (simp_all add: scheme_laws_def)

lemma add_conversions_known:
  assumes "scheme_laws lib knows converts" "add_conversions lib cs s = (None, s')"
  shows "knows s' = knows s \<and> converts s' = set cs \<union> converts s"
  using assms(2)
proof (induction cs arbitrary: s)
  case (Cons c cs)
  then obtain s1 where s1: "AddGeneratedConversionFunc lib c s = (None, s1)" "add_conversions lib cs s1 = (None, s')"
    by (auto split: prod.splits option.splits)
  from scheme_lawsD(6) [OF assms(1) s1(1)] Cons.IH [OF s1(2)] show ?case by auto
qed simp

text \<open>
  A new scheme knows the checkpoint in both versions and has the four generated conversions; a
  registration that fails panics instead.
\<close>

lemma NewScheme_registers:
  assumes "scheme_laws lib knows converts" "NewScheme lib = Some s"
  shows "(SchemeGroupVersion lib, ''Checkpoint'') \<in> knows s" "(v1_SchemeGroupVersion, ''Checkpoint'') \<in> knows s"
    and "From_v1_Checkpoint Convert_v1_Checkpoint_To_checkpoint_Checkpoint \<in> converts s"
    and "To_v1_Checkpoint Convert_checkpoint_Checkpoint_To_v1_Checkpoint \<in> converts s"
proof -
  note law = scheme_lawsD [OF assms(1)]
  let ?s1 = "AddKnownTypes lib (SchemeGroupVersion lib) [''Checkpoint''] (runtime_NewScheme lib)"
  let ?s2 = "AddToGroupVersion lib v1_SchemeGroupVersion (AddKnownTypes lib v1_SchemeGroupVersion [''Checkpoint''] ?s1)"
  have run: "RegisterConversions lib ?s2 = (None, s)"
    using assms(2) by (auto simp: NewScheme_def Install_def must_register_def AddToScheme_def v1_AddToScheme_def law(1)
        checkpoint_SchemeBuilder_def localSchemeBuilder_def v1_init_def addKnownTypes_def v1_addKnownTypes_def Let_def
        split: prod.splits option.splits)
  note c = add_conversions_known [OF assms(1) run [unfolded RegisterConversions_def]]
  have "{(SchemeGroupVersion lib, ''Checkpoint''), (v1_SchemeGroupVersion, ''Checkpoint'')} \<subseteq> knows ?s2"
    using law(4) by (rule subset_trans [rotated]) (simp add: law(2))
  with c show "(SchemeGroupVersion lib, ''Checkpoint'') \<in> knows s" "(v1_SchemeGroupVersion, ''Checkpoint'') \<in> knows s"
    "From_v1_Checkpoint Convert_v1_Checkpoint_To_checkpoint_Checkpoint \<in> converts s"
    "To_v1_Checkpoint Convert_checkpoint_Checkpoint_To_v1_Checkpoint \<in> converts s" by auto
qed

text \<open>A scheme that lists what it is told satisfies the laws.\<close>

definition sample_scheme_library :: "((GroupVersion \<times> string) list \<times> conversion list) scheme_library" where
  "sample_scheme_library = \<lparr>runtime_NewScheme = ([], []), runtime_APIVersionInternal = ''__internal'',
     AddKnownTypes = (\<lambda>gv ts (k, c). (k @ map (Pair gv) ts, c)), AddToGroupVersion = (\<lambda>gv (k, c). (k @ [(gv, ''WatchEvent'')], c)),
     AddGeneratedConversionFunc = (\<lambda>f (k, c). (None, (k, c @ [f]))), SchemeBuilder_AddToScheme = apply_all\<rparr>"

lemma sample_scheme_laws: "scheme_laws sample_scheme_library (set \<circ> fst) (set \<circ> snd)"
  by (auto simp: scheme_laws_def sample_scheme_library_def)

end
