(* ===== verification/Concurrent_Calls.thy ===== *)
theory Concurrent_Calls
  imports Plugin_Main
begin

text \<open>
  Calls that overlap in time: goroutines that serve batches at once share the mutex of the device
  state (\<open>state.go\<close>, \<open>s.Lock()\<close> and \<open>defer s.Unlock()\<close>). The calls are interleaved step by step,
  a goroutine that holds the mutex may be interrupted anywhere, and a panic ends the process. The
  lemmas say that every interleaving is a sequence of whole calls, in the order in which they took
  the mutex, and that no goroutine is stuck.
\<close>

section \<open>Goroutines\<close>

text \<open>
  A goroutine has the requests that it still has to serve; inside the mutex it has what is left of
  the body of the first one. The pool also has the log of the requests that were served: by which
  goroutine, and with which result.
\<close>

record ('x, 'q, 'a) goroutine =
  todo :: "'q list"
  inside :: "('x, 'a) io option"

record ('x, 'q, 'a) pool =
  goroutines :: "('x, 'q, 'a) goroutine list"
  shared :: "'x world"
  served :: "(nat \<times> 'q \<times> 'a outcome) list"
  crashed :: bool

definition panics :: "'a outcome \<Rightarrow> bool" where
  "panics r \<longleftrightarrow> (case r of Abort a \<Rightarrow> True | _ \<Rightarrow> False)"

text \<open>
  \<open>Lock\<close> returns to one goroutine when the mutex is free. A body may be interrupted wherever it
  is: \<open>m'\<close> is what is left of it in the world \<open>w'\<close> it has reached, and nothing but \<open>Lock\<close> and \<open>Unlock\<close>
  touches the mutex. The deferred \<open>Unlock\<close> runs also when the body panics.
\<close>

inductive pool_step :: "('q \<Rightarrow> ('x, 'a) io) \<Rightarrow> ('x, 'q, 'a) pool \<Rightarrow> ('x, 'q, 'a) pool \<Rightarrow> bool" for body where
  lock: "\<not> crashed P \<Longrightarrow> i < length (goroutines P) \<Longrightarrow> goroutines P ! i = \<lparr>todo = q # qs, inside = None\<rparr>
    \<Longrightarrow> \<not> mutex (shared P)
    \<Longrightarrow> pool_step body P (P\<lparr>goroutines := (goroutines P)[i := \<lparr>todo = q # qs, inside = Some (body q)\<rparr>],
          shared := (shared P)\<lparr>mutex := True\<rparr>\<rparr>)"
| work: "\<not> crashed P \<Longrightarrow> i < length (goroutines P) \<Longrightarrow> goroutines P ! i = \<lparr>todo = qs, inside = Some m\<rparr>
    \<Longrightarrow> m (shared P) = m' w' \<Longrightarrow> mutex w'
    \<Longrightarrow> pool_step body P (P\<lparr>goroutines := (goroutines P)[i := \<lparr>todo = qs, inside = Some m'\<rparr>], shared := w'\<rparr>)"
| unlock: "\<not> crashed P \<Longrightarrow> i < length (goroutines P) \<Longrightarrow> goroutines P ! i = \<lparr>todo = q # qs, inside = Some m\<rparr>
    \<Longrightarrow> m (shared P) = (r, w')
    \<Longrightarrow> pool_step body P (P\<lparr>goroutines := (goroutines P)[i := \<lparr>todo = qs, inside = None\<rparr>],
          shared := w'\<lparr>mutex := False\<rparr>, served := served P @ [(i, q, r)], crashed := panics r\<rparr>)"

definition start_pool :: "'q list list \<Rightarrow> 'x world \<Rightarrow> ('x, 'q, 'a) pool" where
  "start_pool qss w = \<lparr>goroutines = map (\<lambda>qs. \<lparr>todo = qs, inside = None\<rparr>) qss, shared = w, served = [], crashed = False\<rparr>"

text \<open>A body that calls \<open>m\<close> first may be interrupted after the call.\<close>

lemma work_call:
  assumes "\<not> crashed P" "i < length (goroutines P)" "goroutines P ! i = \<lparr>todo = qs, inside = Some (call m k)\<rparr>"
    and "m (shared P) = (Ok x, w')" "mutex w'"
  shows "pool_step body P (P\<lparr>goroutines := (goroutines P)[i := \<lparr>todo = qs, inside = Some (k x)\<rparr>], shared := w'\<rparr>)"
  by (rule pool_step.work [OF assms(1-3) _ assms(5)]) (simp add: assms(4) call_run)

section \<open>Whole calls, one after the other\<close>

text \<open>\<open>serial f hist w w'\<close>: serving the requests of the log one after the other gives its results.\<close>

fun serial :: "('q \<Rightarrow> ('x, 'a) io) \<Rightarrow> (nat \<times> 'q \<times> 'a outcome) list \<Rightarrow> 'x world \<Rightarrow> 'x world \<Rightarrow> bool" where
  "serial f [] w w' \<longleftrightarrow> w' = w"
| "serial f ((i, q, r) # hist) w w' \<longleftrightarrow>
    (case f q w of (r1, w1) \<Rightarrow> r1 = r \<and> serial f hist w1 w')"

lemma serial_append: "serial f (hist @ hist') w w' \<longleftrightarrow> (\<exists>w1. serial f hist w w1 \<and> serial f hist' w1 w')"
  by (induction hist arbitrary: w) (auto split: prod.splits)

definition requests_of :: "nat \<Rightarrow> (nat \<times> 'q \<times> 'a outcome) list \<Rightarrow> 'q list" where
  "requests_of i hist = map (fst \<circ> snd) (filter (\<lambda>entry. fst entry = i) hist)"

lemma requests_of_simps [simp]:
  "requests_of i [] = []"
  "requests_of i (hist @ [(j, q, r)]) = (if j = i then requests_of i hist @ [q] else requests_of i hist)"
  by (simp_all add: requests_of_def)

text \<open>
  At every moment at most one goroutine is inside, what it has left to do leads to where its
  whole body, begun when the last call had ended, leads to, and each goroutine has served its
  own requests in its own order.
\<close>

definition in_order :: "'q list list \<Rightarrow> ('x, 'q, 'a) pool \<Rightarrow> bool" where
  "in_order qss P \<longleftrightarrow> length (goroutines P) = length qss \<and> (\<forall>(i, q, r) \<in> set (served P). i < length qss)
    \<and> (\<forall>i < length qss. requests_of i (served P) @ todo (goroutines P ! i) = qss ! i)"

definition outside :: "('x, 'q, 'a) pool \<Rightarrow> nat \<Rightarrow> bool" where
  "outside P i \<longleftrightarrow> inside (goroutines P ! i) = None"

definition between_calls :: "('x, 'q, 'a) pool \<Rightarrow> 'x world \<Rightarrow> bool" where
  "between_calls P w \<longleftrightarrow> shared P = w \<and> (\<forall>i < length (goroutines P). outside P i)"

definition within_call :: "('q \<Rightarrow> ('x, 'a) io) \<Rightarrow> ('x, 'q, 'a) pool \<Rightarrow> 'x world \<Rightarrow> bool" where
  "within_call body P w \<longleftrightarrow> mutex (shared P) \<and> \<not> crashed P
    \<and> (\<exists>i < length (goroutines P). \<exists>q qs m. goroutines P ! i = \<lparr>todo = q # qs, inside = Some m\<rparr>
      \<and> m (shared P) = body q (w\<lparr>mutex := True\<rparr>)
      \<and> (\<forall>j < length (goroutines P). j \<noteq> i \<longrightarrow> outside P j))"

definition pool_inv :: "('q \<Rightarrow> ('x, 'a) io) \<Rightarrow> 'q list list \<Rightarrow> 'x world \<Rightarrow> ('x, 'q, 'a) pool \<Rightarrow> bool" where
  "pool_inv body qss w0 P \<longleftrightarrow> in_order qss P
    \<and> (\<exists>w. \<not> mutex w \<and> serial (locked \<circ> body) (served P) w0 w \<and> (between_calls P w \<or> within_call body P w))"

lemma within_callE:
  assumes "within_call body P w" "i < length (goroutines P)" "goroutines P ! i = \<lparr>todo = qs, inside = Some m\<rparr>"
  obtains q qs' where "qs = q # qs'" "m (shared P) = body q (w\<lparr>mutex := True\<rparr>)"
    "\<forall>j < length (goroutines P). j \<noteq> i \<longrightarrow> outside P j"
proof -
  from assms(1) obtain k q qs' m' where k: "goroutines P ! k = \<lparr>todo = q # qs', inside = Some m'\<rparr>"
    "m' (shared P) = body q (w\<lparr>mutex := True\<rparr>)" "\<forall>j < length (goroutines P). j \<noteq> k \<longrightarrow> outside P j"
    unfolding within_call_def by blast
  have "i = k"
    using k(3) assms(2,3) by (auto simp: outside_def)
  with k assms(3) show thesis
    by (intro that [of q qs']) auto
qed

lemma within_callI:
  assumes "\<not> crashed P" "mutex (shared P)" "i < length (goroutines P)" "goroutines P ! i = \<lparr>todo = q # qs, inside = Some m\<rparr>"
    and "m (shared P) = body q (w\<lparr>mutex := True\<rparr>)" "\<And>j. j < length (goroutines P) \<Longrightarrow> j \<noteq> i \<Longrightarrow> outside P j"
  shows "within_call body P w"
  using assms by (auto simp: within_call_def)

lemma pool_inv_start: "\<not> mutex w \<Longrightarrow> pool_inv body qss w (start_pool qss w)"
  by (simp add: pool_inv_def in_order_def between_calls_def start_pool_def outside_def)

lemma in_order_step: "pool_step body P P' \<Longrightarrow> in_order qss P \<Longrightarrow> in_order qss P'"
  by (induction rule: pool_step.induct) (auto simp: in_order_def nth_list_update)

lemma pool_inv_step:
  assumes "pool_step body P P'" "pool_inv body qss w0 P"
  shows "pool_inv body qss w0 P'"
proof -
  from assms(2) obtain w where w: "in_order qss P" "\<not> mutex w" "serial (locked \<circ> body) (served P) w0 w"
    and at: "between_calls P w \<or> within_call body P w"
    unfolding pool_inv_def by blast
  have ord: "in_order qss P'"
    using assms(1) w(1) by (rule in_order_step)
  show ?thesis
    using assms(1)
  proof cases
    case (lock i q qs)
    then have "between_calls P w"
      using at by (auto simp: within_call_def)
    then have "within_call body P' w"
      unfolding within_call_def using lock
      by (auto simp: between_calls_def outside_def intro!: exI [of _ i])
    then show ?thesis
      using ord w lock(1) by (auto simp: pool_inv_def)
  next
    case (work i qs m m' w')
    then have "within_call body P w"
      using at by (auto simp: between_calls_def outside_def)
    then obtain q qs' where here: "qs = q # qs'" "m (shared P) = body q (w\<lparr>mutex := True\<rparr>)"
      "\<forall>j < length (goroutines P). j \<noteq> i \<longrightarrow> outside P j"
      using work(3,4) by (rule within_callE)
    have "within_call body P' w"
      by (rule within_callI [of _ i q qs' m']) (use work here in \<open>auto simp: outside_def\<close>)
    then show ?thesis
      using ord w work(1) by (auto simp: pool_inv_def)
  next
    case (unlock i q qs m r w')
    then have "within_call body P w"
      using at by (auto simp: between_calls_def outside_def)
    then have "body q (w\<lparr>mutex := True\<rparr>) = (r, w') \<and> (\<forall>j < length (goroutines P). j \<noteq> i \<longrightarrow> outside P j)"
      using unlock(3,4) by (rule within_callE) (simp add: unlock(5))
    then have body: "body q (w\<lparr>mutex := True\<rparr>) = (r, w')"
      and others: "\<forall>j < length (goroutines P). j \<noteq> i \<longrightarrow> outside P j" by blast+
    from body w(2) have "locked (body q) w = (r, w'\<lparr>mutex := False\<rparr>)"
      by (simp add: locked_run)
    with w(3) have "serial (locked \<circ> body) (served P') w0 (w'\<lparr>mutex := False\<rparr>)"
      unfolding unlock(1) by (auto simp: serial_append)
    moreover have "between_calls P' (w'\<lparr>mutex := False\<rparr>)"
      using others unlock by (auto simp: between_calls_def outside_def nth_list_update)
    ultimately show ?thesis
      using ord by (auto simp: pool_inv_def intro!: exI [of _ "w'\<lparr>mutex := False\<rparr>"])
  qed
qed

lemma pool_inv_run:
  assumes "(pool_step body)\<^sup>*\<^sup>* (start_pool qss w) P" "\<not> mutex w"
  shows "pool_inv body qss w P"
  using assms(1)
proof (induction rule: rtranclp_induct)
  case base
  from assms(2) show ?case by (rule pool_inv_start)
qed (rule pool_inv_step)


lemma inside_once:
  assumes "pool_inv body qss w0 P" "i < length qss" "j < length qss" "\<not> outside P i" "\<not> outside P j"
  shows "i = j"
proof -
  from assms obtain w where "length (goroutines P) = length qss" "between_calls P w \<or> within_call body P w"
    unfolding pool_inv_def in_order_def by blast
  with assms(2-5) show ?thesis
    unfolding between_calls_def within_call_def by metis
qed

lemma pool_invE:
  assumes "pool_inv body qss w0 P"
  obtains w where "\<not> mutex w" "serial (locked \<circ> body) (served P) w0 w" "\<not> mutex (shared P) \<longrightarrow> shared P = w"
    "mutex (shared P) \<longleftrightarrow> (\<exists>i < length qss. \<not> outside P i)"
proof -
  from assms obtain w where w: "in_order qss P" "\<not> mutex w" "serial (locked \<circ> body) (served P) w0 w"
    and at: "between_calls P w \<or> within_call body P w"
    unfolding pool_inv_def by blast
  have "\<not> mutex (shared P) \<longrightarrow> shared P = w" "mutex (shared P) \<longleftrightarrow> (\<exists>i < length qss. \<not> outside P i)"
    using at w(1,2) by (auto simp: between_calls_def within_call_def in_order_def outside_def)
  with w(2,3) show thesis by (rule that)
qed

section \<open>No goroutine is stuck\<close>

definition left :: "('x, 'q, 'a) pool \<Rightarrow> nat" where
  "left P = (\<Sum>g \<leftarrow> goroutines P. length (todo g))"

definition finished :: "('x, 'q, 'a) pool \<Rightarrow> bool" where
  "finished P \<longleftrightarrow> list_all (\<lambda>g. todo g = [] \<and> inside g = None) (goroutines P)"

lemma left_update:
  "i < length gs \<Longrightarrow>
    (\<Sum>g \<leftarrow> gs[i := g']. length (todo g)) + length (todo (gs ! i)) = (\<Sum>g \<leftarrow> gs. length (todo g)) + length (todo g')"
  by (induction gs arbitrary: i) (auto split: nat.split)

text \<open>A goroutine that is inside can go on to the end of its call.\<close>

lemma unlock_next:
  assumes "within_call body P w" 
  shows "\<exists>P'. pool_step body P P' \<and> left P' < left P"
proof -
  from assms obtain i q qs m where at: "\<not> crashed P" "i < length (goroutines P)"
    "goroutines P ! i = \<lparr>todo = q # qs, inside = Some m\<rparr>"
    unfolding within_call_def by blast
  obtain r w' where "m (shared P) = (r, w')" by fastforce
  from pool_step.unlock [OF at this, of body] left_update [OF at(2), of "\<lparr>todo = qs, inside = None\<rparr>"] at(3)
  show ?thesis
    by (intro exI conjI) (assumption, simp add: left_def)
qed

lemma lock_next:
  assumes "between_calls P w" "\<not> mutex w" "\<not> crashed P" "\<not> finished P"
  shows "\<exists>P'. pool_step body P P' \<and> left P' = left P \<and> mutex (shared P')"
proof -
  from assms obtain i where i: "i < length (goroutines P)" "todo (goroutines P ! i) \<noteq> []"
    "inside (goroutines P ! i) = None"
    by (auto simp: finished_def list_all_length between_calls_def outside_def)
  then obtain q qs where at: "goroutines P ! i = \<lparr>todo = q # qs, inside = None\<rparr>"
    by (cases "goroutines P ! i") (auto simp: neq_Nil_conv)
  have "\<not> mutex (shared P)"
    using assms(1,2) by (simp add: between_calls_def)
  from pool_step.lock [OF assms(3) i(1) at this, of body]
    left_update [OF i(1), of "\<lparr>todo = q # qs, inside = Some (body q)\<rparr>"] at
  show ?thesis
    by (intro exI conjI) (assumption, simp_all add: left_def)
qed

lemma pool_can_finish:
  assumes "pool_inv body qss w0 P"
  shows "\<exists>P'. (pool_step body)\<^sup>*\<^sup>* P P' \<and> (crashed P' \<or> finished P')"
  using assms
proof (induction "left P" arbitrary: P rule: less_induct)
  case less
  have within: ?case if "pool_inv body qss w0 P1" "within_call body P1 w" "left P1 = left P"
      "(pool_step body)\<^sup>*\<^sup>* P P1" for P1 w
  proof -
    from unlock_next [OF that(2)] obtain P2 where P2: "pool_step body P1 P2" "left P2 < left P1" by blast
    from less(1) [OF _ pool_inv_step [OF P2(1) that(1)]] P2(2) that(3)
    obtain P' where "(pool_step body)\<^sup>*\<^sup>* P2 P'" "crashed P' \<or> finished P'" by auto
    with that(4) P2(1) show ?thesis
      by (meson rtranclp.rtrancl_into_rtrancl rtranclp_trans)
  qed
  from less(2) obtain w where w: "\<not> mutex w" and at: "between_calls P w \<or> within_call body P w"
    unfolding pool_inv_def by blast
  show ?case
  proof (cases "crashed P \<or> finished P")
    case False
    show ?thesis
      using at
    proof
      assume "between_calls P w"
      from lock_next [OF this w] False obtain P1 where P1: "pool_step body P P1" "left P1 = left P" "mutex (shared P1)"
        by auto
      from pool_inv_step [OF P1(1) less(2)] P1(3) obtain w1 where "pool_inv body qss w0 P1" "within_call body P1 w1"
        unfolding pool_inv_def between_calls_def by auto
      from within [OF this P1(2)] P1(1) show ?thesis by blast
    qed (use within less(2) in blast)
  qed auto
qed

section \<open>The calls of the driver\<close>

text \<open>A request of a batch, what the device state does for it, and what it does behind its mutex.\<close>

datatype request = PrepareRequest ResourceClaim | UnprepareRequest UID

fun serve :: "('x, 'o) libraries \<Rightarrow> 'o DeviceState \<Rightarrow> request \<Rightarrow> ('x, pb_Device list) io" where
  "serve lib s (PrepareRequest claim) = Prepare lib s claim"
| "serve lib s (UnprepareRequest uid) = call (Unprepare lib s uid) (\<lambda>_. ok [])"

fun behind_lock :: "('x, 'o) libraries \<Rightarrow> 'o DeviceState \<Rightarrow> request \<Rightarrow> ('x, pb_Device list) io" where
  "behind_lock lib s (PrepareRequest claim) = prepare_body lib s claim"
| "behind_lock lib s (UnprepareRequest uid) = call (unprepare_body lib s uid) (\<lambda>_. ok [])"

lemma locked_call_ok: "locked (call m (\<lambda>_. ok y)) = call (locked m) (\<lambda>_. ok y)"
  by (rule ext) (auto simp: locked_def effect_simps split: prod.splits outcome.splits)

lemma serve_locked: "locked \<circ> behind_lock lib s = serve lib s"
proof
  fix q show "(locked \<circ> behind_lock lib s) q = serve lib s q"
    by (cases q) (simp_all add: Prepare_def Unprepare_def locked_call_ok)
qed

lemmas serve_poolE = pool_invE [where body = "behind_lock lib s" for lib s, unfolded serve_locked]

text \<open>A batch of the driver is the requests of its claims, one after the other.\<close>

lemma prepare_batch_serial:
  assumes "prepare_each lib d claims m w = (Ok m', w')"
  shows "\<exists>hist. serial (serve lib (state d)) hist w w' \<and> requests_of i hist = map PrepareRequest claims
    \<and> list_all (\<lambda>(j, q, r). j = i \<and> \<not> panics r) hist"
  using assms
proof (induction claims arbitrary: m w)
  case Nil
  then show ?case by (auto simp: ok_def intro!: exI [of _ "[]"])
next
  case (Cons c cs)
  from Cons.prems obtain x w1 where one: "prepareResourceClaim lib d c w = (Ok x, w1)"
    and rest: "prepare_each lib d cs (fmupd (claim_UID c) x m) w1 = (Ok m', w')"
    by (auto elim!: call_OkE)
  obtain r where r: "Prepare lib (state d) c w = (r, w1)" "\<not> panics r"
    using one by (auto simp: prepareResourceClaim_def effect_simps panics_def split: prod.splits outcome.splits)
  from Cons.IH [OF rest] obtain hist where "serial (serve lib (state d)) hist w1 w'"
    "requests_of i hist = map PrepareRequest cs" "list_all (\<lambda>(j, q, r). j = i \<and> \<not> panics r) hist" by blast
  with r show ?case
    by (intro exI [of _ "(i, PrepareRequest c, r) # hist"]) (simp add: requests_of_def)
qed

lemma unprepare_batch_serial:
  assumes "unprepare_each lib d objs m w = (Ok m', w')"
  shows "\<exists>hist. serial (serve lib (state d)) hist w w' \<and> requests_of i hist = map (UnprepareRequest \<circ> obj_UID) objs
    \<and> list_all (\<lambda>(j, q, r). j = i \<and> \<not> panics r) hist"
  using assms
proof (induction objs arbitrary: m w)
  case Nil
  then show ?case by (auto simp: ok_def intro!: exI [of _ "[]"])
next
  case (Cons obj objs)
  from Cons.prems obtain x w1 where one: "unprepareResourceClaim lib d obj w = (Ok x, w1)"
    and rest: "unprepare_each lib d objs (fmupd (obj_UID obj) x m) w1 = (Ok m', w')"
    by (auto elim!: call_OkE)
  obtain r where r: "serve lib (state d) (UnprepareRequest (obj_UID obj)) w = (r, w1)" "\<not> panics r"
    using one by (auto simp: unprepareResourceClaim_def effect_simps panics_def split: prod.splits outcome.splits)
  from Cons.IH [OF rest] obtain hist where "serial (serve lib (state d)) hist w1 w'"
    "requests_of i hist = map (UnprepareRequest \<circ> obj_UID) objs" "list_all (\<lambda>(j, q, r). j = i \<and> \<not> panics r) hist" by blast
  with r show ?case
    by (intro exI [of _ "(i, UnprepareRequest (obj_UID obj), r) # hist"]) (simp add: requests_of_def)
qed

text \<open>The requests whose claims are of the workload, and the action of the driver that a served one is.\<close>

definition request_in :: "ResourceClaim set \<Rightarrow> request \<Rightarrow> bool" where
  "request_in K q \<longleftrightarrow> (case q of PrepareRequest claim \<Rightarrow> claim \<in> K | UnprepareRequest uid \<Rightarrow> uid \<in> claim_UID ` K)"

definition action_of :: "nat \<times> request \<times> 'a outcome \<Rightarrow> action \<Rightarrow> bool" where
  "action_of entry a \<longleftrightarrow> (case entry of (i, q, r) \<Rightarrow>
    case q of PrepareRequest claim \<Rightarrow> a = PrepareClaim claim (succeeded r)
    | UnprepareRequest uid \<Rightarrow> \<exists>claim. claim_UID claim = uid
        \<and> (a = UnprepareClaim claim (succeeded r) \<or> a = UnprepareBlind claim))"

lemma serve_step:
  assumes "serve lib (new_state lib config) q w = (r, w')" "request_in K q"
  shows "\<exists>a. driver_step lib config K w a w' \<and> action_of (i, q, r) a"
proof (cases q)
  case (PrepareRequest claim)
  with assms show ?thesis
    by (auto simp: request_in_def action_of_def intro: driver_step.prepare)
next
  case (UnprepareRequest uid)
  with assms(2) obtain claim where claim: "claim \<in> K" "claim_UID claim = uid"
    by (auto simp: request_in_def)
  obtain r1 w1 where un: "Unprepare lib (new_state lib config) (claim_UID claim) w = (r1, w1)" by fastforce
  then have "w1 = w'" "succeeded r1 = succeeded r"
    using assms(1) UnprepareRequest claim(2) by (cases r1; auto simp: call_run ok_def succeeded_def)+
  with un claim UnprepareRequest driver_step.unprepare [OF claim(1) un] driver_step.unprepare_blind [OF claim(1) un]
  show ?thesis
    by (cases "reads_checkpoint (new_state lib config) w") (auto simp: action_of_def)
qed

lemma serial_run:
  assumes "serial (serve lib (new_state lib config)) hist w w'" "\<forall>(i, q, r) \<in> set hist. request_in K q"
  shows "\<exists>as. driver_run lib config K w as w' \<and> list_all2 action_of hist as"
  using assms
proof (induction "serve lib (new_state lib config)" hist w w' rule: serial.induct)
  case (1 w w')
  then show ?case by (auto intro: runs.begins)
next
  case (2 i q r hist w w')
  then obtain w1 where one: "serve lib (new_state lib config) q w = (r, w1)"
    and rest: "serial (serve lib (new_state lib config)) hist w1 w'"
    by (auto split: prod.splits)
  from serve_step [OF one] 2(3) obtain a where a: "driver_step lib config K w a w1" "action_of (i, q, r) a" by fastforce
  from 2(1) [OF one [symmetric] rest] 2(3) obtain as where
    "driver_run lib config K w1 as w'" "list_all2 action_of hist as" by auto
  with runs_trans [OF driver_run_step [OF a(1)]] a(2) show ?case
    by (intro exI [of _ "[a] @ as"]) auto
qed

lemma in_order_served:
  assumes "in_order qss P" "(i, q, r) \<in> set (served P)"
  shows "q \<in> set (concat qss)"
proof -
  have i: "i < length qss"
    using assms by (auto simp: in_order_def)
  have "q \<in> set (requests_of i (served P))"
    using assms(2) by (force simp: requests_of_def)
  with assms(1) i have "q \<in> set (qss ! i)"
    unfolding in_order_def by (metis Un_iff set_append)
  with i show ?thesis by auto
qed

lemma pool_crash:
  assumes "(pool_step body)\<^sup>*\<^sup>* (start_pool qss w) P"
  shows "crashed P \<longleftrightarrow> served P \<noteq> [] \<and> panics (snd (snd (last (served P))))"
  using assms
proof (induction rule: rtranclp_induct)
  case (step P P')
  from step(2) step(3) show ?case by cases auto
qed (simp add: start_pool_def)

lemma serve_returns:
  assumes "serve lib s q w = (r, w')" "alive w" "\<not> mutex w" "\<And>claim. q = PrepareRequest claim \<Longrightarrow> Allocation claim \<noteq> None"
  shows "alive w'" "\<not> mutex w'"
    "r = Abort a \<Longrightarrow> a = NilDeref \<and> (\<exists>uid. q = UnprepareRequest uid) \<and> \<not> reads_checkpoint s w"
proof -
  have "alive w' \<and> \<not> mutex w' \<and> (r = Abort a \<longrightarrow> a = NilDeref \<and> (\<exists>uid. q = UnprepareRequest uid) \<and> \<not> reads_checkpoint s w)"
  proof (cases q)
    case (PrepareRequest claim)
    with Prepare_returns [of lib s claim w r w'] assms show ?thesis by auto
  next
    case (UnprepareRequest uid)
    obtain r1 w1 where un: "Unprepare lib s uid w = (r1, w1)" by fastforce
    with assms(1) UnprepareRequest have "w1 = w'" "\<And>a. r1 = Abort a \<longleftrightarrow> r = Abort a"
      by (cases r1; auto simp: call_run ok_def)+
    with Unprepare_returns [OF un assms(2,3)] UnprepareRequest show ?thesis by auto
  qed
  then show "alive w'" "\<not> mutex w'"
    "r = Abort a \<Longrightarrow> a = NilDeref \<and> (\<exists>uid. q = UnprepareRequest uid) \<and> \<not> reads_checkpoint s w"
    by blast+
qed

lemma serial_alive:
  assumes "serial (serve lib s) hist w w'" "alive w" "\<not> mutex w"
    and "\<And>j claim r. (j, PrepareRequest claim, r) \<in> set hist \<Longrightarrow> Allocation claim \<noteq> None"
  shows "alive w'" "\<not> mutex w'"
proof -
  have "alive w' \<and> \<not> mutex w'"
    using assms
  proof (induction "serve lib s" hist w w' rule: serial.induct)
    case (2 j q1 r hist w w')
    obtain w1 where one: "serve lib s q1 w = (r, w1)" and rest: "serial (serve lib s) hist w1 w'"
      using 2(2) by (auto split: prod.splits)
    have "q1 = PrepareRequest claim \<Longrightarrow> Allocation claim \<noteq> None" for claim
      using 2(5) [of j claim r] by simp
    from serve_returns(1,2) [OF one 2(3,4) this] 2(1) [OF one [symmetric] rest] 2(5)
    show ?case by (metis list.set_intros(2))
  qed simp
  then show "alive w'" "\<not> mutex w'" by blast+
qed

lemma serial_panic:
  assumes "serial (serve lib s) hist w w'" "alive w" "\<not> mutex w" "hist \<noteq> []" "last hist = (i, q, Abort a)"
    and "\<And>j claim r. (j, PrepareRequest claim, r) \<in> set hist \<Longrightarrow> Allocation claim \<noteq> None"
  shows "\<exists>uid w1. last hist = (i, UnprepareRequest uid, Abort NilDeref)
    \<and> serial (serve lib s) (butlast hist) w w1 \<and> \<not> reads_checkpoint s w1"
proof -
  from append_butlast_last_id [OF assms(4)] assms(5) have hist: "hist = butlast hist @ [(i, q, Abort a)]" by simp
  with assms(1) have "serial (serve lib s) (butlast hist @ [(i, q, Abort a)]) w w'" by simp
  then obtain w1 where w1: "serial (serve lib s) (butlast hist) w w1"
    and "serial (serve lib s) [(i, q, Abort a)] w1 w'"
    unfolding serial_append by blast
  then have one: "serve lib s q w1 = (Abort a, w')"
    by (auto split: prod.splits)
  have "Allocation claim \<noteq> None" if "(j, PrepareRequest claim, r) \<in> set (butlast hist)" for j claim r
    using assms(6) in_set_butlastD [OF that] .
  note prior = serial_alive [OF w1 assms(2,3) this]
  have alloc: "Allocation claim \<noteq> None" if "q = PrepareRequest claim" for claim
    using assms(6) last_in_set [OF assms(4)] assms(5) that by auto
  have "a = NilDeref \<and> (\<exists>uid. q = UnprepareRequest uid) \<and> \<not> reads_checkpoint s w1"
    by (rule serve_returns(3) [OF one prior alloc refl])
  with w1 assms(5) show ?thesis by auto
qed

section \<open>Properties\<close>

text \<open>
  C8: Batches that overlap in time, interleaved in any way, with whatever fails in them and with a
  panic or a kill at any point, are equal to whole calls of Prepare and Unprepare, one after the
  other, each goroutine's in its own order: the calls that ended give the results that were
  logged, and when no goroutine is inside the mutex the world is the one they leave. The
  checkpoint then has the claims of a run of the machine of the held claims whose actions are
  those calls.
\<close>

theorem concurrent_calls_refine:
  assumes "usable lib config K" "holds (new_state lib config) K cs w" "\<forall>q \<in> set (concat qss). request_in K q"
    and "(pool_step (behind_lock lib (new_state lib config)))\<^sup>*\<^sup>* (start_pool qss w) P"
  shows "\<exists>as cs' w'. serial (serve lib (new_state lib config)) (served P) w w'
    \<and> (\<forall>i < length qss. requests_of i (served P) @ todo (goroutines P ! i) = qss ! i)
    \<and> (\<not> mutex (shared P) \<longrightarrow> shared P = w')
    \<and> list_all2 action_of (served P) as \<and> claims_run cs as cs'
    \<and> stored (new_state lib config) w' = Some (map checkpoint_entry cs')"
proof -
  have inv: "pool_inv (behind_lock lib (new_state lib config)) qss w P"
    using pool_inv_run [OF assms(4)] holds_simps(1) [OF assms(2)] .
  then have order: "in_order qss P"
    by (simp add: pool_inv_def)
  from inv obtain w' where w': "serial (serve lib (new_state lib config)) (served P) w w'" "\<not> mutex (shared P) \<longrightarrow> shared P = w'"
    by (rule serve_poolE) (rule that)
  have "\<forall>(i, q, r) \<in> set (served P). request_in K q"
    using in_order_served [OF order] assms(3) by blast
  from serial_run [OF w'(1) this] obtain as where as: "driver_run lib config K w as w'" "list_all2 action_of (served P) as"
    by blast
  from driver_run_refines [OF as(1) assms(1,2)] holds_simps(2) obtain cs' where
    "claims_run cs as cs'" "stored (new_state lib config) w' = Some (map checkpoint_entry cs')" by blast
  with order as(2) w' show ?thesis
    unfolding in_order_def by blast
qed

text \<open>Two batches: one goroutine prepares the claim while the other one waits to unprepare it.\<close>

lemma sample_overlap:
  "\<exists>P ds. (pool_step (behind_lock sample_libraries sample_state))\<^sup>*\<^sup>*
      (start_pool [[UnprepareRequest ''123''], [PrepareRequest sample_claim]] sample_world) P
    \<and> \<not> mutex (shared P) \<and> served P = [(1, PrepareRequest sample_claim, Ok ds)]
    \<and> todo (goroutines P ! 0) = [UnprepareRequest ''123'']"
proof -
  let ?body = "behind_lock sample_libraries sample_state"
  let ?P0 = "start_pool [[UnprepareRequest ''123''], [PrepareRequest sample_claim]] sample_world :: (sample_ext, request, pb_Device list) pool"
  obtain ds w' where body: "prepare_body sample_libraries sample_state sample_claim (sample_world\<lparr>mutex := True\<rparr>) = (Ok ds, w')"
    using sample_prepare_body by (elim exE)
  have start: "\<not> crashed ?P0" "1 < length (goroutines ?P0)"
    "goroutines ?P0 ! 1 = \<lparr>todo = [PrepareRequest sample_claim], inside = None\<rparr>" "\<not> mutex (shared ?P0)"
    by (simp_all add: start_pool_def)
  let ?P1 = "?P0\<lparr>goroutines := (goroutines ?P0)[1 := \<lparr>todo = [PrepareRequest sample_claim], inside = Some (?body (PrepareRequest sample_claim))\<rparr>],
      shared := (shared ?P0)\<lparr>mutex := True\<rparr>\<rparr>"
  have one: "pool_step ?body ?P0 ?P1"
    by (rule pool_step.lock [OF start])
  have at: "\<not> crashed ?P1" "1 < length (goroutines ?P1)"
    "goroutines ?P1 ! 1 = \<lparr>todo = [PrepareRequest sample_claim], inside = Some (?body (PrepareRequest sample_claim))\<rparr>"
    "?body (PrepareRequest sample_claim) (shared ?P1) = (Ok ds, w')"
    using body by (simp_all add: start_pool_def)
  from rtranclp.rtrancl_into_rtrancl [where r = "pool_step ?body", OF r_into_rtranclp [where r = "pool_step ?body", OF one] pool_step.unlock [OF at]]
  show ?thesis
    by (intro exI conjI) (assumption, simp_all add: start_pool_def)
qed

theorem concurrent_calls_refine_witness:
  "\<exists>P. (pool_step (behind_lock sample_libraries sample_state))\<^sup>*\<^sup>*
      (start_pool [[UnprepareRequest ''123''], [PrepareRequest sample_claim]] sample_world) P
    \<and> stored sample_state (shared P) = Some [checkpoint_entry sample_claim]
    \<and> todo (goroutines P ! 0) = [UnprepareRequest ''123'']"
proof -
  obtain P ds where run: "(pool_step (behind_lock sample_libraries (new_state sample_libraries sample_config)))\<^sup>*\<^sup>*
      (start_pool [[UnprepareRequest ''123''], [PrepareRequest sample_claim]] sample_world) P"
    and P: "\<not> mutex (shared P)" "served P = [(1, PrepareRequest sample_claim, Ok ds)]"
      "todo (goroutines P ! 0) = [UnprepareRequest ''123'']"
    using sample_overlap unfolding new_state_sample by blast
  have "\<forall>q \<in> set (concat [[UnprepareRequest ''123''], [PrepareRequest sample_claim]]). request_in {sample_claim} q"
    by (simp add: request_in_def)
  from concurrent_calls_refine [OF sample_usable sample_holds this run] P obtain as cs' where
    "list_all2 action_of [(1::nat, PrepareRequest sample_claim, Ok ds)] as" "claims_run [] as cs'"
    "stored sample_state (shared P) = Some (map checkpoint_entry cs')"
    unfolding new_state_sample by auto
  then have "as = [] @ [PrepareClaim sample_claim True]"
    by (auto simp: list_all2_Cons1 action_of_def succeeded_def)
  with \<open>claims_run [] as cs'\<close> have "claims_run [] ([] @ [PrepareClaim sample_claim True]) cs'" by simp
  then have "cs' = [sample_claim]"
    unfolding claims_run_simps by (auto elim: claims_stepE(1))
  with \<open>stored sample_state (shared P) = Some (map checkpoint_entry cs')\<close>
  have "stored sample_state (shared P) = Some [checkpoint_entry sample_claim]" by simp
  with run P(3) show ?thesis
    unfolding new_state_sample by blast
qed

text \<open>
  C9: The mutex does its work: in every state that overlapping batches of allocated claims reach in
  a process that is not killed, at most one goroutine is inside it, and there is a way to go on in
  which either every request is served or the process panics. The process panics only in an
  unprepare that could not read the checkpoint, in the world that the calls before it had left.
\<close>

theorem concurrent_calls_return:
  assumes "alive w" "\<not> mutex w" "\<forall>claim. PrepareRequest claim \<in> set (concat qss) \<longrightarrow> Allocation claim \<noteq> None"
    and "(pool_step (behind_lock lib s))\<^sup>*\<^sup>* (start_pool qss w) P"
  shows "(\<forall>i < length qss. \<forall>j < length qss. inside (goroutines P ! i) \<noteq> None \<and> inside (goroutines P ! j) \<noteq> None \<longrightarrow> i = j)
    \<and> (\<exists>P'. (pool_step (behind_lock lib s))\<^sup>*\<^sup>* P P' \<and> (finished P' \<or> crashed P'))
    \<and> (crashed P \<longrightarrow> (\<exists>i uid w1. served P \<noteq> [] \<and> last (served P) = (i, UnprepareRequest uid, Abort NilDeref)
        \<and> serial (serve lib s) (butlast (served P)) w w1 \<and> \<not> reads_checkpoint s w1))"
proof (intro conjI impI)
  note inv = pool_inv_run [OF assms(4,2)]
  then show "\<forall>i < length qss. \<forall>j < length qss. inside (goroutines P ! i) \<noteq> None \<and> inside (goroutines P ! j) \<noteq> None \<longrightarrow> i = j"
    using inside_once [OF inv] by (simp add: outside_def)
  show "\<exists>P'. (pool_step (behind_lock lib s))\<^sup>*\<^sup>* P P' \<and> (finished P' \<or> crashed P')"
    using pool_can_finish [OF inv] by blast
  assume "crashed P"
  with pool_crash [OF assms(4)] obtain i q a where last: "served P \<noteq> []" "last (served P) = (i, q, Abort a)"
    by (cases "last (served P)") (auto simp: panics_def split: outcome.splits)
  from inv obtain w' where w': "serial (serve lib s) (served P) w w'"
    by (rule serve_poolE) (rule that)
  have "in_order qss P"
    using inv by (simp add: pool_inv_def)
  have alloc: "Allocation claim \<noteq> None" if "(j, PrepareRequest claim, r) \<in> set (served P)" for j claim r
    using in_order_served [OF \<open>in_order qss P\<close> that] assms(3) by blast
  from serial_panic [OF w' assms(1,2) last] alloc last(1)
  show "\<exists>i uid w1. served P \<noteq> [] \<and> last (served P) = (i, UnprepareRequest uid, Abort NilDeref)
      \<and> serial (serve lib s) (butlast (served P)) w w1 \<and> \<not> reads_checkpoint s w1" by blast
qed

theorem concurrent_calls_return_witness:
  "\<exists>P P'. (pool_step (behind_lock sample_libraries sample_state))\<^sup>*\<^sup>* P P'
    \<and> served P \<noteq> [] \<and> todo (goroutines P ! 0) \<noteq> [] \<and> (finished P' \<or> crashed P')"
proof -
  obtain P ds where run: "(pool_step (behind_lock sample_libraries sample_state))\<^sup>*\<^sup>*
      (start_pool [[UnprepareRequest ''123''], [PrepareRequest sample_claim]] sample_world) P"
    and P: "served P = [(1, PrepareRequest sample_claim, Ok ds)]" "todo (goroutines P ! 0) = [UnprepareRequest ''123'']"
    using sample_overlap by blast
  have "alive sample_world" "\<not> mutex sample_world"
    "\<forall>claim. PrepareRequest claim \<in> set (concat [[UnprepareRequest ''123''], [PrepareRequest sample_claim]])
      \<longrightarrow> Allocation claim \<noteq> None"
    by (auto simp: alive_def sample_world_def world_with_dirs_def fresh_world_def quiet_env_def sample_claim_def)
  from concurrent_calls_return [OF this run] P show ?thesis by (metis list.distinct(1))
qed

end
