(* ===== verification/Healthcheck_Serving.thy ===== *)
theory Healthcheck_Serving
  imports Health
begin

text \<open>
  The goroutine that serves the healthcheck and the \<open>Stop\<close> that waits for it (\<open>health.go\<close>), as a
  state machine. The gRPC server is third-party code: an opaque state with what it may do.
\<close>

section \<open>The server\<close>

text \<open>
  What the server does by itself (it accepts connections, and serves requests to their end), the
  effect of calling \<open>Serve\<close> and \<open>GracefulStop\<close>, and when these calls may return.
\<close>

record 'g grpc_server =
  own_step :: "'g \<Rightarrow> 'g \<Rightarrow> bool"
  Serve_called :: "'g \<Rightarrow> 'g"
  Serve_returns :: "'g \<Rightarrow> go_error option \<Rightarrow> bool"
  GracefulStop_called :: "'g \<Rightarrow> 'g"
  GracefulStop_returns :: "'g \<Rightarrow> bool"

text \<open>
  Once \<open>GracefulStop\<close> was called, whether before \<open>Serve\<close> or after, the server can end what it is
  doing, so that both calls return, in either order.
\<close>

definition stops_gracefully :: "'g grpc_server \<Rightarrow> bool" where
  "stops_gracefully srv \<longleftrightarrow> (\<forall>g g'. (\<lambda>a b. own_step srv a b \<or> b = Serve_called srv a)\<^sup>*\<^sup>* (GracefulStop_called srv g) g'
    \<longrightarrow> (\<exists>g'' err. (own_step srv)\<^sup>*\<^sup>* g' g'' \<and> Serve_returns srv g'' err \<and> GracefulStop_returns srv g''))"

section \<open>The goroutine and the wait for it\<close>

text \<open>
  Where the goroutine of \<open>startHealthcheck\<close> is, and where the caller of \<open>Stop\<close> is. A service that was
  started has a server, so that \<open>Stop\<close> always calls \<open>GracefulStop\<close>. An error of \<open>Serve\<close> is logged.
\<close>

datatype serving = Created | InServe | AfterServe | Ended

datatype stopping = NotCalled | InGracefulStop | InWait | Returned

record 'g healthcheck_service =
  server :: 'g
  wg :: int
  serving :: serving
  stopping :: stopping
  error_log :: "go_error list"

definition service_started :: "'g \<Rightarrow> 'g healthcheck_service" where
  "service_started g = \<lparr>server = g, wg = 0 + 1, serving = Created, stopping = NotCalled, error_log = []\<rparr>"

inductive service_step :: "'g grpc_server \<Rightarrow> 'g healthcheck_service \<Rightarrow> 'g healthcheck_service \<Rightarrow> bool" for srv where
  server_moves: "own_step srv (server h) g \<Longrightarrow> service_step srv h (h\<lparr>server := g\<rparr>)"
| calls_Serve: "serving h = Created
    \<Longrightarrow> service_step srv h (h\<lparr>serving := InServe, server := Serve_called srv (server h)\<rparr>)"
| Serve_ends: "serving h = InServe \<Longrightarrow> Serve_returns srv (server h) err
    \<Longrightarrow> service_step srv h (h\<lparr>serving := AfterServe,
          error_log := error_log h @ (case err of Some e \<Rightarrow> [e] | None \<Rightarrow> [])\<rparr>)"
| wg_Done: "serving h = AfterServe \<Longrightarrow> service_step srv h (h\<lparr>serving := Ended, wg := wg h - 1\<rparr>)"
| calls_GracefulStop: "stopping h = NotCalled
    \<Longrightarrow> service_step srv h (h\<lparr>stopping := InGracefulStop, server := GracefulStop_called srv (server h)\<rparr>)"
| GracefulStop_ends: "stopping h = InGracefulStop \<Longrightarrow> GracefulStop_returns srv (server h)
    \<Longrightarrow> service_step srv h (h\<lparr>stopping := InWait\<rparr>)"
| wg_Wait: "stopping h = InWait \<Longrightarrow> wg h = 0 \<Longrightarrow> service_step srv h (h\<lparr>stopping := Returned\<rparr>)"

text \<open>
  The counter of the wait group is 1 until the goroutine ends, and \<open>Stop\<close> returns after that.
  After \<open>GracefulStop\<close> was called, the server is in a state from which it stops.
\<close>

definition called_stop :: "'g grpc_server \<Rightarrow> 'g \<Rightarrow> bool" where
  "called_stop srv g \<longleftrightarrow> (\<exists>g0. (\<lambda>a b. own_step srv a b \<or> b = Serve_called srv a)\<^sup>*\<^sup>* (GracefulStop_called srv g0) g)"

definition service_inv :: "'g grpc_server \<Rightarrow> 'g healthcheck_service \<Rightarrow> bool" where
  "service_inv srv h \<longleftrightarrow> wg h = (if serving h = Ended then 0 else 1)
    \<and> (stopping h = Returned \<longrightarrow> serving h = Ended)
    \<and> (stopping h \<noteq> NotCalled \<longrightarrow> called_stop srv (server h))"

lemma called_stop_step:
  "called_stop srv g \<Longrightarrow> own_step srv g g' \<Longrightarrow> called_stop srv g'"
  "called_stop srv g \<Longrightarrow> called_stop srv (Serve_called srv g)"
  "called_stop srv (GracefulStop_called srv g)"
  unfolding called_stop_def by (auto intro: rtranclp.rtrancl_into_rtrancl)

lemma service_inv_step: "service_step srv h h' \<Longrightarrow> service_inv srv h \<Longrightarrow> service_inv srv h'"
  by (induction rule: service_step.induct) (auto simp: service_inv_def called_stop_step split: if_splits)

lemma service_inv_run:
  assumes "(service_step srv)\<^sup>*\<^sup>* (service_started g) h"
  shows "service_inv srv h"
  using assms
proof (induction rule: rtranclp_induct)
  case base
  show ?case by (simp add: service_inv_def service_started_def)
qed (rule service_inv_step)

section \<open>Stopping\<close>

lemma server_runs:
  assumes "(own_step srv)\<^sup>*\<^sup>* (server h) g"
  shows "(service_step srv)\<^sup>*\<^sup>* h (h\<lparr>server := g\<rparr>)"
  using assms
proof (induction rule: rtranclp_induct)
  case (step g g')
  from service_step.server_moves [of srv "h\<lparr>server := g\<rparr>" g'] step show ?case
    by (auto intro: rtranclp.rtrancl_into_rtrancl)
qed simp

text \<open>Each phase of the stop leads to the next one.\<close>

lemma reach_refl: "Q a \<Longrightarrow> \<exists>b. r\<^sup>*\<^sup>* a b \<and> Q b"
  by blast

lemma reach_step: "r a b \<Longrightarrow> Q b \<Longrightarrow> \<exists>b. r\<^sup>*\<^sup>* a b \<and> Q b"
  by blast

lemma stop_is_called:
  "\<exists>h'. (service_step srv)\<^sup>*\<^sup>* h h' \<and> stopping h' \<noteq> NotCalled"
proof (cases "stopping h = NotCalled")
  case True
  from calls_GracefulStop [OF this] show ?thesis by (rule reach_step) simp
qed (rule reach_refl)

lemma Serve_is_called:
  assumes "stopping h \<noteq> NotCalled"
  shows "\<exists>h'. (service_step srv)\<^sup>*\<^sup>* h h' \<and> stopping h' \<noteq> NotCalled \<and> serving h' \<noteq> Created"
proof (cases "serving h = Created")
  case True
  from calls_Serve [OF this] show ?thesis by (rule reach_step) (simp add: assms)
qed (rule reach_refl, simp add: assms)

lemma both_return:
  assumes "stops_gracefully srv" "service_inv srv h" "stopping h \<noteq> NotCalled" "serving h \<noteq> Created"
  shows "\<exists>h'. (service_step srv)\<^sup>*\<^sup>* h h' \<and> stopping h' \<in> {InWait, Returned} \<and> serving h' \<in> {AfterServe, Ended}"
proof -
  from assms(2,3) have "called_stop srv (server h)"
    by (simp add: service_inv_def)
  with assms(1) obtain g err where g: "(own_step srv)\<^sup>*\<^sup>* (server h) g" "Serve_returns srv g err" "GracefulStop_returns srv g"
    unfolding stops_gracefully_def called_stop_def by blast
  let ?h = "h\<lparr>server := g\<rparr>"
  have "\<exists>h1. (service_step srv)\<^sup>*\<^sup>* ?h h1 \<and> stopping h1 = stopping h \<and> server h1 = g \<and> serving h1 \<in> {AfterServe, Ended}"
  proof (cases "serving h = InServe")
    case True
    have "serving ?h = InServe" "Serve_returns srv (server ?h) err"
      using True g(2) by simp_all
    from Serve_ends [OF this] show ?thesis by (rule reach_step) simp
  next
    case False
    with assms(4) show ?thesis by (cases "serving h") (auto intro!: exI [of _ ?h])
  qed
  then obtain h1 where h1: "(service_step srv)\<^sup>*\<^sup>* ?h h1" "stopping h1 = stopping h" "server h1 = g"
    "serving h1 \<in> {AfterServe, Ended}" by blast
  have "\<exists>h2. (service_step srv)\<^sup>*\<^sup>* h1 h2 \<and> stopping h2 \<in> {InWait, Returned} \<and> serving h2 \<in> {AfterServe, Ended}"
  proof (cases "stopping h1 = InGracefulStop")
    case True
    have "GracefulStop_returns srv (server h1)"
      using g(3) h1(3) by simp
    from GracefulStop_ends [OF True this] show ?thesis by (rule reach_step) (use h1(4) in simp)
  next
    case False
    with assms(3) h1 show ?thesis by (cases "stopping h1") (auto intro!: exI [of _ h1])
  qed
  with server_runs [OF g(1)] h1(1) show ?thesis
    by (meson rtranclp_trans)
qed

lemma goroutine_ends:
  assumes "serving h \<in> {AfterServe, Ended}"
  shows "\<exists>h'. (service_step srv)\<^sup>*\<^sup>* h h' \<and> stopping h' = stopping h \<and> serving h' = Ended"
proof (cases "serving h = AfterServe")
  case True
  from wg_Done [OF this] show ?thesis by (rule reach_step) simp
qed (rule reach_refl, use assms in simp)

lemma wait_returns:
  assumes "service_inv srv h" "stopping h \<in> {InWait, Returned}" "serving h = Ended"
  shows "\<exists>h'. (service_step srv)\<^sup>*\<^sup>* h h' \<and> stopping h' = Returned"
proof (cases "stopping h = InWait")
  case True
  have "wg h = 0"
    using assms(1,3) by (simp add: service_inv_def)
  from wg_Wait [OF True this] show ?thesis by (rule reach_step) simp
qed (rule reach_refl, use assms(2) in simp)

lemma service_inv_steps: "(service_step srv)\<^sup>*\<^sup>* h h' \<Longrightarrow> service_inv srv h \<Longrightarrow> service_inv srv h'"
  by (induction rule: rtranclp_induct) (auto intro: service_inv_step)

lemma stop_can_return:
  assumes "stops_gracefully srv" "service_inv srv h"
  shows "\<exists>h'. (service_step srv)\<^sup>*\<^sup>* h h' \<and> stopping h' = Returned"
proof -
  from stop_is_called obtain h1 where h1: "(service_step srv)\<^sup>*\<^sup>* h h1" "stopping h1 \<noteq> NotCalled" by blast
  from Serve_is_called [OF h1(2)] obtain h2 where
    h2: "(service_step srv)\<^sup>*\<^sup>* h1 h2" "stopping h2 \<noteq> NotCalled" "serving h2 \<noteq> Created" by blast
  note inv2 = service_inv_steps [OF h2(1) service_inv_steps [OF h1(1) assms(2)]]
  from both_return [OF assms(1) inv2 h2(2,3)] obtain h3 where
    h3: "(service_step srv)\<^sup>*\<^sup>* h2 h3" "stopping h3 \<in> {InWait, Returned}" "serving h3 \<in> {AfterServe, Ended}" by blast
  from goroutine_ends [OF h3(3)] obtain h4 where
    h4: "(service_step srv)\<^sup>*\<^sup>* h3 h4" "stopping h4 = stopping h3" "serving h4 = Ended" by blast
  from h3(2) h4(2) have "stopping h4 \<in> {InWait, Returned}" by simp
  from wait_returns [OF service_inv_steps [OF h4(1) service_inv_steps [OF h3(1) inv2]] this h4(3)]
  show ?thesis
    using h1(1) h2(1) h3(1) h4(1) by (meson rtranclp_trans)
qed

section \<open>Properties\<close>

text \<open>
  C36: \<open>Stop\<close> of the healthcheck waits for the goroutine that serves: the wait group never counts
  below zero and is zero only after the goroutine has ended, so that \<open>Stop\<close> returns only then,
  even when it is called before the goroutine ran; and with a server that stops gracefully, from
  every state that the service reaches \<open>Stop\<close> can still return.
\<close>

theorem healthcheck_stop_waits:
  assumes "stops_gracefully srv" "(service_step srv)\<^sup>*\<^sup>* (service_started g) h"
  shows "0 \<le> wg h \<and> (wg h = 0 \<longleftrightarrow> serving h = Ended) \<and> (stopping h = Returned \<longrightarrow> serving h = Ended)
    \<and> (\<exists>h'. (service_step srv)\<^sup>*\<^sup>* h h' \<and> stopping h' = Returned \<and> serving h' = Ended)"
proof (intro conjI)
  note inv = service_inv_run [OF assms(2)]
  then show "0 \<le> wg h" "wg h = 0 \<longleftrightarrow> serving h = Ended" "stopping h = Returned \<longrightarrow> serving h = Ended"
    by (simp_all add: service_inv_def)
  from stop_can_return [OF assms(1) inv] service_inv_steps [OF _ inv]
  show "\<exists>h'. (service_step srv)\<^sup>*\<^sup>* h h' \<and> stopping h' = Returned \<and> serving h' = Ended"
    unfolding service_inv_def by blast
qed

text \<open>A server that counts its open requests; it takes no new ones once it is to stop.\<close>

definition sample_grpc :: "(bool \<times> nat) grpc_server" where
  "sample_grpc = \<lparr>
    own_step = (\<lambda>(stop, n) (stop', n'). stop' = stop \<and> (n' = n + 1 \<and> \<not> stop \<or> n = n' + 1)),
    Serve_called = id, Serve_returns = (\<lambda>(stop, n) err. stop \<and> err = None),
    GracefulStop_called = (\<lambda>(stop, n). (True, n)), GracefulStop_returns = (\<lambda>(stop, n). stop \<and> n = 0)\<rparr>"

lemma sample_grpc_drains: "(own_step sample_grpc)\<^sup>*\<^sup>* (True, n) (True, 0)"
proof (induction n)
  case (Suc n)
  have "own_step sample_grpc (True, Suc n) (True, n)"
    by (simp add: sample_grpc_def)
  then show ?case using Suc.IH by (rule converse_rtranclp_into_rtranclp)
qed simp

lemma sample_grpc_stays_stopped:
  assumes "(\<lambda>a b. own_step sample_grpc a b \<or> b = Serve_called sample_grpc a)\<^sup>*\<^sup>* (GracefulStop_called sample_grpc g) g'"
  shows "fst g'"
  using assms
proof (induction rule: rtranclp_induct)
  case base
  show ?case by (simp add: sample_grpc_def split: prod.splits)
next
  case (step a b)
  then show ?case by (auto simp: sample_grpc_def)
qed

lemma sample_grpc_stops: "stops_gracefully sample_grpc"
  unfolding stops_gracefully_def
proof (intro allI impI exI conjI)
  fix g g' :: "bool \<times> nat"
  assume "(\<lambda>a b. own_step sample_grpc a b \<or> b = Serve_called sample_grpc a)\<^sup>*\<^sup>* (GracefulStop_called sample_grpc g) g'"
  from sample_grpc_stays_stopped [OF this] show "(own_step sample_grpc)\<^sup>*\<^sup>* g' (True, 0)"
    using sample_grpc_drains [of "snd g'"] by (cases g') simp
qed (simp_all add: sample_grpc_def)

theorem healthcheck_stop_waits_witness:
  "\<exists>h'. (service_step sample_grpc)\<^sup>*\<^sup>* \<lparr>server = (True, 2), wg = 1, serving = Created, stopping = InGracefulStop,
      error_log = []\<rparr> h' \<and> stopping h' = Returned \<and> serving h' = Ended"
proof -
  have "service_step sample_grpc (service_started (False, 2)) ((service_started (False, 2))\<lparr>stopping := InGracefulStop,
      server := GracefulStop_called sample_grpc (server (service_started (False, 2)))\<rparr>)"
    by (rule calls_GracefulStop) (simp add: service_started_def)
  then have "(service_step sample_grpc)\<^sup>*\<^sup>* (service_started (False, 2))
      \<lparr>server = (True, 2), wg = 1, serving = Created, stopping = InGracefulStop, error_log = []\<rparr>"
    by (simp add: service_started_def sample_grpc_def r_into_rtranclp)
  from healthcheck_stop_waits [OF sample_grpc_stops this] show ?thesis by blast
qed

end
