(* ===== verification/Container_View.thy ===== *)
theory Container_View
  imports Prepare_Claims
begin

text \<open>
  What the containers of a pod get: the composition of \<open>Prepare\<close>, the network profile, the claim
  directories and the CDI handler, from the identifiers that the kubelet is told down to the
  directory that is mounted.
\<close>

section \<open>The view of a result\<close>

text \<open>The devices of a fresh preparation are those that were computed, and those of the spec.\<close>

lemma Prepare_fresh_spec:
  assumes "cdi_laws lib specs" "\<not> mutex w"
    and "stored s w = Some cs" "claim_UID claim \<notin> UID ` set cs" "Prepare lib s claim w = (Ok pds, w')"
  obtains ds spec u v where "computeDeviceConfig lib s claim u = (Ok ds, v)" "pds = GetDevices ds"
    "claim_spec_of lib specs (cdi s) (ext w') (claim_UID claim) = Some spec"
    "spec_for lib (cdi s) (claim_UID claim) ds spec"
proof -
  obtain wa where body: "prepare_body lib s claim (w\<lparr>mutex := True\<rparr>) = (Ok pds, wa)" and w': "w' = wa\<lparr>mutex := False\<rparr>"
    using assms(2,5) by (rule Prepare_body)
  have "stored s (w\<lparr>mutex := True\<rparr>) = Some cs"
    using assms(3) by simp
  from prepare_body_fresh [OF body this assms(4)] obtain c ds w1 w2 w3 where
    prep: "prepareDevices lib s claim w1 = (Ok ds, w2)" and
    spec: "CreateClaimSpecFile lib (cdi s) (claim_UID claim) ds w2 = (Ok (), w3)" and
    wr: "writeCheckpoint (checkpointPath s) (checkpointEncoder s) (addClaimToCheckpoint c claim) w3 = (Ok (), wa)" and
    pds: "pds = GetDevices ds"
    by metis
  from prepareDevices_Ok [OF prep] obtain u v where co: "computeDeviceConfig lib s claim u = (Ok ds, v)"
    by metis
  obtain sp where sp: "claim_spec_of lib specs (cdi s) (ext w3) (claim_UID claim) = Some sp"
    "spec_for lib (cdi s) (claim_UID claim) ds sp"
    using cdi_specs.create_spec [OF assms(1) spec] by blast
  have "ext w' = ext w3"
    using steps_inD [OF keeps_ext_writeCheckpoint wr] w' by (simp add: keeps_ext_def)
  with co pds sp that show thesis by simp
qed

text \<open>
  A result is visible when the kubelet is told a device for it whose identifiers are the common
  device and a device of the claim's spec, the latter mounts a directory of the host at the same
  path and names it and the device in its variables, and the directory is there, with the metadata
  of the device.
\<close>

definition visible :: "('x, 'o) libraries \<Rightarrow> ('x \<Rightarrow> string \<Rightarrow> string \<Rightarrow> Spec option) \<Rightarrow> 'o DeviceState \<Rightarrow> ResourceClaim
    \<Rightarrow> 'x world \<Rightarrow> pb_Device list \<Rightarrow> DeviceRequestAllocationResult \<Rightarrow> bool" where
  "visible lib specs s claim w pds r \<longleftrightarrow>
    (\<exists>pd \<in> set pds. \<exists>spec dev dir.
      RequestNames pd = [Request r] \<and> PoolName pd = Pool r \<and> DeviceName pd = Device r
      \<and> claim_spec_of lib specs (cdi s) (ext w) (claim_UID claim) = Some spec \<and> dev \<in> set (spec_Devices spec)
      \<and> CdiDeviceIds pd = map (cdi_QualifiedName lib (vendor (cdi s)) (cdi_class (cdi s))) [''common'', cdi_Name dev]
      \<and> Mounts (cdi_ContainerEdits dev) = [\<lparr>HostPath = dir, ContainerPath = dir, Options = [''rbind'', ''z'']\<rparr>]
      \<and> {''KUBEVIRT_NETWORK_DEVICE='' @ Device r, ''KUBEVIRT_NETWORK_PATH='' @ dir, ''KUBEVIRT_NETWORK_REQUEST='' @ Request r}
          \<subseteq> set (Env (cdi_ContainerEdits dev))
      \<and> claim_ready (files w) (elems dir) (Device r))"

lemma visible_prepared:
  assumes "cdi_laws lib specs" "network_prepared lib s claim r \<in> set ds" "spec_for lib (cdi s) (claim_UID claim) ds spec"
    and "claim_spec_of lib specs (cdi s) (ext w) (claim_UID claim) = Some spec"
    and "claim_ready (files w) (claim_dir (claim_Name claim) (Request r)) (Device r)"
    and "plain (claim_Name claim)" "request_ok (Request r)"
  shows "visible lib specs s claim w (GetDevices ds) r"
proof -
  let ?d = "network_prepared lib s claim r"
  let ?dev = "claim_device lib (cdi s) (claim_UID claim) ?d"
  let ?dir = "filepath_Join [baseDir, extractStableClaimName (claim_Name claim), Request r]"
  have "pb_Device.truncate ?d \<in> set (GetDevices ds)"
    using assms(2) by (simp add: GetDevices_def)
  moreover have "?dev \<in> set (spec_Devices spec)"
    using assms(2,3) by (simp add: spec_for_def)
  moreover have "elems ?dir = claim_dir (claim_Name claim) (Request r)"
    by (rule elems_claim_dir [OF assms(6,7)])
  ultimately show ?thesis
    unfolding visible_def using assms(1,4,5)
    by (intro bexI [of _ "pb_Device.truncate ?d"] exI [of _ spec] exI [of _ ?dev] exI [of _ ?dir])
      (simp_all add: network_prepared_def pb_Device.truncate_def GetClaimDevices_eq cdiCommonDeviceName_def
        claim_device_def Let_def cdi_laws_append network_edits_def HostBaseDir_def baseDir_def)
qed

text \<open>Every mounted directory is below the mount path that the profile exports.\<close>

lemma mount_below_ContainerMountPath:
  assumes "plain (claim_Name claim)" "request_ok (Request r)"
  shows "\<forall>m \<in> set (Mounts (network_edits (network_extractStableClaimName (claim_Name claim)) r)).
    prefix (elems ContainerMountPath) (elems (ContainerPath m))"
proof -
  have "elems (filepath_Join [baseDir, extractStableClaimName (claim_Name claim), Request r]) = claim_dir (claim_Name claim) (Request r)"
    by (rule elems_claim_dir [OF assms])
  moreover have "elems ContainerMountPath = base_path"
    by (simp add: ContainerMountPath_def base_path_def elems_def)
  ultimately show ?thesis
    by (simp add: network_edits_def network_extractStableClaimName_eq HostBaseDir_def baseDir_def Let_def
        claim_dir_def claim_root_def)
qed

section \<open>Properties\<close>

text \<open>
  C7: From the API down to the pod: when the network driver's \<open>Prepare\<close> returns devices for a claim
  that is not in the store, in any environment, and no device is named by two results of this
  driver, then the last result of each request is visible to the containers: the kubelet is told
  identifiers the second of which resolves, in the specs on the node, to a device of the claim that
  mounts the directory of the result's request, at the same path, and names the device, the path and
  the request in its variables; and that directory exists, belongs to qemu, and holds the metadata
  of this device. (The earlier results of a request share its directory, which then has the metadata
  of the last one: \<open>shared_request_metadata\<close> of \<open>Known_Issues\<close>.)
\<close>

theorem prepared_claim_visible:
  assumes "state_ok s" "configHandler s = network_handler" "claim_ok claim" "cdi_laws lib specs" "\<not> mutex w"
    and "stored s w = Some cs" "claim_UID claim \<notin> UID ` set cs" "Prepare lib s claim w = (Ok pds, w')"
    and "Allocation claim = Some alloc" "distinct (map Device (own_results s (Results alloc)))"
    and "last_of_request r (own_results s (Results alloc))"
  shows "visible lib specs s claim w' pds r"
proof -
  let ?own = "own_results s (Results alloc)"
  from Prepare_fresh_spec [OF assms(4-8)] obtain ds spec u v where
    co: "computeDeviceConfig lib s claim u = (Ok ds, v)" and pds: "pds = GetDevices ds" and
    spec: "claim_spec_of lib specs (cdi s) (ext w') (claim_UID claim) = Some spec"
    "spec_for lib (cdi s) (claim_UID claim) ds spec" by metis
  have r: "r \<in> set ?own"
    using assms(11) by (auto elim: last_of_request_split)
  have "mset ds = mset (map (network_prepared lib s claim) ?own)"
    by (rule computed_network_mset [OF co assms(2,9,10)])
  then have "network_prepared lib s claim r \<in> set ds"
    using r by (metis image_eqI list.set_map set_mset_mset)
  moreover have "claim_ready (files w') (claim_dir (claim_Name claim) (Request r)) (Device r)"
    using Prepare_fresh [OF assms(1,3-8)] assms(9,11) by auto
  moreover have "plain (claim_Name claim)" "request_ok (Request r)"
    using assms(3,9) r by (auto simp: claim_ok_def own_results_def list_all_iff)
  ultimately show ?thesis
    unfolding pds using visible_prepared [OF assms(4) _ spec(2,1)] by blast
qed

theorem prepared_claim_visible_witness:
  "\<exists>pds w'. Prepare sample_libraries sample_state sample_claim sample_world = (Ok pds, w')
    \<and> visible sample_libraries sample_specs sample_state sample_claim w' pds (sample_result ''red'' ''network-0'')
    \<and> visible sample_libraries sample_specs sample_state sample_claim w' pds (sample_result ''blue'' ''network-1'')"
proof -
  from sample_prepare obtain pds w' where run: "Prepare sample_libraries sample_state sample_claim sample_world = (Ok pds, w')"
    by (elim exE)
  have "\<not> mutex sample_world" "claim_UID sample_claim \<notin> UID ` set []"
    by simp_all
  note visible = prepared_claim_visible [OF sample_state_ok sample_state_simps(3) sample_claim_ok sample_cdi_laws this(1)
      sample_stored this(2) run sample_claim_simps(3) sample_compute_hyps(3)]
  have "last_of_request r (own_results sample_state [sample_result ''red'' ''network-0'', sample_result ''blue'' ''network-1''])"
    if "r \<in> {sample_result ''red'' ''network-0'', sample_result ''blue'' ''network-1''}" for r
    using that unfolding sample_own_results by (auto simp: last_of_request_def)
  with run visible show ?thesis by simp
qed

end
