(* ===== verification/Rolling_Update.thy ===== *)
theory Rolling_Update
  imports Claim_Lifecycle Health
begin

text \<open>
  Two instances of the plugin on one node, as in a rolling update with \<open>--pod-uid\<close>
  (\<open>kubeletplugin.RollingUpdate\<close> in \<open>driver.go\<close>). They share the checkpoint, the directories and the
  CDI specs, but no memory; the kubelet plugin library makes their calls take turns. The lemmas
  say that the instances listen on sockets of their own, and that together they still refine the
  machine of the held claims.
\<close>

section \<open>Instances\<close>

text \<open>What may differ: the pod, and how the instance is reached and reaches the API server.\<close>

definition same_driver :: "('x, 'o) Config \<Rightarrow> ('x, 'o) Config \<Rightarrow> bool" where
  "same_driver config config' \<longleftrightarrow> network_config config' \<and> (\<exists>client registrar port uid.
    flags config' = (flags config)\<lparr>flag_kubeClientConfig := client, flag_kubeletRegistrarDirectoryPath := registrar,
      flag_healthcheckPort := port, flag_podUID := uid\<rparr>)"

lemma same_driver_simps:
  assumes "same_driver config config'"
  shows "flag_nodeName (flags config') = flag_nodeName (flags config)"
    "flag_cdiRoot (flags config') = flag_cdiRoot (flags config)"
    "flag_numDevices (flags config') = flag_numDevices (flags config)"
    "flag_kubeletPluginsDirectoryPath (flags config') = flag_kubeletPluginsDirectoryPath (flags config)"
    "flag_profile (flags config') = flag_profile (flags config)"
    "flag_driverName (flags config') = flag_driverName (flags config)" "network_config config'"
  using assms by (auto simp: same_driver_def)

text \<open>Both have the same state, and start in the same way.\<close>

lemma same_driver_state: "same_driver config config' \<Longrightarrow> new_state lib config' = new_state lib config"
  by (simp add: new_state_def new_cdi_def new_resources_def DriverPluginPath_def same_driver_simps)

lemma same_driver_start:
  assumes "network_config config" "same_driver config config'"
  shows "NewDeviceState lib config' = NewDeviceState lib config"
proof -
  have profile: "profile config' = profile config"
    using assms(1) same_driver_simps [OF assms(2)] by (simp add: network_config_def)
  show ?thesis
    unfolding NewDeviceState_def DriverPluginPath_def same_driver_simps [OF assms(2)] profile ..
qed

section \<open>Their runs\<close>

text \<open>Each step is one of some instance: a call, or its start in an environment of its own.\<close>

inductive rolling_step :: "('x, 'o) libraries \<Rightarrow> ('x, 'o) Config set \<Rightarrow> ResourceClaim set
    \<Rightarrow> 'x world \<Rightarrow> action \<Rightarrow> 'x world \<Rightarrow> bool" for lib instances K where
  instance_step: "config \<in> instances \<Longrightarrow> driver_step lib config K w a w' \<Longrightarrow> rolling_step lib instances K w a w'"

abbreviation rolling_run :: "('x, 'o) libraries \<Rightarrow> ('x, 'o) Config set \<Rightarrow> ResourceClaim set
    \<Rightarrow> 'x world \<Rightarrow> action list \<Rightarrow> 'x world \<Rightarrow> bool" where
  "rolling_run lib instances K \<equiv> runs (rolling_step lib instances K)"

lemma same_driver_step:
  assumes "driver_step lib config' K w a w'" "network_config config" "same_driver config config'"
  shows "driver_step lib config K w a w'"
  using assms(1)
  by cases (simp_all add: same_driver_state [OF assms(3)] same_driver_start [OF assms(2,3)] driver_step.intros)

text \<open>Each step of an instance is one of a single driver, and so a step of the machine of the held claims.\<close>

interpretation rolling: simulation_chain "rolling_step lib instances K" "driver_step lib config K" claims_step
    "\<lambda>w v. w = v \<and> network_config config \<and> (\<forall>config' \<in> instances. same_driver config config')"
    "\<lambda>w cs. usable lib config K \<and> holds (new_state lib config) K cs w" for lib instances config K
  by unfold_locales (auto elim!: rolling_step.cases intro: same_driver_step)

section \<open>Their sockets\<close>

lemma socket_names:
  assumes "is_abs dir" "plain x" "plain y" "x \<noteq> y"
  shows "filepath_Join [dir, x] \<noteq> filepath_Join [dir, y]"
proof -
  have "elems (filepath_Join [dir, x]) \<noteq> elems (filepath_Join [dir, y])"
    using assms by (simp add: elems_filepath_Join_plain)
  then show ?thesis by metis
qed

definition dra_name :: "string \<Rightarrow> string" where
  "dra_name uid = (if uid \<noteq> [] then ''dra-'' @ uid @ ''.sock'' else ''dra.sock'')"

definition registration_name :: "string \<Rightarrow> string \<Rightarrow> string" where
  "registration_name driver uid = (if uid \<noteq> [] then driver @ ''-'' @ uid @ ''-reg.sock'' else driver @ ''-reg.sock'')"

lemma names_plain:
  assumes "uid_ok uid" "plain driver"
  shows "plain (dra_name uid)" "plain (registration_name driver uid)"
  using assms by (auto simp: plain_def dra_name_def registration_name_def uid_ok_def)

lemma names_apart:
  assumes "uid \<noteq> uid'"
  shows "dra_name uid \<noteq> dra_name uid'" "registration_name driver uid \<noteq> registration_name driver uid'"
  using assms by (auto simp: dra_name_def registration_name_def)

text \<open>Instances in different pods serve on different sockets.\<close>

lemma sockets_apart:
  assumes "same_driver config config'" "plugin_dir_ok config"
    and "is_abs (flag_kubeletRegistrarDirectoryPath (flags config))"
    and "flag_kubeletRegistrarDirectoryPath (flags config') = flag_kubeletRegistrarDirectoryPath (flags config)"
    and "uid_ok (flag_podUID (flags config))" "uid_ok (flag_podUID (flags config'))"
    and "flag_podUID (flags config') \<noteq> flag_podUID (flags config)"
  shows "dra_socket config' \<noteq> dra_socket config" "registration_socket config' \<noteq> registration_socket config"
proof -
  note same = same_driver_simps [OF assms(1)]
  have driver: "plain (flag_driverName (flags config))" and abs: "is_abs (DriverPluginPath config)"
    using assms(2) by (simp_all add: plugin_dir_ok_def DriverPluginPath_def elems_filepath_Join_plain)
  have dra: "dra_socket c = filepath_Join [DriverPluginPath c, dra_name (flag_podUID (flags c))]" for c :: "('a, 'b) Config"
    by (simp add: dra_socket_def dra_name_def)
  have reg: "registration_socket c = filepath_Join [flag_kubeletRegistrarDirectoryPath (flags c),
      registration_name (flag_driverName (flags c)) (flag_podUID (flags c))]" for c :: "('a, 'b) Config"
    by (simp add: registration_socket_def registration_name_def)
  have path: "DriverPluginPath config' = DriverPluginPath config"
    by (simp add: DriverPluginPath_def same)
  show "dra_socket config' \<noteq> dra_socket config"
    unfolding dra path
    by (intro socket_names abs names_plain(1) [OF assms(6) driver] names_plain(1) [OF assms(5) driver] names_apart(1) assms(7))
  show "registration_socket config' \<noteq> registration_socket config"
    unfolding reg same assms(4)
    by (intro socket_names assms(3) names_plain(2) [OF assms(6) driver] names_plain(2) [OF assms(5) driver]
        names_apart(2) assms(7))
qed

section \<open>Properties\<close>

text \<open>
  C10: During a rolling update, with any number of instances of the driver that differ only in their
  pods and in how they are reached, started at any time and with their calls in any order, whatever
  fails and wherever an instance is killed, the instances together refine the machine of the held
  claims, on one checkpoint. A claim that is held at the beginning stays in the checkpoint with its
  CDI spec unchanged, and its directories stay ready if they were, provided that every action of
  every instance leaves it alone: it is not unprepared, no other claim with the same stable name is
  prepared or unprepared, and no unprepare runs without a readable checkpoint.
\<close>

theorem rolling_update_refines:
  assumes "usable lib config K" "cdi_laws lib specs" "cdi_frame lib specs"
    and "\<forall>config' \<in> instances. same_driver config config'"
    and "holds (new_state lib config) K cs w" "rolling_run lib instances K w as w'"
  shows "\<exists>cs'. claims_run cs as cs'
    \<and> (\<forall>config' \<in> instances. stored (new_state lib config') w' = Some (map checkpoint_entry cs')
      \<and> (\<forall>claim \<in> set cs. list_all (leaves_alone claim) as \<longrightarrow>
          claim \<in> set cs' \<and> undisturbed lib specs (new_state lib config') claim w w'))"
proof -
  have "((\<lambda>w v. w = v \<and> network_config config \<and> (\<forall>config' \<in> instances. same_driver config config'))
      OO (\<lambda>w cs. usable lib config K \<and> holds (new_state lib config) K cs w)) w cs"
    using assms(1,4,5) usable_simps(1) by blast
  from rolling.runs_simulate [OF assms(6) this] obtain cs' where
    cs': "claims_run cs as cs'" "holds (new_state lib config) K cs' w'" by blast
  have run: "driver_run lib config K w as w'"
    using rolling.lower.runs_simulate [OF assms(6)] assms(4) usable_simps(1) [OF assms(1)] by blast
  have "claim \<in> set cs' \<and> undisturbed lib specs (new_state lib config) claim w w'"
    if claim: "claim \<in> set cs" "list_all (leaves_alone claim) as" for claim
    using held.runs_inv [OF cs'(1) claim(2,1)] held.runs_frame [OF run _ claim] assms(1-3,5) by blast
  with cs' assms(4) same_driver_state [of config] holds_simps(2) [OF cs'(2)] show ?thesis by auto
qed

text \<open>The second instance of the example is in the pod \<open>pod-b\<close>, with a healthcheck on another port.\<close>

definition sample_config_b :: "('x, string) Config" where
  "sample_config_b = sample_config\<lparr>flags := (flags (sample_config :: ('x, string) Config))\<lparr>flag_podUID := ''pod-b'', flag_healthcheckPort := 51516\<rparr>\<rparr>"

lemma same_driverI:
  assumes "network_config config'" "flags config' = (flags config)\<lparr>flag_healthcheckPort := port, flag_podUID := uid\<rparr>"
  shows "same_driver config config'"
proof -
  have "flags config' = (flags config)\<lparr>flag_kubeClientConfig := flag_kubeClientConfig (flags config),
      flag_kubeletRegistrarDirectoryPath := flag_kubeletRegistrarDirectoryPath (flags config),
      flag_healthcheckPort := port, flag_podUID := uid\<rparr>"
    using assms(2) by simp
  with assms(1) show ?thesis
    unfolding same_driver_def by blast
qed

lemma sample_same_driver: "same_driver sample_config sample_config" "same_driver sample_config sample_config_b"
proof -
  show "same_driver sample_config sample_config"
    by (rule same_driverI [where port = "flag_healthcheckPort sample_flags" and uid = "flag_podUID sample_flags"])
      (simp_all add: sample_config_ok)
  show "same_driver sample_config sample_config_b"
    using sample_config_ok(1)
    by (intro same_driverI [where port = 51516 and uid = "''pod-b''"]) (simp_all add: sample_config_b_def network_config_def)
qed

theorem rolling_update_refines_witness:
  "\<exists>w1 w'. rolling_run sample_libraries {sample_config, sample_config_b} {sample_claim} w1 [Restart] w'
    \<and> stored (new_state sample_libraries sample_config_b) w' = Some [checkpoint_entry sample_claim]
    \<and> undisturbed sample_libraries sample_specs (new_state sample_libraries sample_config_b) sample_claim w1 w'"
proof -
  let ?s = "new_state sample_libraries sample_config"
  obtain ds w1 where prep: "Prepare sample_libraries ?s sample_claim sample_world = (Ok ds, w1)"
    using sample_prepare unfolding new_state_sample by (elim exE)
  have "sample_claim \<in> {sample_claim}" by simp
  from prepare_step_refines [OF usable_simps(3,4) [OF sample_usable] sample_holds this prep]
  obtain cs where "claims_step [] (PrepareClaim sample_claim (succeeded (Ok ds))) cs" and w1: "holds ?s {sample_claim} cs w1" by blast
  then have cs: "cs = [sample_claim]"
    by (auto simp: succeeded_def elim: claims_stepE(1))
  obtain w' where "driver_step sample_libraries sample_config_b {sample_claim} w1 Restart w'"
    using driver_step_Restart by blast
  then have "rolling_step sample_libraries {sample_config, sample_config_b} {sample_claim} w1 Restart w'"
    by (rule instance_step [rotated]) simp
  then have run: "rolling_run sample_libraries {sample_config, sample_config_b} {sample_claim} w1 ([] @ [Restart]) w'"
    by (rule runs.goes_on [OF runs.begins])
  have "\<forall>config' \<in> {sample_config, sample_config_b}. same_driver sample_config config'"
    using sample_same_driver by simp
  from rolling_update_refines [OF sample_usable sample_cdi_laws sample_cdi_frame this w1 run] obtain cs' where
    "claims_run cs ([] @ [Restart]) cs'" and st: "stored (new_state sample_libraries sample_config_b) w' = Some (map checkpoint_entry cs')"
    "undisturbed sample_libraries sample_specs (new_state sample_libraries sample_config_b) sample_claim w1 w'"
    unfolding cs by auto
  then have "cs' = [sample_claim]"
    unfolding claims_run_simps cs by (auto elim: claims_stepE(4))
  with run st show ?thesis by auto
qed

end
