(* ===== verification/Known_Issues.thy ===== *)
theory Known_Issues
  imports Plugin_Main
begin

text \<open>
  What goes wrong: facts about runs in which the code does what it presumably does not mean to.
  A preparation that fails leaves directories that nothing removes, a claim with the devices of
  other drivers only is stored again and again, an unprepare whose last write fails leaves a
  stored claim without its CDI spec, and a few more.
\<close>

section \<open>Prepare\<close>

text \<open>
  A device that is not advertised is found out only after the directories were made
  (\<open>state.go\<close>, \<open>prepareDevices\<close>): Prepare fails, the claim is not stored, and the directories stay.
\<close>

lemma compute_unknown_device:
  assumes "Allocation claim = Some alloc" "r \<in> set (own_results s (Results alloc))" "fmlookup (allocatable s) (Device r) = None"
  shows "\<exists>e w'. computeDeviceConfig lib s claim w = (Err e, w')"
proof -
  have "assign_configs s (\<lparr>cfg_Requests = [], cfg_Config = None\<rparr> # ds) (Results alloc) [] \<noteq> Inr m" for ds m
    using assign_configs_Inr(2) [OF _ assms(2)] assms(3) by blast
  then show ?thesis
    using assms(1) by (auto simp: computeDeviceConfig_def lift_result_def effect_simps Let_def split: sum.splits)
qed

lemma prepare_unlisted:
  assumes "calm w" "state_ok s" "stored s w = Some cs" "claim_UID claim \<notin> UID ` set cs"
    and "\<And>c. prepare_anew lib s claim c (tick w) = (Err e, w')"
  shows "prepare_body lib s claim w = (Err e, w')"
proof -
  have "elems (checkpointPath s) \<noteq> []"
    using assms(2) by (simp add: state_ok_def checkpoint_path_def)
  from readCheckpoint_calm [OF assms(1) this assms(3) [unfolded stored_def]] obtain c' where
    read: "readCheckpoint (checkpointPath s) (checkpointDecoder s) w = (Ok c', tick w)" "PreparedClaims c' = cs" by blast
  then have "restoreClaimFromCheckpoint lib s c' claim (tick w) = (Ok [], tick w)"
    using assms(4) by (simp add: restoreClaimFromCheckpoint_def listed_iff ok_def)
  with read(1) assms(5) show ?thesis
    by (simp add: prepare_body_eq effect_simps)
qed

lemma failed_prepare_leaves_directories:
  assumes "calm w" "\<not> mutex w" "state_ok s" "claim_ok claim" "stored s w = Some cs" "claim_UID claim \<notin> UID ` set cs"
    and "Allocation claim = Some alloc" "x \<in> set (own_results s (Results alloc))" "fmlookup (allocatable s) (Device x) = None"
    and "\<not> in_the_way (claim_dirs s claim) w"
  shows "\<exists>e w'. Prepare lib s claim w = (Err e, w') \<and> stored s w' = Some cs
    \<and> (\<forall>r. last_of_request r (own_results s (Results alloc)) \<longrightarrow>
        claim_ready (files w') (claim_dir (claim_Name claim) (Request r)) (Device r))"
proof -
  let ?own = "own_results s (Results alloc)" and ?w = "w\<lparr>mutex := True\<rparr>"
  have names: "plain (claim_Name claim)" "list_all (\<lambda>r. request_ok (Request r)) ?own"
    using assms(4,7) by (auto simp: claim_ok_def own_results_def list_all_iff)
  have calm: "calm (tick ?w)" "calm ?w"
    using assms(1) by (simp_all add: calm_def)
  have "\<not> in_the_way (claim_dir (claim_Name claim) ` Request ` set ?own) (tick ?w)"
    using assms(7,10) by (simp add: claim_dirs_def in_the_way_def)
  from set_up_dirs_calm [OF calm(1) names this] obtain w1 where
    dirs: "set_up_dirs lib (claim_Name claim) ?own (tick ?w) = (Ok (), w1)" by blast
  obtain e w2 where comp: "computeDeviceConfig lib s claim w1 = (Err e, w2)"
    using compute_unknown_device [OF assms(7-9)] by blast
  have anew: "prepare_anew lib s claim c (tick ?w) = (Err (Errorf ''prepare failed'' e), w2)" for c
    using dirs comp by (simp add: prepare_anew_def prepareDevices_eq [OF assms(7)] effect_simps)
  have "prepare_body lib s claim ?w = (Err (Errorf ''prepare failed'' e), w2)"
    by (rule prepare_unlisted [OF calm(2) assms(3) _ assms(6) anew]) (simp add: assms(5))
  moreover have "stored s w2 = stored s ?w"
    using stored_others [OF assms(3) touches_prepare_anew [OF assms(4)] anew]
    by (simp add: stored_same_files [of "tick ?w" ?w])
  moreover have "files w2 = files w1"
    using touches_nothing [OF steps_inD [OF touches_computeDeviceConfig comp]] .
  then have "claim_ready (files w2) (claim_dir (claim_Name claim) (Request r)) (Device r)" if "last_of_request r ?own" for r
    using set_up_dirs_ready [OF dirs names that] by simp
  ultimately show ?thesis
    using assms(2,5) by (intro exI [of _ "Errorf ''prepare failed'' e"] exI [of _ "w2\<lparr>mutex := False\<rparr>"])
      (simp add: Prepare_def locked_run)
qed

text \<open>
  A stored claim whose devices are all of other drivers is restored as no device, which Prepare
  takes for not prepared (\<open>state.go\<close>, \<open>Prepare\<close>): each successful call adds one more entry.
\<close>

lemma no_own_results_added_again:
  assumes "\<not> mutex w" "state_ok s" "claim_ok claim" "Allocation claim = Some alloc" "own_results s (Results alloc) = []"
    and "stored s w = Some cs" "Prepare lib s claim w = (Ok ds, w')"
  shows "ds = [] \<and> stored s w' = Some (cs @ [checkpoint_entry claim])"
proof -
  obtain wa where body: "prepare_body lib s claim (w\<lparr>mutex := True\<rparr>) = (Ok ds, wa)" and w': "w' = wa\<lparr>mutex := False\<rparr>"
    using assms(1,7) by (rule Prepare_body)
  have none: "devices = []" if "computeDeviceConfig lib s claim u = (Ok devices, v)" for devices u v
    using computed_mset [OF that assms(4)] assms(5) by (simp add: GetDevices_def)
  from body obtain c w1 restored w2 where
    read: "readCheckpoint (checkpointPath s) (checkpointDecoder s) (w\<lparr>mutex := True\<rparr>) = (Ok c, w1)" and
    res: "restoreClaimFromCheckpoint lib s c claim w1 = (Ok restored, w2)" and
    rest: "(if restored \<noteq> [] then ok (GetDevices restored)
      else call (prepare_anew lib s claim c)
        (\<lambda>devices. call (wrap (Errorf ''unable to sync to checkpoint'')
            (writeCheckpoint (checkpointPath s) (checkpointEncoder s) (addClaimToCheckpoint c claim)))
          (\<lambda>_. ok (GetDevices devices)))) w2 = (Ok ds, wa)"
    unfolding prepare_body_eq by (auto elim!: call_OkE)
  have "PreparedClaims c = cs"
    using readCheckpoint_Ok [OF read] assms(6) by (simp add: stored_def)
  moreover have "restored = []"
    using res none by (auto simp: restoreClaimFromCheckpoint_def split: if_splits)
  with rest obtain devices w3 where anew: "prepare_anew lib s claim c w2 = (Ok devices, w3)"
    and wr: "writeCheckpoint (checkpointPath s) (checkpointEncoder s) (addClaimToCheckpoint c claim) w3 = (Ok (), wa)"
    and ds: "ds = GetDevices devices"
    by (auto elim!: call_OkE)
  from anew none have "devices = []"
    unfolding prepare_anew_def prepareDevices_eq [OF assms(4)] by (auto elim!: call_OkE)
  ultimately show ?thesis
    using file_store.save_Ok [OF state_ok_usable [OF assms(2)] wr] w' ds
    by (simp add: stored_def addClaimToCheckpoint_def GetDevices_def)
qed

text \<open>
  Several results of one request share a directory (\<open>createClaimDirectory\<close>): after a Prepare that
  returned, its metadata names the device of the last one only.
\<close>

lemma metadata_label_inj:
  assumes "claim_ready m p d" "list_all label_char d" "list_all label_char d'" "d' \<noteq> d"
  shows "\<not> claim_ready m p d'"
  using assms by (auto simp: claim_ready_def file_ready_def metadata_of_label split: option.splits node.splits)

lemma shared_request_metadata:
  assumes "state_ok s" "claim_ok claim" "cdi_laws lib specs" "\<not> mutex w"
    and "stored s w = Some cs" "claim_UID claim \<notin> UID ` set cs" "Prepare lib s claim w = (Ok pds, w')"
    and "Allocation claim = Some alloc" "last_of_request r (own_results s (Results alloc))"
    and "x \<in> set (own_results s (Results alloc))" "Request x = Request r" "Device x \<noteq> Device r"
    and "list_all label_char (Device x)" "list_all label_char (Device r)"
  shows "reported lib s claim x \<in> set pds"
    and "\<not> claim_ready (files w') (claim_dir (claim_Name claim) (Request x)) (Device x)"
proof -
  from Prepare_fresh [OF assms(1-7)] assms(8,9) obtain
    pds: "mset pds = mset (map (reported lib s claim) (own_results s (Results alloc)))" and
    ready: "claim_ready (files w') (claim_dir (claim_Name claim) (Request r)) (Device r)" by auto
  from pds assms(10) show "reported lib s claim x \<in> set pds"
    by (metis image_eqI list.set_map set_mset_mset)
  show "\<not> claim_ready (files w') (claim_dir (claim_Name claim) (Request x)) (Device x)"
    using metadata_label_inj [OF ready assms(14,13,12)] by (simp add: assms(11))
qed

text \<open>
  The entry of a claim finds a request by the name of a device alone (\<open>addClaimToCheckpoint\<close>): of
  two results with one device name, of two pools or drivers, the last one's request is recorded,
  so that the directory of the other one is never deleted.
\<close>

lemma recorded_request_last:
  assumes "Allocation claim = Some alloc" "Results alloc = rs @ [r]"
  shows "recorded_request (checkpoint_entry claim) (Device r) = Request r"
  using assms by (simp add: recorded_request_def checkpoint_entry_def)

section \<open>Unprepare\<close>

text \<open>
  The spec is deleted before the checkpoint is written (\<open>Unprepare\<close>): when the disk fails then,
  the claim is still stored, without a spec.
\<close>

lemma half_unprepared:
  assumes "\<not> mutex w" "state_ok s" "cdi_laws lib specs" "stored s w = Some cs" "list_all entry_ok cs"
    and "readCheckpoint (checkpointPath s) (checkpointDecoder s) (w\<lparr>mutex := True\<rparr>) = (Ok c, w1)"
    and "unprepare_from lib s uid c w1 = (Ok (), w2)" "fault_at (env w2) (ticks w2) = Some f" "f \<noteq> Kill"
  shows "\<exists>e w'. Unprepare lib s uid w = (Err e, w') \<and> stored s w' = Some cs
    \<and> claim_spec_of lib specs (cdi s) (ext w') uid = None"
proof -
  have c: "PreparedClaims c = cs"
    using readCheckpoint_Ok [OF assms(6)] assms(4) by (simp add: stored_def)
  have f1: "files w1 = files w"
    using touches_nothing [OF steps_inD [OF touches_readCheckpoint assms(6)]] by simp
  obtain w3 where del: "DeleteClaimSpecFile lib (cdi s) uid w3 = (Ok (), w2)"
    using assms(7) unfolding unprepare_from_def by (auto elim!: call_OkE)
  obtain e where wr: "writeCheckpoint (checkpointPath s) (checkpointEncoder s) (removeClaimFromCheckpoint c uid) w2 = (Err e, tick w2)"
    using assms(8,9) by (simp add: writeCheckpoint_def Let_def effect_simps os_CreateTemp_def syscall_def)
  have "unprepare_body lib s uid (w\<lparr>mutex := True\<rparr>) = (Err (Errorf ''unable to sync to checkpoint'' e), tick w2)"
    using assms(6,7) wr by (simp add: unprepare_body_eq effect_simps)
  moreover have "stored s w2 = stored s w1"
    using assms(5) c by (intro stored_others [OF assms(2) touches_unprepare_from assms(7)]) simp
  then have "stored s (tick w2) = Some cs"
    using assms(4) stored_same_files [OF f1, of s] stored_same_files [of "tick w2" w2 s] by simp
  moreover have "claim_spec_of lib specs (cdi s) (ext w2) uid = None"
    using cdi_specs.delete_spec [OF assms(3) del] .
  ultimately show ?thesis
    using assms(1) by (intro exI [of _ "Errorf ''unable to sync to checkpoint'' e"] exI [of _ "(tick w2)\<lparr>mutex := False\<rparr>"])
      (simp add: Unprepare_def locked_run)
qed

section \<open>The checkpoint file\<close>

text \<open>A rename that fails leaves the temporary file (\<open>checkpoint.go\<close>); here the target is a directory.\<close>

lemma failed_rename_leaves_temp_file:
  assumes "calm w" "checkpoint_path path" "enc cp = Inr t" "tmp_free path w"
    and "is_dir (files w) (butlast (elems path))" "is_dir (files w) (elems path)"
  shows "\<exists>e w' p. writeCheckpoint path enc cp w = (Err e, w') \<and> fmlookup (files w) p = None \<and> is_file (files w') p"
proof -
  let ?tmp = "tmp_file_name (filepath_Dir path) ''tmp-checkpoint-'' (tmp_number (env w) (ticks w))"
  have tmp: "elems ?tmp = butlast (elems path) @ [''tmp-checkpoint-'' @ Itoa (tmp_number (env w) (ticks w))]"
    using assms(2) by (simp add: elems_tmp_file_name checkpoint_path_def)
  let ?w1 = "set_files (fmupd (elems ?tmp) (File (new_attrs w 384) []) (files w)) (tick w)"
  have free: "fmlookup (files w) (elems ?tmp) = None"
    using assms(4) tmp by (simp add: tmp_free_def)
  have mk: "os_CreateTemp (filepath_Dir path) ''tmp-checkpoint-'' w = (Ok ?tmp, ?w1)"
    using assms(1,4,5) tmp by (simp add: os_CreateTemp_def Let_def tmp_free_def)
  have ne: "elems ?tmp \<noteq> elems path" "elems ?tmp \<noteq> []"
    using elems_tmp_store_path(2) [OF assms(2)] tmp by auto
  have "\<exists>e w'. writeCheckpoint path enc cp w = (Err e, w') \<and> is_file (files w') (elems ?tmp)"
    using assms(1,3,6) mk ne
    by (simp add: writeCheckpoint_eq write_body_def with_close_def effect_simps file_write_def
        file_sync_def file_close_def os_Rename_def append_file_def is_dir_fmupd_File is_file_def)
  with free show ?thesis by blast
qed

section \<open>Starting\<close>

text \<open>
  \<open>NewDriver\<close> never stops the kubelet plugin helper, not even when it returns an error after it
  has started it (\<open>driver.go\<close>): no run of it depends on what \<open>Stop\<close> would do.
\<close>

lemma NewDriver_never_stops:
  "NewDriver lib svc (kp\<lparr>kp_Stop := stop\<rparr>) config = NewDriver lib svc kp config"
  by (simp add: NewDriver_def)

text \<open>A CDI root that is a file is reported with the error of \<open>os.Stat\<close>, which is nil (\<open>main.go\<close>).\<close>

lemma cdi_root_message:
  assumes "make_directories config w = (Err e, w')" "calm w"
    and "os_MkdirAll (DriverPluginPath config) 488 w = (Ok (), w1)" "is_file (files w1) (elems (flag_cdiRoot (flags config)))"
    and "elems (flag_cdiRoot (flags config)) \<noteq> []"
  shows "e = ErrorString (''path for cdi file generation is not a directory: '' @ [CHR 0x27] @ ''<nil>'' @ [CHR 0x27])"
proof -
  have "calm w1"
    by (rule touches_calm [OF steps_inD [OF touches_os_MkdirAll assms(3)] assms(2)])
  moreover have "\<not> is_dir (files w1) (elems (flag_cdiRoot (flags config)))"
    using assms(4,5) by (auto simp: is_dir_iff is_file_def split: option.splits node.splits)
  ultimately show ?thesis
    using assms by (simp add: make_directories_def effect_simps os_Stat_def)
qed

text \<open>The common CDI spec has the name of the node from the environment, whatever the flag says (\<open>cdi.go\<close>).\<close>

lemma common_spec_node:
  assumes "CreateCommonSpecFile lib h w = (Ok (), w')"
  shows "\<exists>spec name. spec_Devices spec = [\<lparr>cdi_Name = cdiCommonDeviceName,
      cdi_ContainerEdits = \<lparr>Env = [''KUBERNETES_NODE_NAME='' @ getenv (env w) ''NODE_NAME'',
        ''DRA_RESOURCE_DRIVER_NAME='' @ cdi_driverName h], Mounts = []\<rparr>\<rparr>]
    \<and> ext w' = snd (cdi_WriteSpec lib (cache h) spec name (ext w))"
proof -
  let ?spec = "\<lambda>v. \<lparr>Version = v, spec_Kind = kind h, spec_Devices = [\<lparr>cdi_Name = cdiCommonDeviceName,
      cdi_ContainerEdits = \<lparr>Env = [''KUBERNETES_NODE_NAME='' @ getenv (env w) ''NODE_NAME'',
        ''DRA_RESOURCE_DRIVER_NAME='' @ cdi_driverName h], Mounts = []\<rparr>\<rparr>]\<rparr>"
  from assms obtain v name where "extern_err (cdi_WriteSpec lib (cache h) (?spec v) name) w = (Ok (), w')"
    unfolding CreateCommonSpecFile_def Let_def
    by (auto simp: os_Getenv_def lift_result_def ok_def fail_def split: sum.splits elim!: call_OkE)
  from extern_err_ext [OF this] show ?thesis
    by (intro exI [of _ "?spec v"] exI [of _ name]) simp
qed

end
