(* ===== verification/Spec2Isabelle.thy ===== *)
theory Spec2Isabelle
  imports Plugin_Main Checkpoint_Memory Checkpoint_Scheme Concurrent_Calls Healthcheck_Serving Container_View Rolling_Update Known_Issues
begin

text \<open>
  A verification library for the DRA example driver for KubeVirt network directories: the
  kubelet plugin of \<open>cmd/dra-example-kubeletplugin\<close> with the packages it is made of.

  The program. The kubelet asks the plugin to prepare and to unprepare resource claims, in
  batches (\<open>driver.go\<close>). For each claim, under one mutex, the device state (\<open>state.go\<close>)
  reads the checkpoint file (\<open>checkpoint.go\<close>), and unless the claim is in it makes a directory
  on the host for each request of the claim, computes from the opaque configurations which edits
  each device gets (through the profile, \<open>internal/profiles\<close>), writes a CDI spec for the
  claim (\<open>cdi.go\<close>), and writes the checkpoint with the claim added. Unpreparing goes the other
  way. What the driver knows across restarts is in the files only.

  How it is modelled. An operation that has effects is a function from the state of the world to
  an outcome and the next state (\<open>Go_Effects\<close>): a value, a returned error, or an abort where
  the goroutine does not return (nil dereference, the process killed, a lock never released, a wait). The
  world holds the files (\<open>Go_OS\<close>, with each system call of the package \<open>os\<close> that is used), the
  mutex, the state of the third-party code, and an environment that decides which system call
  fails or is the last one of the process, how much of a disturbed write gets out, the order in
  which maps are ranged over. The theorems hold for every environment unless they ask for a calm
  one. Strings are byte strings as in Go; \<open>Go_Strings\<close> and \<open>Go_Paths\<close> model the functions of
  \<open>strings\<close>, \<open>strconv\<close>, \<open>unicode/utf8\<close> and \<open>path/filepath\<close> that are used.

  Third-party code (the CDI cache, the API server and its client, SELinux labels, the JSON
  serializer, gRPC, the kubelet plugin helper) is a parameter: the records \<open>libraries\<close>,
  \<open>services\<close>, \<open>kubeletplugin\<close>, \<open>client_library\<close>, \<open>logging_library\<close> and \<open>codec\<close>. What is relied on of it is stated by named
  predicates over them: \<open>cdi_laws\<close>, \<open>cdi_frame\<close>, \<open>codec_ok\<close>, \<open>cdi_removes\<close>.
  That the CDI package accepts a spec is assumed nowhere: \<open>spec_refused\<close> says that it does not, and a
  run in which it refuses ends with its error. \<open>sample_libraries\<close> is an instance on which the witnesses evaluate.

  Theories and sources.

  \<^item> \<open>Claim_Names\<close>: \<open>extractStableClaimName\<close> and \<open>isAlphanumeric\<close>, the copies in
    \<open>state.go\<close> and in \<open>network.go\<close>; that both are the reference \<open>stable_name\<close>, when the stable
    name is right, and two ways in which it is not.
  \<^item> \<open>Checkpoint_API\<close>: the internal and the v1 type of \<open>internal/api/checkpoint\<close>, the
    generated conversions, \<open>checkpointSerializer\<close>. \<open>Sample_Codec\<close> is a codec for the witnesses.
  \<^item> \<open>Checkpoint_File\<close>: \<open>checkpoint.go\<close>; the write is atomic, the read gives back what was
    written. The locale \<open>checkpoint_store\<close> is what the device state relies on.
  \<^item> \<open>Resource_API\<close>: the types of the Kubernetes API that the driver reads.
  \<^item> \<open>Profiles\<close> and \<open>Network_Profile\<close>: \<open>profiles.go\<close> and \<open>network.go\<close>; the locale
    \<open>config_handler\<close>, and \<open>device_profile\<close>, which extends it by the devices of a node, as the
    interface \<open>Profile\<close> embeds \<open>ConfigHandler\<close>.
  \<^item> \<open>Libraries\<close>: the third-party functions. \<open>CDI\<close>: \<open>cdi.go\<close>; the identifiers given to
    the kubelet resolve. The locale \<open>claim_specs\<close>.
  \<^item> \<open>Claim_Dirs\<close>: \<open>createClaimDirectory\<close> and \<open>deleteClaimDirectory\<close> of \<open>state.go\<close>;
    what they leave and what they can touch. The locale \<open>claim_directories\<close>.
  \<^item> \<open>Device_Config\<close>: \<open>GetOpaqueDeviceConfigs\<close> and \<open>computeDeviceConfig\<close>; that the
    configurations are sorted stably by their source and decoded in that order, the precedence that
    follows, one device for each result.
  \<^item> \<open>Client_Flags\<close>: \<open>pkg/flags\<close>, the flags of the client and of the logging libraries, and
    the client's configuration; \<open>Float_Conversion\<close>: Go's conversion of a \<open>float64\<close> to a
    \<open>float32\<close> on the bits, and its rounding error.
  \<^item> \<open>Plugin_Config\<close>: flags, configuration and table of profiles of \<open>main.go\<close>.
  \<^item> \<open>Device_State\<close>, \<open>Prepare_Claims\<close>, \<open>Unprepare_Claims\<close>: \<open>NewDeviceState\<close>,
    \<open>Prepare\<close> and \<open>Unprepare\<close>; what they do to the store of claims, the specs and the files in
    every run, that they succeed when nothing disturbs them (\<open>Prepare\<close> unless the CDI package refuses
    the spec of the claim), and where they fall short.
  \<^item> \<open>Health\<close>: \<open>health.go\<close>. \<open>Healthcheck_Serving\<close>: the goroutine that serves it and the wait for
    it, as a step relation over an opaque gRPC server that is relied on through
    \<open>stops_gracefully\<close>. \<open>Driver\<close>: \<open>driver.go\<close>; each claim of a batch has its own answer.
  \<^item> \<open>Container_View\<close>: what the containers of a pod get from a prepared claim, across the device
    state, the profile, the CDI handler and the directories.
  \<^item> \<open>Driver_Start\<close>: what \<open>NewDeviceState\<close> creates with the network profile, as a function of
    the configuration, \<open>new_state\<close>.
  \<^item> \<open>Claim_Frames\<close>: the claims that a kubelet has prepared, the \<open>workload\<close>, and what the
    operations on one claim keep of every other one; that \<open>Unprepare\<close> undoes \<open>Prepare\<close> on the store
    and on the specs of the node.
  \<^item> \<open>Runs\<close>: runs of labelled step relations. The locale \<open>simulation\<close> carries a refinement of
    steps over to runs, \<open>simulation_frame\<close> adds what a run leaves alone, and two simulations in a
    row, a \<open>simulation_chain\<close>, are one.
  \<^item> \<open>Claim_Lifecycle\<close>: the driver over its lifetime, as the step relation \<open>driver_step\<close> on worlds
    (prepare, unprepare, unprepare without a readable checkpoint, kill and restart), its refinement
    of the abstract machine \<open>claims_step\<close> on lists of claims, and that a prepared claim stays.
  \<^item> \<open>Driver_Returns\<close>: that the operations return in a process that is not killed.
  \<^item> \<open>Concurrent_Calls\<close>: batches that overlap in time, as a pool of goroutines that share the mutex;
    a body may be interrupted anywhere. Every interleaving is equal to whole calls one after the
    other, so that it refines the machine of the held claims, and no goroutine is stuck.
  \<^item> \<open>Rolling_Update\<close>: several instances of the plugin on one node, whose calls the kubelet plugin
    library makes take turns: their sockets differ, and together they refine the same machine.
  \<^item> \<open>Plugin_Main\<close>: \<open>main.go\<close>, the application with its flags and its action, and \<open>RunPlugin\<close>.
    What the kubelet plugin library and the system do while the plugin waits is a list of events,
    so its loop ends; a wait without a further event is the abort \<open>Waiting\<close>. A whole run refines
    the machine of the held claims, and in a process that is not killed it returns as soon as
    something ends it.
  \<^item> \<open>Checkpoint_Memory\<close>: the generated deep copies, on an explicit memory.
  \<^item> \<open>Checkpoint_Scheme\<close>: the registration of the types and conversions with a scheme; what the
    JSON serializer then does with the scheme is third-party code, relied on through \<open>codec_ok\<close>.
  \<^item> \<open>Known_Issues\<close>: runs in which the code does what it presumably does not mean to.

  Hypotheses. \<open>usable\<close>: the network profile, a plugin directory apart from the directories of the
  claims, a codec that reads what it wrote, and a \<open>workload\<close>: claims that the API server admits,
  one for each UID, allocated with a result of this driver, none named as the common CDI device.
  \<open>cdi_frame\<close>: what the CDI package leaves alone and how it derives the name of a transient spec.

  Fuel. There is none: recursion is on lists, strings and numbers, and every function is total.

  Simplifications. A path below a plain file counts as missing when it is read or asked for, so that
  the error is \<open>ENOENT\<close> where the system says \<open>ENOTDIR\<close>; making directories does say \<open>ENOTDIR\<close>.
  \<open>codec_ok\<close> asks for a round trip of all byte strings; JSON keeps those that are valid UTF-8, which
  the names and UIDs that the API server admits are. A signal that arrives while \<open>NewDriver\<close> runs is,
  in the list of events, the first one after it.

  Not modelled: parsing of the command line (third-party code; \<open>newApp\<close> is the data it is given, and
  \<open>store_given\<close> what is relied on of it: that the value given by name goes to the destination),
  log messages and the text on the standard error, calls that are still under way while the plugin
  shuts down (stopping the kubelet plugin helper, which waits for them, is third-party code), the
  start of a second instance in the middle of a call of the first (an operation is a function on
  worlds, so two processes that share no mutex take turns by whole operations), tests, and the
  imports of the build tools.
\<close>

end
